(* ===== verification/Go_Prelude.thy ===== *)
theory Go_Prelude
  imports Main "HOL-Library.Word" "HOL-Library.Finite_Map" "HOL-Library.FSet"
    "HOL-Library.List_Lexorder" "HOL-Library.Char_ord"
begin

text \<open>
  What every component of the controller shares: Go strings (byte strings, ordered as
  \<open>sort.Strings\<close> orders them), Go maps with the nil map kept apart from the empty one,
  machine integers, Go errors as values, and the lemmas on lists and finite sets that the
  component proofs use. The collection \<open>go_map_simps\<close> gathers the lookup facts that proofs about
  maps are run with.
\<close>

named_theorems go_map_simps \<open>lookup facts about the map operations of the source\<close>

section \<open>Integers\<close>

text \<open>
  \<open>int32\<close> is a 32-bit word read as two's complement; conversions from \<open>int\<close>
  (64 bits on the platforms the controller is built for) truncate.
\<close>

type_synonym int32 = "32 word"

definition int32_of_int :: "int \<Rightarrow> int32" where
  "int32_of_int i = word_of_int i"

definition int32_of_len :: "nat \<Rightarrow> int32" where
  "int32_of_len n = word_of_nat n"

lemma sint_int32_of_int:
  assumes "- (2 ^ 31) \<le> i" "i < 2 ^ 31"
  shows "sint (int32_of_int i) = i"
  using assms by (simp add: int32_of_int_def sint_sbintrunc' signed_take_bit_int_eq_self)

lemma sint_int32_of_len:
  assumes "n < 2 ^ 31"
  shows "sint (int32_of_len n) = int n"
proof -
  have "word_of_nat n = (word_of_int (int n) :: int32)" by simp
  moreover have "int n < 2 ^ 31" using assms by (metis of_nat_less_numeral_power_cancel_iff)
  ultimately show ?thesis
    using sint_int32_of_int [of "int n"] by (simp add: int32_of_len_def int32_of_int_def)
qed

lemma sint_int32_range: "- (2 ^ 31) \<le> sint (x :: int32)" "sint (x :: int32) < 2 ^ 31"
  using sint_ge [of x] sint_lt [of x] by simp_all

section \<open>Maps\<close>

text \<open>
  A Go \<open>map[string]string\<close>: \<open>None\<close> is the nil map, \<open>Some f\<close> a map with the finitely many
  entries of \<open>f\<close>. Reading, \<open>len\<close>, \<open>range\<close> and \<open>delete\<close> treat nil as empty.
\<close>

type_synonym go_map = "(string, string) fmap option"

definition go_lookup :: "go_map \<Rightarrow> string \<Rightarrow> string option" where
  "go_lookup m k = (case m of None \<Rightarrow> None | Some f \<Rightarrow> fmlookup f k)"

definition go_get :: "go_map \<Rightarrow> string \<Rightarrow> string" where
  "go_get m k = (case go_lookup m k of None \<Rightarrow> [] | Some v \<Rightarrow> v)"

definition go_entries :: "go_map \<Rightarrow> (string, string) fmap" where
  "go_entries m = (case m of None \<Rightarrow> fmempty | Some f \<Rightarrow> f)"

definition go_len :: "go_map \<Rightarrow> nat" where
  "go_len m = fcard (fmdom (go_entries m))"

definition go_delete :: "go_map \<Rightarrow> string \<Rightarrow> go_map" where
  "go_delete m k = map_option (fmdrop k) m"

text \<open>
  The order in which \<open>range\<close> visits a map is not specified by the language. \<open>go_range\<close> is one
  order (by key); where the source's result could depend on the order, the model takes the
  visited list as an argument and a lemma compares two orders.
\<close>

definition go_range_keys :: "go_map \<Rightarrow> string list" where
  "go_range_keys m = sorted_list_of_fset (fmdom (go_entries m))"

definition go_range :: "go_map \<Rightarrow> (string \<times> string) list" where
  "go_range m = map (\<lambda>k. (k, go_get m k)) (go_range_keys m)"

text \<open>Writing a list of entries into a map, the loop \<open>for k, v := range src { dst[k] = v }\<close>.\<close>

fun put_entries :: "(string, string) fmap \<Rightarrow> (string \<times> string) list \<Rightarrow> (string, string) fmap" where
  "put_entries dst [] = dst"
| "put_entries dst ((k, v) # kvs) = put_entries (fmupd k v dst) kvs"

lemma go_lookup_nil [simp, go_map_simps]: "go_lookup None k = None"
  by (simp add: go_lookup_def)

lemma go_lookup_Some [simp, go_map_simps]: "go_lookup (Some f) k = fmlookup f k"
  by (simp add: go_lookup_def)

lemma go_get_nil [simp, go_map_simps]: "go_get None k = []"
  by (simp add: go_get_def)

lemma go_get_Some [go_map_simps]:
  "go_get (Some f) k = (case fmlookup f k of None \<Rightarrow> [] | Some v \<Rightarrow> v)"
  by (simp add: go_get_def)

lemma go_entries_simps [simp]: "go_entries None = fmempty" "go_entries (Some f) = f"
  by (simp_all add: go_entries_def)

lemma fmlookup_go_entries [simp]: "fmlookup (go_entries m) k = go_lookup m k"
  by (cases m) simp_all

lemma go_lookup_delete [simp, go_map_simps]:
  "go_lookup (go_delete m k) k' = (if k' = k then None else go_lookup m k')"
  by (cases m) (auto simp: go_delete_def)

lemma go_len_0_iff: "go_len m = 0 \<longleftrightarrow> go_entries m = fmempty"
proof
  assume "go_len m = 0"
  then have "fmdom (go_entries m) = {||}" by (simp add: go_len_def)
  then show "go_entries m = fmempty"
    by (metis fmap_ext fmdom_notD fmempty_lookup fempty_iff)
qed (simp add: go_len_def)

lemma go_entries_eq_iff: "go_entries m = go_entries m' \<longleftrightarrow> go_lookup m = go_lookup m'"
  by (metis ext fmap_ext fmlookup_go_entries)

lemma set_go_range_keys [simp]: "set (go_range_keys m) = {k. go_lookup m k \<noteq> None}"
  by (auto simp: go_range_keys_def fmlookup_dom_iff)

lemma go_range_keys_props [simp]: "sorted (go_range_keys m)" "distinct (go_range_keys m)"
  by (simp_all add: go_range_keys_def sorted_list_of_fset.rep_eq)

lemma sorted_distinct_keys:
  assumes "distinct ks" "set ks = {k. go_lookup m k \<noteq> None}"
  shows "sort ks = go_range_keys m"
  using assms by (intro sorted_distinct_set_unique) simp_all

lemma put_entries_lookup:
  "fmlookup (put_entries dst kvs) k =
     (case map_of (rev kvs) k of None \<Rightarrow> fmlookup dst k | Some v \<Rightarrow> Some v)"
  by (induction dst kvs rule: put_entries.induct)
    (auto simp: map_add_def split: option.splits)

lemma map_of_map_keys: "map_of (map (\<lambda>k. (k, f k)) ks) k = (if k \<in> set ks then Some (f k) else None)"
  by (induction ks) auto

text \<open>Copying every entry of a map into an empty one gives the same entries.\<close>

lemma put_entries_range [simp]: "put_entries fmempty (go_range m) = go_entries m"
proof (rule fmap_ext)
  fix k
  have "map_of (rev (go_range m)) k = go_lookup m k"
    by (simp add: go_range_def rev_map map_of_map_keys go_get_def split: option.splits)
  then show "fmlookup (put_entries fmempty (go_range m)) k = fmlookup (go_entries m) k"
    by (simp add: put_entries_lookup split: option.splits)
qed

section \<open>Errors and calls\<close>

text \<open>
  An error returned by the API server carries a reason (\<open>metav1.StatusReason\<close>), of which the
  source asks for two; \<open>Errorf\<close> is \<open>fmt.Errorf\<close> with its formatted text and \<open>Wrapped\<close> is
  \<open>fmt.Errorf("%s: %w", message, err)\<close>, through which the reason stays visible. \<open>Panic\<close> is a
  run-time panic: it ends the call that raises it and every caller.
\<close>

datatype api_reason = NotFound | Conflict | OtherReason string

datatype go_error =
    Errorf string
  | Wrapped string go_error
  | Api_Error api_reason string
  | Panic string

fun error_text :: "go_error \<Rightarrow> string" where
  "error_text (Errorf s) = s"
| "error_text (Wrapped s e) = s @ '': '' @ error_text e"
| "error_text (Api_Error r s) = s"
| "error_text (Panic s) = s"

fun error_reason :: "go_error \<Rightarrow> api_reason option" where
  "error_reason (Errorf s) = None"
| "error_reason (Wrapped s e) = error_reason e"
| "error_reason (Api_Error r s) = Some r"
| "error_reason (Panic s) = None"

definition is_not_found :: "go_error \<Rightarrow> bool" where
  "is_not_found e \<longleftrightarrow> error_reason e = Some NotFound"

definition is_conflict :: "go_error \<Rightarrow> bool" where
  "is_conflict e \<longleftrightarrow> error_reason e = Some Conflict"

text \<open>A fallible result, and a call that reads and changes a world of type \<open>'w\<close>.\<close>

type_synonym 'a result = "go_error + 'a"
type_synonym ('w, 'a) call = "'w \<Rightarrow> 'a result \<times> 'w"

section \<open>Text\<close>

text \<open>\<open>%d\<close> of a count.\<close>

fun show_nat :: "nat \<Rightarrow> string" where
  "show_nat n = (if n < 10 then [char_of (48 + n)] else show_nat (n div 10) @ [char_of (48 + n mod 10)])"

declare show_nat.simps [simp del]

section \<open>Lists and finite sets\<close>

lemma sorted_list_of_fset_cong: "fset A = B \<Longrightarrow> finite B \<Longrightarrow> sorted_list_of_fset A = sorted_list_of_set B"
  by (simp add: sorted_list_of_fset.rep_eq)

lemma fcard_fset_of_list_distinct: "distinct xs \<Longrightarrow> fcard (fset_of_list xs) = length xs"
  by (simp add: fcard.rep_eq fset_of_list.rep_eq distinct_card)

lemma filter_partition_length:
  "length (filter P xs) + length (filter (\<lambda>x. \<not> P x) xs) = length xs"
  by (simp add: sum_length_filter_compl)

lemma distinct_filter_card:
  "distinct xs \<Longrightarrow> length (filter (\<lambda>x. x \<in> A) xs) = card (A \<inter> set xs)"
  by (metis distinct_card distinct_filter inter_set_filter)

lemma filter_notin_take: "distinct xs \<Longrightarrow> filter (\<lambda>x. x \<notin> set (take m xs)) xs = drop m xs"
proof (induction xs arbitrary: m)
  case (Cons x xs)
  show ?case
  proof (cases m)
    case (Suc k)
    have "filter (\<lambda>y. y \<noteq> x \<and> y \<notin> set (take k xs)) xs = filter (\<lambda>y. y \<notin> set (take k xs)) xs"
      using Cons.prems by (intro filter_cong) auto
    with Cons Suc show ?thesis by simp
  qed simp
qed simp

end
