(* ===== verification/Core_Types.thy ===== *)
theory Core_Types
  imports Go_Prelude
begin

text \<open>
  The data of the controller: the structs of \<open>pkg/core/types.go\<close>, the constants of
  \<open>pkg/core/constants.go\<close> and the result types the components exchange. A pointer field is an
  option (\<open>None\<close> is nil); a slice is a list (the code never tells a nil slice from an empty one
  except in the deep copies).
\<close>

section \<open>Names and constants\<close>

record namespaced_name =
  nn_namespace :: string
  nn_name :: string

definition ManagedLabel :: string where
  "ManagedLabel = ''configpropagator.platform.example.com/managed''"

definition SourceAnnotation :: string where
  "SourceAnnotation = ''configpropagator.platform.example.com/source''"

definition HashAnnotation :: string where
  "HashAnnotation = ''configpropagator.platform.example.com/hash''"

definition Finalizer :: string where
  "Finalizer = ''configpropagator.platform.example.com/finalizer''"

definition CondReady :: string where "CondReady = ''Ready''"
definition CondProgressing :: string where "CondProgressing = ''Progressing''"
definition CondDegraded :: string where "CondDegraded = ''Degraded''"

definition StrategyImmediate :: string where "StrategyImmediate = ''immediate''"
definition StrategyRolling :: string where "StrategyRolling = ''rolling''"

definition ConflictOverwrite :: string where "ConflictOverwrite = ''overwrite''"
definition ConflictSkip :: string where "ConflictSkip = ''skip''"

lemmas constant_defs =
  ManagedLabel_def SourceAnnotation_def HashAnnotation_def Finalizer_def
  CondReady_def CondProgressing_def CondDegraded_def
  StrategyImmediate_def StrategyRolling_def ConflictOverwrite_def ConflictSkip_def

lemma metadata_keys_distinct [simp]:
  "SourceAnnotation \<noteq> HashAnnotation" "HashAnnotation \<noteq> SourceAnnotation"
  by (simp_all add: constant_defs)

lemma enum_values_distinct [simp]:
  "StrategyImmediate \<noteq> StrategyRolling" "StrategyRolling \<noteq> StrategyImmediate"
  "ConflictSkip \<noteq> ConflictOverwrite" "ConflictOverwrite \<noteq> ConflictSkip"
  "StrategyRolling \<noteq> []" "StrategyImmediate \<noteq> []" "ConflictOverwrite \<noteq> []" "ConflictSkip \<noteq> []"
  by (simp_all add: constant_defs)

section \<open>The spec\<close>

record object_ref =
  ref_namespace :: string
  ref_name :: string

record label_selector_req =
  lsr_key :: string
  lsr_operator :: string
  lsr_values :: "string list"

record label_selector =
  ls_match_labels :: go_map
  ls_match_expressions :: "label_selector_req list"

record update_strategy =
  us_type :: string
  us_batch_size :: "int32 option"

record config_propagation_spec =
  sp_source_ref :: object_ref
  sp_namespace_selector :: "label_selector option"
  sp_data_keys :: "string list"
  sp_strategy :: "update_strategy option"
  sp_conflict_policy :: string
  sp_prune :: "bool option"
  sp_resync_period_seconds :: "int32 option"

section \<open>The status\<close>

record condition =
  cond_type :: string
  cond_status :: string
  cond_reason :: string
  cond_message :: string
  cond_last_transition_time :: string

record out_of_sync_item =
  oos_namespace :: string
  oos_reason :: string
  oos_message :: string

record config_propagation_status =
  sts_conditions :: "condition list"
  sts_target_count :: int32
  sts_synced_count :: int32
  sts_out_of_sync_count :: int32
  sts_out_of_sync :: "out_of_sync_item list"
  sts_last_sync_time :: string

section \<open>The outcome of a reconcile\<close>

record rollout_result =
  rr_planned :: "string list"
  rr_total_targets :: nat
  rr_completed_count :: nat
  rr_out_of_sync :: "out_of_sync_item list"

text \<open>The object the concrete examples are about.\<close>

abbreviation ex_cr :: namespaced_name where
  "ex_cr \<equiv> \<lparr>nn_namespace = ''default'', nn_name = ''cp''\<rparr>"

end
