(* ===== verification/Core_Queue.thy ===== *)
theory Core_Queue
  imports Core_Types
begin

text \<open>
  The work queue of \<open>pkg/core/queue.go\<close>: a first-in first-out queue that ignores an item that
  is already waiting. Its interface is the locale \<open>dedup_queue\<close>, over the list of waiting items;
  what a client relies on is proved there once and the Go queue is shown to provide it. Every
  method holds the queue's mutex throughout, so methods are atomic steps.
\<close>

section \<open>The interface\<close>

locale dedup_queue =
  fixes empty_q :: "'q"
    and add_q :: "'a \<Rightarrow> 'q \<Rightarrow> 'q"
    and get_q :: "'q \<Rightarrow> 'a option \<times> 'q"
    and len_q :: "'q \<Rightarrow> nat"
    and waiting :: "'q \<Rightarrow> 'a list"
    and inv_q :: "'q \<Rightarrow> bool"
  assumes inv_empty: "inv_q empty_q"
    and inv_add: "inv_q q \<Longrightarrow> inv_q (add_q x q)"
    and inv_get: "inv_q q \<Longrightarrow> inv_q (snd (get_q q))"
    and waiting_empty: "waiting empty_q = []"
    and waiting_distinct: "inv_q q \<Longrightarrow> distinct (waiting q)"
    and waiting_add: "inv_q q \<Longrightarrow>
      waiting (add_q x q) = (if x \<in> set (waiting q) then waiting q else waiting q @ [x])"
    and get_empty: "inv_q q \<Longrightarrow> waiting q = [] \<Longrightarrow> fst (get_q q) = None \<and> waiting (snd (get_q q)) = []"
    and get_first: "inv_q q \<Longrightarrow> waiting q = x # xs \<Longrightarrow>
      fst (get_q q) = Some x \<and> waiting (snd (get_q q)) = xs"
    and len_waiting: "inv_q q \<Longrightarrow> len_q q = length (waiting q)"
begin

lemma inv_adds: "inv_q q \<Longrightarrow> inv_q (fold add_q xs q)"
  by (induction xs arbitrary: q) (simp_all add: inv_add)

lemma set_waiting_adds: "inv_q q \<Longrightarrow> set (waiting (fold add_q xs q)) = set (waiting q) \<union> set xs"
  by (induction xs arbitrary: q) (auto simp: inv_add waiting_add)

text \<open>A second request for an item that already waits changes nothing a client sees.\<close>

lemma add_twice: "inv_q q \<Longrightarrow> waiting (add_q x (add_q x q)) = waiting (add_q x q)"
  by (simp add: inv_add waiting_add)

text \<open>Items leave in the order of their first request, each once.\<close>

lemma waiting_adds:
  "inv_q q \<Longrightarrow> waiting (fold add_q xs q) =
     waiting q @ rev (remdups (rev (filter (\<lambda>x. x \<notin> set (waiting q)) xs)))"
proof (induction xs rule: rev_induct)
  case (snoc x xs)
  then show ?case
    using set_waiting_adds [OF snoc.prems, of xs]
    by (auto simp: inv_adds waiting_add)
qed simp

end

section \<open>The Go queue\<close>

record 'a work_queue =
  wq_set :: "'a set"
  wq_items :: "'a list"

definition NewWorkQueue :: "'a work_queue" where
  "NewWorkQueue = \<lparr>wq_set = {}, wq_items = []\<rparr>"

definition wq_Add :: "'a \<Rightarrow> 'a work_queue \<Rightarrow> 'a work_queue" where
  "wq_Add item queue =
     (if item \<in> wq_set queue then queue
      else queue\<lparr>wq_set := insert item (wq_set queue), wq_items := wq_items queue @ [item]\<rparr>)"

definition wq_Get :: "'a work_queue \<Rightarrow> 'a option \<times> 'a work_queue" where
  "wq_Get queue =
     (case wq_items queue of
        [] \<Rightarrow> (None, queue)
      | item # rest \<Rightarrow>
          (Some item, queue\<lparr>wq_items := rest, wq_set := wq_set queue - {item}\<rparr>))"

definition wq_Len :: "'a work_queue \<Rightarrow> nat" where
  "wq_Len queue = length (wq_items queue)"

text \<open>The index agrees with the list, which holds each item once.\<close>

definition wq_inv :: "'a work_queue \<Rightarrow> bool" where
  "wq_inv queue \<longleftrightarrow> wq_set queue = set (wq_items queue) \<and> distinct (wq_items queue)"

lemmas wq_defs = NewWorkQueue_def wq_Add_def wq_Get_def wq_Len_def wq_inv_def

interpretation wq: dedup_queue NewWorkQueue wq_Add wq_Get wq_Len wq_items wq_inv
  by unfold_locales (auto simp: wq_defs split: list.splits)

text \<open>Taking items until the queue is empty; the fuel is the number of calls allowed.\<close>

fun wq_drain :: "nat \<Rightarrow> 'a work_queue \<Rightarrow> 'a list \<times> 'a work_queue" where
  "wq_drain 0 queue = ([], queue)"
| "wq_drain (Suc fuel) queue =
     (case wq_Get queue of
        (None, queue') \<Rightarrow> ([], queue')
      | (Some item, queue') \<Rightarrow>
          (case wq_drain fuel queue' of (items, queue'') \<Rightarrow> (item # items, queue'')))"

lemma wq_drain_all:
  "wq_inv queue \<Longrightarrow> wq_Len queue \<le> fuel \<Longrightarrow>
     fst (wq_drain fuel queue) = wq_items queue \<and> wq_items (snd (wq_drain fuel queue)) = []"
proof (induction fuel arbitrary: queue)
  case 0
  then show ?case by (simp add: wq_Len_def)
next
  case (Suc fuel)
  show ?case
  proof (cases "wq_items queue")
    case Nil
    then show ?thesis by (simp add: wq_Get_def)
  next
    case (Cons x xs)
    let ?q = "snd (wq_Get queue)"
    have q: "wq_inv ?q" "wq_items ?q = xs"
      using wq.inv_get [OF Suc.prems(1)] wq.get_first [OF Suc.prems(1) Cons] by simp_all
    have "wq_Len ?q \<le> fuel" using Suc.prems(2) Cons q(2) by (simp add: wq_Len_def)
    with Suc.IH [OF q(1)] q(2)
    have "fst (wq_drain fuel ?q) = xs" "wq_items (snd (wq_drain fuel ?q)) = []" by simp_all
    moreover have "wq_Get queue = (Some x, ?q)" using Cons by (simp add: wq_Get_def)
    ultimately show ?thesis using Cons by (auto split: prod.splits)
  qed
qed

section \<open>Requests and deliveries in any order\<close>

text \<open>
  The operations in any order, with what each answers, on the Go queue and on the plain list of
  the items that wait.
\<close>

datatype 'a queue_op = AddOp 'a | GetOp | LenOp

datatype 'a queue_answer = Added | Got "'a option" | Length_is nat

fun run_queue :: "'a queue_op list \<Rightarrow> 'a work_queue \<Rightarrow> 'a queue_answer list \<times> 'a work_queue" where
  "run_queue [] queue = ([], queue)"
| "run_queue (AddOp x # ops) queue =
     (case run_queue ops (wq_Add x queue) of (as, queue') \<Rightarrow> (Added # as, queue'))"
| "run_queue (GetOp # ops) queue =
     (case wq_Get queue of (r, queue1) \<Rightarrow>
        (case run_queue ops queue1 of (as, queue') \<Rightarrow> (Got r # as, queue')))"
| "run_queue (LenOp # ops) queue =
     (case run_queue ops queue of (as, queue') \<Rightarrow> (Length_is (wq_Len queue) # as, queue'))"

fun run_list :: "'a queue_op list \<Rightarrow> 'a list \<Rightarrow> 'a queue_answer list \<times> 'a list" where
  "run_list [] xs = ([], xs)"
| "run_list (AddOp x # ops) xs =
     (case run_list ops (if x \<in> set xs then xs else xs @ [x]) of (as, ys) \<Rightarrow> (Added # as, ys))"
| "run_list (GetOp # ops) [] = (case run_list ops [] of (as, ys) \<Rightarrow> (Got None # as, ys))"
| "run_list (GetOp # ops) (x # xs) = (case run_list ops xs of (as, ys) \<Rightarrow> (Got (Some x) # as, ys))"
| "run_list (LenOp # ops) xs = (case run_list ops xs of (as, ys) \<Rightarrow> (Length_is (length xs) # as, ys))"

lemma run_queue_list:
  assumes "wq_inv queue"
  shows "fst (run_queue ops queue) = fst (run_list ops (wq_items queue)) \<and>
    wq_items (snd (run_queue ops queue)) = snd (run_list ops (wq_items queue)) \<and> wq_inv (snd (run_queue ops queue))"
  using assms
proof (induction ops arbitrary: queue)
  case Nil
  then show ?case by simp
next
  case (Cons opr ops)
  show ?case
  proof (cases opr)
    case (AddOp x)
    from wq.waiting_add [OF Cons.prems, of x] Cons.IH [OF wq.inv_add [OF Cons.prems, of x]] show ?thesis
      by (simp add: AddOp case_prod_unfold)
  next
    case GetOp
    obtain r queue1 where g: "wq_Get queue = (r, queue1)" by fastforce
    have inv: "wq_inv queue1" using wq.inv_get [OF Cons.prems] g by simp
    show ?thesis
    proof (cases "wq_items queue")
      case Nil
      with wq.get_empty [OF Cons.prems] g have "r = None" "wq_items queue1 = []" by simp_all
      with Cons.IH [OF inv] Nil g show ?thesis by (simp add: GetOp case_prod_unfold)
    next
      case (Cons y ys)
      with wq.get_first [OF Cons.prems Cons] g have "r = Some y" "wq_items queue1 = ys" by simp_all
      with Cons.IH [OF inv] Cons g show ?thesis by (simp add: GetOp case_prod_unfold)
    qed
  next
    case LenOp
    with Cons.IH [OF Cons.prems] wq.len_waiting [OF Cons.prems] show ?thesis by (simp add: case_prod_unfold)
  qed
qed

section \<open>Properties\<close>

text \<open>C29. The queue behaves as a first-in first-out list without duplicates, whatever the order of
  requests and deliveries: every Get and every Len of any sequence of operations on a new queue
  answers what that list answers, so an item that was handed out can be requested again and is
  handed out again. In particular, draining after any requests hands out each requested item once,
  in the order of the first requests, and leaves the queue empty.\<close>

theorem work_queue_fifo_dedup:
  "fst (run_queue ops NewWorkQueue) = fst (run_list ops []) \<and>
   wq_Len (snd (run_queue ops NewWorkQueue)) = length (snd (run_list ops [])) \<and>
   fst (wq_drain (length xs) (fold wq_Add xs NewWorkQueue)) = rev (remdups (rev xs)) \<and>
   wq_Len (snd (wq_drain (length xs) (fold wq_Add xs NewWorkQueue))) = 0"
proof -
  let ?q = "fold wq_Add xs NewWorkQueue"
  have inv: "wq_inv ?q" by (rule wq.inv_adds [OF wq.inv_empty])
  have items: "wq_items ?q = rev (remdups (rev xs))"
    using wq.waiting_adds [OF wq.inv_empty, of xs] by (simp add: wq.waiting_empty)
  then have "wq_Len ?q \<le> length xs" by (simp add: wq_Len_def) (metis length_remdups_leq length_rev)
  from wq_drain_all [OF inv this] items run_queue_list [OF wq.inv_empty, of ops] show ?thesis
    by (simp add: wq_Len_def wq.waiting_empty)
qed

end
