(* ===== verification/Core_Rollout.thy ===== *)
theory Core_Rollout
  imports Core_Types
begin

text \<open>
  The rollout planner of \<open>pkg/core/rollout.go\<close>: per ConfigPropagation it remembers the hash
  being rolled out and the namespaces that already have it. The locale \<open>rollout_contract\<close> is
  what the reconciler relies on, stated over the set of namespaces done for a hash; convergence
  of the rollout is proved in it and the Go planner is shown to provide it. Every method holds
  the planner's mutex for its whole body, so methods are atomic steps.
\<close>

section \<open>The planner\<close>

record rollout_state =
  rs_hash :: string
  rs_completed :: "string fset"

type_synonym rollout_planner = "namespaced_name \<rightharpoonup> rollout_state"

definition NewRolloutPlanner :: rollout_planner where
  "NewRolloutPlanner = Map.empty"

definition ensure_state_locked ::
    "rollout_planner \<Rightarrow> namespaced_name \<Rightarrow> string \<Rightarrow> rollout_state \<times> rollout_planner" where
  "ensure_state_locked p identifier desiredHash =
     (case p identifier of
        None \<Rightarrow>
          (let state = \<lparr>rs_hash = desiredHash, rs_completed = {||}\<rparr>
           in (state, p(identifier \<mapsto> state)))
      | Some state \<Rightarrow>
          if rs_hash state \<noteq> desiredHash then
            (let state' = state\<lparr>rs_hash := desiredHash, rs_completed := {||}\<rparr>
             in (state', p(identifier \<mapsto> state')))
          else (state, p))"

text \<open>
  The loop that fills a batch: it skips the namespaces already completed and stops as soon as
  the batch holds \<open>batchSize\<close> names, comparing \<open>int32(len(plannedTargets))\<close> with it.
\<close>

fun plan_batch :: "string fset \<Rightarrow> int32 \<Rightarrow> string list \<Rightarrow> string list \<Rightarrow> string list" where
  "plan_batch completed batchSize planned [] = planned"
| "plan_batch completed batchSize planned (namespace # targets) =
     (if namespace |\<in>| completed then plan_batch completed batchSize planned targets
      else let planned' = planned @ [namespace]
           in if sint (int32_of_len (length planned')) \<ge> sint batchSize then planned'
              else plan_batch completed batchSize planned' targets)"

definition plan :: "namespaced_name \<Rightarrow> string \<Rightarrow> string \<Rightarrow> int32 \<Rightarrow> string list \<Rightarrow>
    rollout_planner \<Rightarrow> (string list \<times> nat) \<times> rollout_planner" where
  "plan identifier desiredHash strategy batchSize targets p =
     (if strategy = StrategyImmediate then ((targets, length targets), p)
      else
        let batch = (if sint batchSize < 1 then 1 else batchSize);
            (state, p1) = ensure_state_locked p identifier desiredHash;
            allowed = fset_of_list targets;
            state' = state\<lparr>rs_completed := ffilter (\<lambda>n. n |\<in>| allowed) (rs_completed state)\<rparr>;
            planned = plan_batch (rs_completed state') batch [] targets
        in ((planned, fcard (rs_completed state')), p1(identifier \<mapsto> state')))"

definition mark_completed :: "namespaced_name \<Rightarrow> string \<Rightarrow> string list \<Rightarrow>
    rollout_planner \<Rightarrow> nat \<times> rollout_planner" where
  "mark_completed identifier desiredHash namespaces p =
     (if namespaces = [] then
        (case p identifier of
           None \<Rightarrow> (0, p)
         | Some state \<Rightarrow> if rs_hash state = desiredHash then (fcard (rs_completed state), p) else (0, p))
      else
        let (state, p1) = ensure_state_locked p identifier desiredHash;
            state' = state\<lparr>rs_completed := rs_completed state |\<union>| fset_of_list namespaces\<rparr>
        in (fcard (rs_completed state'), p1(identifier \<mapsto> state')))"

definition completed_namespaces :: "namespaced_name \<Rightarrow> string \<Rightarrow> rollout_planner \<Rightarrow> string list" where
  "completed_namespaces identifier desiredHash p =
     (case p identifier of
        None \<Rightarrow> []
      | Some state \<Rightarrow>
          if rs_hash state \<noteq> desiredHash then [] else sorted_list_of_fset (rs_completed state))"

definition forget :: "namespaced_name \<Rightarrow> rollout_planner \<Rightarrow> rollout_planner" where
  "forget identifier p = p(identifier := None)"

text \<open>The abstraction: the namespaces done for a hash of an object.\<close>

definition rollout_progress :: "rollout_planner \<Rightarrow> namespaced_name \<Rightarrow> string \<Rightarrow> string set" where
  "rollout_progress p identifier h =
     (case p identifier of
        None \<Rightarrow> {}
      | Some state \<Rightarrow> if rs_hash state = h then fset (rs_completed state) else {})"

section \<open>The batch loop\<close>

definition effective_batch :: "int32 \<Rightarrow> nat" where
  "effective_batch b = (if sint b < 1 then 1 else nat (sint b))"

lemma effective_batch_pos [simp]: "0 < effective_batch b"
  by (simp add: effective_batch_def)

lemma effective_batch_bound: "effective_batch b < 2 ^ 31"
  using sint_int32_range(2) [of b] by (simp add: effective_batch_def) linarith

lemma effective_batch_word:
  "int (effective_batch b) = sint (if sint b < 1 then (1 :: int32) else b)"
  by (simp add: effective_batch_def)

text \<open>The loop is \<open>take\<close> of the pending namespaces; the \<open>int32\<close> conversion never wraps.\<close>

lemma plan_batch_take:
  assumes "int b = sint w" "length planned < b"
  shows "plan_batch completed w planned targets =
    planned @ take (b - length planned) (filter (\<lambda>n. n |\<notin>| completed) targets)"
  using assms(2)
proof (induction targets arbitrary: planned)
  case Nil
  then show ?case by simp
next
  case (Cons n targets)
  have "int b < 2 ^ 31" using assms(1) sint_int32_range(2) [of w] by simp
  then have b: "b < 2 ^ 31" by simp
  have len: "sint (int32_of_len (Suc (length planned))) = int (Suc (length planned))"
    using Cons.prems b by (intro sint_int32_of_len) simp
  show ?case
  proof (cases "n |\<in>| completed")
    case True
    with Cons show ?thesis by simp
  next
    case False
    show ?thesis
    proof (cases "Suc (length planned) < b")
      case True
      with Cons.IH [of "planned @ [n]"] False len assms(1) show ?thesis
        by (simp add: Let_def take_Cons' Suc_diff_le)
    next
      case full: False
      then have "b = Suc (length planned)" using Cons.prems by simp
      with False len assms(1) show ?thesis by (simp add: Let_def)
    qed
  qed
qed

lemma plan_batch_eq:
  "plan_batch completed (if sint b < 1 then 1 else b) [] targets =
     take (effective_batch b) (filter (\<lambda>n. n |\<notin>| completed) targets)"
  by (subst plan_batch_take [OF effective_batch_word]) simp_all

section \<open>The interface\<close>

locale rollout_contract =
  fixes plan_op :: "'i \<Rightarrow> string \<Rightarrow> int32 \<Rightarrow> string list \<Rightarrow> 'p \<Rightarrow> string list \<times> 'p"
    and mark_op :: "'i \<Rightarrow> string \<Rightarrow> string list \<Rightarrow> 'p \<Rightarrow> nat \<times> 'p"
    and completed_op :: "'i \<Rightarrow> string \<Rightarrow> 'p \<Rightarrow> string list"
    and forget_op :: "'i \<Rightarrow> 'p \<Rightarrow> 'p"
    and progress :: "'p \<Rightarrow> 'i \<Rightarrow> string \<Rightarrow> string set"
  assumes finite_progress [simp]: "finite (progress p i h)"
    and plan_batch: "fst (plan_op i h b ts p) =
      take (effective_batch b) (filter (\<lambda>n. n \<notin> progress p i h) ts)"
    and plan_progress: "progress (snd (plan_op i h b ts p)) j h' =
      (if j = i then (if h' = h then progress p i h \<inter> set ts else {}) else progress p j h')"
    and mark_nil: "snd (mark_op i h [] p) = p"
    and mark_progress: "ns \<noteq> [] \<Longrightarrow> progress (snd (mark_op i h ns p)) j h' =
      (if j = i then (if h' = h then progress p i h \<union> set ns else {}) else progress p j h')"
    and mark_count: "fst (mark_op i h ns p) = card (progress p i h \<union> set ns)"
    and completed_list: "completed_op i h p = sorted_list_of_set (progress p i h)"
    and forget_progress: "progress (forget_op i p) j h = (if j = i then {} else progress p j h)"
begin

text \<open>One reconcile that completes its whole batch.\<close>

definition rolled :: "'i \<Rightarrow> string \<Rightarrow> int32 \<Rightarrow> string list \<Rightarrow> 'p \<Rightarrow> 'p" where
  "rolled i h b ts p = (case plan_op i h b ts p of (batch, p1) \<Rightarrow> snd (mark_op i h batch p1))"

lemma mark_progress_same: "progress (snd (mark_op i h ns p)) i h = progress p i h \<union> set ns"
  by (cases "ns = []") (simp_all add: mark_nil mark_progress)

lemma rolled_alt: "rolled i h b ts p =
    snd (mark_op i h (fst (plan_op i h b ts p)) (snd (plan_op i h b ts p)))"
  by (simp add: rolled_def split_beta)

lemma progress_rolled:
  "progress (rolled i h b ts p) i h = (progress p i h \<inter> set ts) \<union>
     set (take (effective_batch b) (filter (\<lambda>n. n \<notin> progress p i h) ts))"
  by (simp add: rolled_alt mark_progress_same plan_progress plan_batch)

lemma progress_rolled_other:
  assumes "j \<noteq> i"
  shows "progress (rolled i h b ts p) j h' = progress p j h'"
  using assms
  by (cases "fst (plan_op i h b ts p) = []")
    (simp_all add: rolled_alt mark_nil mark_progress plan_progress)

text \<open>After \<open>k\<close> rounds the first \<open>k * batch\<close> pending targets are done, and nothing outside the targets.\<close>

lemma progress_rounds:
  assumes "distinct ts"
  shows "progress ((rolled i h b ts ^^ k) p) i h \<inter> set ts = (progress p i h \<inter> set ts) \<union>
     set (take (k * effective_batch b) (filter (\<lambda>n. n \<notin> progress p i h) ts))"
proof (induction k)
  case 0
  then show ?case by simp
next
  case (Suc k)
  define pend where "pend = filter (\<lambda>n. n \<notin> progress p i h) ts"
  let ?b = "effective_batch b"
  let ?p = "(rolled i h b ts ^^ k) p"
  have d: "distinct pend" using assms by (simp add: pend_def)
  have "filter (\<lambda>n. n \<notin> progress ?p i h) ts = filter (\<lambda>n. n \<notin> set (take (k * ?b) pend)) pend"
  proof -
    have "n \<in> progress ?p i h \<longleftrightarrow> n \<in> progress p i h \<or> n \<in> set (take (k * ?b) pend)"
      if "n \<in> set ts" for n
      using that Suc.IH unfolding pend_def by blast
    then show ?thesis by (auto simp: pend_def intro!: filter_cong)
  qed
  also have "\<dots> = drop (k * ?b) pend" by (rule filter_notin_take [OF d])
  finally have "progress (rolled i h b ts ?p) i h =
      (progress p i h \<inter> set ts) \<union> set (take (k * ?b) pend) \<union> set (take ?b (drop (k * ?b) pend))"
    using Suc.IH by (simp add: progress_rolled pend_def)
  moreover have "set (take (k * ?b) pend) \<union> set (take ?b (drop (k * ?b) pend)) = set (take (Suc k * ?b) pend)"
    by (simp only: mult_Suc add.commute [of "effective_batch b"] take_add set_append)
  moreover have "set (take (Suc k * ?b) pend) \<subseteq> set ts"
    by (auto simp: pend_def dest: in_set_takeD)
  ultimately show ?case by (auto simp: pend_def)
qed

lemma rounds_complete:
  assumes "distinct ts" "length ts \<le> k * effective_batch b"
  shows "progress ((rolled i h b ts ^^ Suc k) p) i h = set ts"
proof -
  let ?p = "(rolled i h b ts ^^ k) p"
  let ?pend = "filter (\<lambda>n. n \<notin> progress p i h) ts"
  have "length ?pend \<le> k * effective_batch b" using assms(2) length_filter_le order_trans by blast
  then have "progress ?p i h \<inter> set ts = set ts"
    by (subst progress_rounds [OF assms(1)]) auto
  then have sub: "set ts \<subseteq> progress ?p i h" by blast
  then have "filter (\<lambda>n. n \<notin> progress ?p i h) ts = []" by (auto simp: filter_empty_conv)
  then have "progress (rolled i h b ts ?p) i h = set ts"
    using sub by (simp add: progress_rolled Int_absorb1)
  then show ?thesis by simp
qed

end

section \<open>The planner provides the interface\<close>

lemma ensure_state_locked_cases:
  "ensure_state_locked p i h =
     (let s = (case p i of None \<Rightarrow> \<lparr>rs_hash = h, rs_completed = {||}\<rparr>
                 | Some s \<Rightarrow> if rs_hash s = h then s else s\<lparr>rs_hash := h, rs_completed := {||}\<rparr>)
      in (s, p(i \<mapsto> s)))"
  by (auto simp: ensure_state_locked_def Let_def fun_upd_idem_iff split: option.splits)

lemma ensure_state_progress:
  assumes "ensure_state_locked p i h = (s, p1)"
  shows "rs_hash s = h" "fset (rs_completed s) = rollout_progress p i h" "p1 = p(i \<mapsto> s)"
  using assms by (auto simp: ensure_state_locked_cases rollout_progress_def Let_def split: option.splits)

lemma plan_immediate:
  "plan i h StrategyImmediate b ts p = ((ts, length ts), p)"
  by (simp add: plan_def)

lemma plan_rolling:
  assumes "strategy \<noteq> StrategyImmediate"
  shows "fst (fst (plan i h strategy b ts p)) =
      take (effective_batch b) (filter (\<lambda>n. n \<notin> rollout_progress p i h) ts)"
    and "snd (fst (plan i h strategy b ts p)) = card (rollout_progress p i h \<inter> set ts)"
    and "rollout_progress (snd (plan i h strategy b ts p)) j h' =
      (if j = i then (if h' = h then rollout_progress p i h \<inter> set ts else {})
       else rollout_progress p j h')"
proof -
  obtain s p1 where e: "ensure_state_locked p i h = (s, p1)" by fastforce
  note f = ensure_state_progress [OF e]
  define c where "c = ffilter (\<lambda>n. n |\<in>| fset_of_list ts) (rs_completed s)"
  have c: "fset c = rollout_progress p i h \<inter> set ts"
    using f(2) by (auto simp: c_def fset_of_list.rep_eq)
  have batch: "plan_batch c (if sint b < 1 then 1 else b) [] ts =
      take (effective_batch b) (filter (\<lambda>n. n \<notin> rollout_progress p i h) ts)"
    using c by (simp add: plan_batch_eq cong: filter_cong)
  have eq: "plan i h strategy b ts p =
      ((plan_batch c (if sint b < 1 then 1 else b) [] ts, fcard c), p1(i \<mapsto> s\<lparr>rs_completed := c\<rparr>))"
    using assms e by (simp add: plan_def Let_def c_def)
  show "fst (fst (plan i h strategy b ts p)) =
      take (effective_batch b) (filter (\<lambda>n. n \<notin> rollout_progress p i h) ts)"
    by (simp only: eq batch fst_conv)
  show "snd (fst (plan i h strategy b ts p)) = card (rollout_progress p i h \<inter> set ts)"
    using c by (simp add: eq fcard.rep_eq)
  show "rollout_progress (snd (plan i h strategy b ts p)) j h' =
      (if j = i then (if h' = h then rollout_progress p i h \<inter> set ts else {})
       else rollout_progress p j h')"
    using c f(1,3) by (auto simp: eq rollout_progress_def)
qed

lemma mark_completed_nil: "snd (mark_completed i h [] p) = p"
  by (simp add: mark_completed_def split: option.splits)

lemma mark_completed_progress:
  "ns \<noteq> [] \<Longrightarrow> rollout_progress (snd (mark_completed i h ns p)) j h' =
     (if j = i then (if h' = h then rollout_progress p i h \<union> set ns else {})
      else rollout_progress p j h')"
proof -
  assume ns: "ns \<noteq> []"
  obtain s p1 where e: "ensure_state_locked p i h = (s, p1)" by fastforce
  show ?thesis
    using ns ensure_state_progress [OF e]
    by (auto simp: mark_completed_def e rollout_progress_def Let_def fset_of_list.rep_eq)
qed

lemma mark_completed_count:
  "fst (mark_completed i h ns p) = card (rollout_progress p i h \<union> set ns)"
proof (cases "ns = []")
  case True
  then show ?thesis
    by (simp add: mark_completed_def rollout_progress_def fcard.rep_eq split: option.splits)
next
  case False
  obtain s p1 where e: "ensure_state_locked p i h = (s, p1)" by fastforce
  show ?thesis
    using False ensure_state_progress [OF e]
    by (simp add: mark_completed_def e Let_def fcard.rep_eq fset_of_list.rep_eq)
qed

lemma completed_namespaces_list:
  "completed_namespaces i h p = sorted_list_of_set (rollout_progress p i h)"
  by (simp add: completed_namespaces_def rollout_progress_def sorted_list_of_fset.rep_eq
      split: option.splits)

definition plan_rolling_op :: "namespaced_name \<Rightarrow> string \<Rightarrow> int32 \<Rightarrow> string list \<Rightarrow>
    rollout_planner \<Rightarrow> string list \<times> rollout_planner" where
  "plan_rolling_op i h b ts p = (case plan i h StrategyRolling b ts p of ((batch, n), p') \<Rightarrow> (batch, p'))"

lemma plan_rolling_op_simps [simp]:
  "fst (plan_rolling_op i h b ts p) = fst (fst (plan i h StrategyRolling b ts p))"
  "snd (plan_rolling_op i h b ts p) = snd (plan i h StrategyRolling b ts p)"
  by (simp_all add: plan_rolling_op_def split: prod.splits)

interpretation ro: rollout_contract plan_rolling_op mark_completed completed_namespaces forget rollout_progress
proof unfold_locales
  show "finite (rollout_progress p i h)" for p i h
    by (simp add: rollout_progress_def split: option.splits)
qed (simp_all add: plan_rolling mark_completed_nil mark_completed_progress mark_completed_count
    completed_namespaces_list, simp add: rollout_progress_def forget_def)

section \<open>Properties\<close>

text \<open>One reconcile of a rolling rollout in which every planned namespace is written.\<close>

definition rolling_round :: "namespaced_name \<Rightarrow> string \<Rightarrow> int32 \<Rightarrow> string list \<Rightarrow>
    rollout_planner \<Rightarrow> rollout_planner" where
  "rolling_round i h b ts p =
     (case plan i h StrategyRolling b ts p of ((planned, n), p1) \<Rightarrow> snd (mark_completed i h planned p1))"

lemma rolling_round_rolled: "rolling_round i h b ts = ro.rolled i h b ts"
  by (auto simp: rolling_round_def ro.rolled_alt plan_rolling_op_def split: prod.splits)

text \<open>C21. A rolling plan hands out, in target order, the first \<open>batchSize\<close> targets (1 if the
  batch size is below 1) that are not yet done for this hash, and counts the done ones that are
  still targets; it forgets done namespaces that are no longer targets and touches no other
  object's progress.\<close>

theorem plan_rolling_correct:
  "fst (plan i h StrategyRolling b ts p) =
     (take (effective_batch b) (filter (\<lambda>n. n \<notin> rollout_progress p i h) ts),
      card (rollout_progress p i h \<inter> set ts)) \<and>
   rollout_progress (snd (plan i h StrategyRolling b ts p)) i h = rollout_progress p i h \<inter> set ts \<and>
   (\<forall>j h'. j \<noteq> i \<longrightarrow> rollout_progress (snd (plan i h StrategyRolling b ts p)) j h' = rollout_progress p j h')"
  using plan_rolling(1,2) [of StrategyRolling i h b ts p]
  by (simp add: plan_rolling(3) prod_eq_iff)

theorem plan_rolling_correct_witness:
  "rollout_progress
     (snd (plan ex_cr ''h'' StrategyRolling 2 [''n1''] NewRolloutPlanner))
     \<lparr>nn_namespace = ''b'', nn_name = ''y''\<rparr> ''h'' = {}"
  using plan_rolling_correct [of "ex_cr" "''h''" 2 "[''n1'']" NewRolloutPlanner]
  by (simp add: NewRolloutPlanner_def rollout_progress_def)

text \<open>C11. Liveness of a rolling rollout: from any planner state, once the targets fit in \<open>k\<close>
  batches, \<open>k + 1\<close> rounds in which the planned namespaces are written complete exactly the
  targets, and the next plan is empty.\<close>

theorem rollout_converges:
  assumes "distinct ts" and "length ts \<le> k * effective_batch b"
  shows "completed_namespaces i h ((rolling_round i h b ts ^^ Suc k) p) = sort ts \<and>
    fst (fst (plan i h StrategyRolling b ts ((rolling_round i h b ts ^^ Suc k) p))) = []"
proof -
  have "rollout_progress ((rolling_round i h b ts ^^ Suc k) p) i h = set ts"
    unfolding rolling_round_rolled by (rule ro.rounds_complete [OF assms])
  then show ?thesis
    using assms(1) by (simp add: completed_namespaces_list plan_rolling filter_empty_conv
        sorted_list_of_set_sort_remdups distinct_remdups_id del: funpow.simps)
qed

theorem rollout_converges_witness:
  "completed_namespaces ex_cr ''h''
     ((rolling_round ex_cr ''h'' 2 [''n1'', ''n2'', ''n3''] ^^ Suc 2) NewRolloutPlanner) = sort [''n1'', ''n2'', ''n3'']"
  by (rule rollout_converges [THEN conjunct1]) (simp_all add: effective_batch_def)

text \<open>The blast radius: from a planner with no progress for the hash, after \<open>k\<close> such rounds
  exactly the first \<open>k * batchSize\<close> targets are done, never more, whatever was rolled out
  before under another hash.\<close>

theorem rollout_blast_radius:
  assumes "distinct ts" and "rollout_progress p i h = {}"
  shows "set (completed_namespaces i h ((rolling_round i h b ts ^^ k) p)) \<inter> set ts =
      set (take (k * effective_batch b) ts) \<and>
    length (filter (\<lambda>n. n \<in> set (completed_namespaces i h ((rolling_round i h b ts ^^ k) p))) ts) =
      min (length ts) (k * effective_batch b)"
proof -
  let ?p = "(rolling_round i h b ts ^^ k) p"
  have eq: "set (completed_namespaces i h ?p) \<inter> set ts = set (take (k * effective_batch b) ts)"
    using ro.progress_rounds [OF assms(1), where k = k and i = i and h = h and b = b and p = p] assms(2) ro.finite_progress [of ?p i h]
    by (simp add: completed_namespaces_list rolling_round_rolled)
  have "length (filter (\<lambda>n. n \<in> set (completed_namespaces i h ?p)) ts) =
      card (set (completed_namespaces i h ?p) \<inter> set ts)"
    by (rule distinct_filter_card [OF assms(1)])
  also have "\<dots> = min (length ts) (k * effective_batch b)"
    using assms(1) by (simp add: eq distinct_card)
  finally show ?thesis using eq by blast
qed

theorem rollout_blast_radius_witness:
  "set (completed_namespaces ex_cr ''h''
     ((rolling_round ex_cr ''h'' 2 [''n1'', ''n2'', ''n3''] ^^ 1) NewRolloutPlanner)) \<inter> {''n1'', ''n2'', ''n3''} =
   {''n1'', ''n2''}"
  using rollout_blast_radius [where ts = "[''n1'', ''n2'', ''n3'']" and k = 1 and b = 2
      and p = NewRolloutPlanner and i = ex_cr and h = "''h''"]
  by (simp add: effective_batch_def NewRolloutPlanner_def rollout_progress_def del: funpow.simps filter.simps)

text \<open>C22. A new content hash restarts a rolling rollout: whatever is recorded under another
  hash, no namespace counts as done and the first batch is planned again.\<close>

theorem hash_change_restarts:
  assumes "p i = Some s" and "rs_hash s \<noteq> h"
  shows "fst (plan i h StrategyRolling b ts p) = (take (effective_batch b) ts, 0) \<and>
    completed_namespaces i h p = [] \<and> fst (mark_completed i h [] p) = 0"
proof -
  have none: "rollout_progress p i h = {}" using assms by (simp add: rollout_progress_def)
  show ?thesis
    using plan_rolling(1,2) [of StrategyRolling i h b ts p]
    by (simp add: none completed_namespaces_list mark_completed_count prod_eq_iff)
qed

theorem hash_change_restarts_witness:
  "fst (plan ex_cr ''new'' StrategyRolling 1 [''n1'', ''n2'']
     [ex_cr \<mapsto> \<lparr>rs_hash = ''old'', rs_completed = {|''n1''|}\<rparr>]) = ([''n1''], 0)"
  using hash_change_restarts [where h = "''new''" and b = 1 and ts = "[''n1'', ''n2'']" and i = ex_cr
      and p = "[ex_cr \<mapsto> \<lparr>rs_hash = ''old'', rs_completed = {|''n1''|}\<rparr>]"]
  by (simp add: effective_batch_def)

end
