(* ===== verification/Core_Hash.thy ===== *)
theory Core_Hash
  imports Core_Types
begin

unbundle bit_operations_syntax

text \<open>
  The content hash of \<open>pkg/core/hash.go\<close>. The Go function writes the entries of a map in key order
  as key, NUL, value, newline, and takes the SHA-256 digest of the bytes in hexadecimal. The two
  standard-library calls (\<open>crypto/sha256\<close>, \<open>encoding/hex\<close>) are defined here too, after FIPS 180-4,
  on 32-bit words. The section on the encoding says when different data have different encodings.
\<close>

section \<open>crypto/sha256 and encoding/hex\<close>

type_synonym w32 = "32 word"

definition rotr32 :: "nat \<Rightarrow> w32 \<Rightarrow> w32" where
  "rotr32 n x = (drop_bit n x) OR (push_bit (32 - n) x)"

definition sha_ch :: "w32 \<Rightarrow> w32 \<Rightarrow> w32 \<Rightarrow> w32" where
  "sha_ch x y z = (x AND y) XOR ((NOT x) AND z)"

definition sha_maj :: "w32 \<Rightarrow> w32 \<Rightarrow> w32 \<Rightarrow> w32" where
  "sha_maj x y z = (x AND y) XOR (x AND z) XOR (y AND z)"

definition sha_Sigma0 :: "w32 \<Rightarrow> w32" where
  "sha_Sigma0 x = rotr32 2 x XOR rotr32 13 x XOR rotr32 22 x"

definition sha_Sigma1 :: "w32 \<Rightarrow> w32" where
  "sha_Sigma1 x = rotr32 6 x XOR rotr32 11 x XOR rotr32 25 x"

definition sha_sigma0 :: "w32 \<Rightarrow> w32" where
  "sha_sigma0 x = rotr32 7 x XOR rotr32 18 x XOR drop_bit 3 x"

definition sha_sigma1 :: "w32 \<Rightarrow> w32" where
  "sha_sigma1 x = rotr32 17 x XOR rotr32 19 x XOR drop_bit 10 x"

text \<open>
  The constants are the first 32 bits of the fractional parts of the cube roots of the first 64
  primes, and of the square roots of the first eight; \<open>root_bits e x n r\<close> finds the integer
  \<open>e\<close>-th root of \<open>x\<close> from its prefix \<open>r\<close>, bit by bit.
\<close>

fun root_bits :: "nat \<Rightarrow> nat \<Rightarrow> nat \<Rightarrow> nat \<Rightarrow> nat" where
  "root_bits e x 0 r = r"
| "root_bits e x (Suc n) r = root_bits e x n (if (r + 2 ^ n) ^ e \<le> x then r + 2 ^ n else r)"

definition root_fraction :: "nat \<Rightarrow> nat \<Rightarrow> w32" where
  "root_fraction e p = word_of_nat (root_bits e (p * 2 ^ (32 * e)) 36 0)"

definition primes_below :: "nat \<Rightarrow> nat list" where
  "primes_below n = filter (\<lambda>p. list_all (\<lambda>d. p mod d \<noteq> 0) [2..<p]) [2..<n]"

definition sha_K :: "w32 list" where
  "sha_K = map (root_fraction 3) (primes_below 312)"

definition sha_init :: "w32 list" where
  "sha_init = map (root_fraction 2) (primes_below 20)"

text \<open>The message schedule, most recent word first.\<close>

definition sha_extend :: "w32 list \<Rightarrow> w32 list" where
  "sha_extend ws = (sha_sigma1 (ws ! 1) + ws ! 6 + sha_sigma0 (ws ! 14) + ws ! 15) # ws"

definition sha_schedule :: "w32 list \<Rightarrow> w32 list" where
  "sha_schedule block = rev ((sha_extend ^^ 48) (rev block))"

fun sha_rounds :: "(w32 \<times> w32) list \<Rightarrow> w32 list \<Rightarrow> w32 list" where
  "sha_rounds ((k, w) # kws) [a, b, c, d, e, f, g, h] =
     (let t1 = h + sha_Sigma1 e + sha_ch e f g + k + w;
          t2 = sha_Sigma0 a + sha_maj a b c
      in sha_rounds kws [t1 + t2, a, b, c, d + t1, e, f, g])"
| "sha_rounds kws st = st"

definition sha_compress :: "w32 list \<Rightarrow> w32 list \<Rightarrow> w32 list" where
  "sha_compress st block = map2 (+) st (sha_rounds (zip sha_K (sha_schedule block)) st)"

definition be_bytes :: "nat \<Rightarrow> nat \<Rightarrow> nat list" where
  "be_bytes n x = map (\<lambda>i. (x div 256 ^ i) mod 256) (rev [0..<n])"

definition sha_pad :: "nat list \<Rightarrow> nat list" where
  "sha_pad bytes = bytes @ [128] @ replicate ((119 - length bytes mod 64) mod 64) 0
     @ be_bytes 8 (8 * length bytes)"

fun be_words :: "nat list \<Rightarrow> w32 list" where
  "be_words (a # b # c # d # rest) =
     word_of_nat (((a * 256 + b) * 256 + c) * 256 + d) # be_words rest"
| "be_words _ = []"

fun sha_blocks :: "nat \<Rightarrow> w32 list \<Rightarrow> w32 list \<Rightarrow> w32 list" where
  "sha_blocks 0 ws st = st"
| "sha_blocks (Suc n) ws st = sha_blocks n (drop 16 ws) (sha_compress st (take 16 ws))"

definition sha256_words :: "nat list \<Rightarrow> w32 list" where
  "sha256_words bytes =
     (let ws = be_words (sha_pad bytes) in sha_blocks (length ws div 16) ws sha_init)"

definition sha256 :: "nat list \<Rightarrow> nat list" where
  "sha256 bytes = concat (map (\<lambda>w. be_bytes 4 (unat w)) (sha256_words bytes))"

definition hex_digit :: "nat \<Rightarrow> char" where
  "hex_digit n = (if n < 10 then char_of (48 + n) else char_of (87 + n))"

definition hex_encode :: "nat list \<Rightarrow> string" where
  "hex_encode bytes = concat (map (\<lambda>b. [hex_digit (b div 16), hex_digit (b mod 16)]) bytes)"

definition string_bytes :: "string \<Rightarrow> nat list" where
  "string_bytes s = map of_char s"

definition sha256_hex :: "string \<Rightarrow> string" where
  "sha256_hex s = hex_encode (sha256 (string_bytes s))"

lemma first_primes: "primes_below 20 = [2, 3, 5, 7, 11, 13, 17, 19]"
  by code_simp

lemma length_sha_rounds [simp]: "length (sha_rounds kws st) = length st"
  by (induction kws st rule: sha_rounds.induct) (simp_all add: Let_def)

lemma length_sha_schedule: "length (sha_schedule block) = length block + 48"
proof -
  have "length ((sha_extend ^^ n) ws) = length ws + n" for n ws
    by (induction n) (simp_all add: sha_extend_def)
  then show ?thesis by (simp add: sha_schedule_def)
qed

lemma length_sha_blocks [simp]: "length (sha_blocks n ws st) = length st"
  by (induction n ws st rule: sha_blocks.induct) (simp_all add: sha_compress_def)

lemma length_sha256 [simp]: "length (sha256 bytes) = 32"
proof -
  have "length (sha256_words bytes) = 8"
    by (simp add: sha256_words_def Let_def sha_init_def first_primes)
  moreover have "length (concat (map (\<lambda>w. be_bytes 4 (unat w)) ws)) = 4 * length ws" for ws :: "w32 list"
    by (induction ws) (simp_all add: be_bytes_def)
  ultimately show ?thesis by (simp add: sha256_def)
qed

lemma length_hex_encode [simp]: "length (hex_encode bytes) = 2 * length bytes"
  by (induction bytes) (simp_all add: hex_encode_def)

lemma length_sha256_hex [simp]: "length (sha256_hex s) = 64"
  by (simp add: sha256_hex_def)

lemma sha256_hex_nonempty [simp]: "sha256_hex s \<noteq> []" "[] \<noteq> sha256_hex s"
  using length_sha256_hex [of s] by (metis list.size(3) zero_neq_numeral)+

definition hex_digits :: string where
  "hex_digits = ''0123456789abcdef''"

lemma hex_digit_in: "n < 16 \<Longrightarrow> hex_digit n \<in> set hex_digits"
proof -
  assume "n < 16"
  moreover have "\<forall>n \<in> set [0..<16]. hex_digit n \<in> set hex_digits" by code_simp
  ultimately show ?thesis by simp
qed

lemma hex_encode_digits: "\<forall>b \<in> set bytes. b < 256 \<Longrightarrow> set (hex_encode bytes) \<subseteq> set hex_digits"
  by (auto simp: hex_encode_def intro!: hex_digit_in)

lemma sha256_bytes: "b \<in> set (sha256 bytes) \<Longrightarrow> b < 256"
  by (auto simp: sha256_def be_bytes_def)

lemma sha256_hex_digits: "set (sha256_hex s) \<subseteq> set hex_digits"
  unfolding sha256_hex_def using sha256_bytes by (intro hex_encode_digits) blast

section \<open>HashData\<close>

definition NUL :: char where "NUL = CHR 0x00"
definition NL :: char where "NL = CHR 0x0A"

lemma NUL_NL [simp]: "NUL \<noteq> NL" "NL \<noteq> NUL"
  by (simp_all add: NUL_def NL_def)

text \<open>The loop over the sorted keys that fills the string builder.\<close>

fun write_entries :: "go_map \<Rightarrow> string list \<Rightarrow> string \<Rightarrow> string" where
  "write_entries data [] builder = builder"
| "write_entries data (key # keys) builder =
     write_entries data keys (builder @ key @ [NUL] @ go_get data key @ [NL])"

text \<open>
  \<open>visited\<close> is the order in which the first loop ranges over the map, which the language leaves
  open: any list of the keys, each once. \<open>HashData\<close> takes the order of \<open>go_range\<close>; below it is shown
  to be the same for every order.
\<close>

definition visits :: "string list \<Rightarrow> go_map \<Rightarrow> bool" where
  "visits visited data \<longleftrightarrow> distinct visited \<and> set visited = {k. go_lookup data k \<noteq> None}"

definition hash_input :: "string list \<Rightarrow> go_map \<Rightarrow> string" where
  "hash_input visited data = (let keys = sort visited in write_entries data keys [])"

definition HashData_visiting :: "string list \<Rightarrow> go_map \<Rightarrow> string" where
  "HashData_visiting visited data = (if go_len data = 0 then [] else sha256_hex (hash_input visited data))"

definition HashData :: "go_map \<Rightarrow> string" where
  "HashData data = HashData_visiting (go_range_keys data) data"

lemma visits_range: "visits (go_range_keys data) data"
  by (simp add: visits_def)

section \<open>The encoding\<close>

text \<open>The bytes for a list of entries, written recursively.\<close>

fun enc_entries :: "(string \<times> string) list \<Rightarrow> string" where
  "enc_entries [] = []"
| "enc_entries ((k, v) # es) = k @ NUL # v @ NL # enc_entries es"

lemma write_entries_enc:
  "write_entries data keys builder = builder @ enc_entries (map (\<lambda>k. (k, go_get data k)) keys)"
  by (induction data keys builder rule: write_entries.induct) simp_all

lemma hash_input_enc: "visits visited data \<Longrightarrow> hash_input visited data = enc_entries (go_range data)"
  by (simp add: hash_input_def write_entries_enc go_range_def visits_def sorted_distinct_keys)

lemma go_range_cong:
  assumes "go_lookup m = go_lookup m'"
  shows "go_range m = go_range m'" "go_len m = go_len m'"
proof -
  have "go_entries m = go_entries m'" "go_get m = go_get m'"
    using assms by (simp_all add: go_entries_eq_iff go_get_def fun_eq_iff)
  then show "go_range m = go_range m'" "go_len m = go_len m'"
    by (simp_all add: go_range_def go_range_keys_def go_len_def)
qed

lemma HashData_visiting_cong:
  "visits visited m \<Longrightarrow> visits visited' m' \<Longrightarrow> go_lookup m = go_lookup m' \<Longrightarrow>
     HashData_visiting visited m = HashData_visiting visited' m'"
  by (simp add: HashData_visiting_def hash_input_enc go_range_cong [of m m'])

lemma HashData_visiting_empty: "HashData_visiting visited m = [] \<longleftrightarrow> (\<forall>k. go_lookup m k = None)"
  using go_entries_eq_iff [of m None] by (simp add: HashData_visiting_def go_len_0_iff fun_eq_iff)

lemma HashData_visiting_hex:
  "HashData_visiting visited m \<noteq> [] \<Longrightarrow>
     length (HashData_visiting visited m) = 64 \<and> set (HashData_visiting visited m) \<subseteq> set hex_digits"
  using sha256_hex_digits by (simp add: HashData_visiting_def split: if_splits)

definition clean_entry :: "string \<times> string \<Rightarrow> bool" where
  "clean_entry e \<longleftrightarrow> NUL \<notin> set (fst e) \<and> NL \<notin> set (fst e) \<and> NUL \<notin> set (snd e)"

lemma append_sep_eq:
  "x \<notin> set xs \<Longrightarrow> x \<notin> set ys \<Longrightarrow> xs @ x # as = ys @ x # bs \<longleftrightarrow> xs = ys \<and> as = bs"
proof (induction xs arbitrary: ys)
  case Nil
  then show ?case by (cases ys) auto
next
  case (Cons a xs)
  then show ?case by (cases ys) auto
qed

lemma append_sep_eq_last:
  assumes "x \<notin> set as" "x \<notin> set bs"
  shows "xs @ x # as = ys @ x # bs \<longleftrightarrow> xs = ys \<and> as = bs"
proof -
  have "xs @ x # as = ys @ x # bs \<longleftrightarrow> rev (xs @ x # as) = rev (ys @ x # bs)"
    by (simp only: rev_is_rev_conv)
  also have "\<dots> \<longleftrightarrow> rev as @ x # rev xs = rev bs @ x # rev ys" by simp
  also have "\<dots> \<longleftrightarrow> rev as = rev bs \<and> rev xs = rev ys"
    using assms by (intro append_sep_eq) simp_all
  finally show ?thesis by auto
qed

lemma enc_entries_no_sep: "NUL \<notin> set (enc_entries es) \<longleftrightarrow> es = []"
  by (cases es rule: enc_entries.cases) auto

text \<open>Entries whose keys hold neither separator and whose values hold no NUL can be read back.\<close>

lemma enc_entries_inj:
  assumes "\<forall>e \<in> set es. clean_entry e" "\<forall>e \<in> set fs. clean_entry e"
    and "enc_entries es = enc_entries fs"
  shows "es = fs"
  using assms
proof (induction es arbitrary: fs)
  case Nil
  then show ?case using enc_entries_no_sep [of fs] by simp
next
  case (Cons e es)
  obtain k v where e: "e = (k, v)" by fastforce
  have "fs \<noteq> []" using Cons.prems(3) enc_entries_no_sep [of "e # es"] by auto
  then obtain k' v' gs where fs: "fs = (k', v') # gs" by (metis list.exhaust surj_pair)
  have clean: "NUL \<notin> set k" "NL \<notin> set k" "NUL \<notin> set v" "NUL \<notin> set k'" "NL \<notin> set k'" "NUL \<notin> set v'"
    using Cons.prems(1,2) by (auto simp: e fs clean_entry_def)
  have k: "k = k'" and rest: "v @ NL # enc_entries es = v' @ NL # enc_entries gs"
    using Cons.prems(3) clean by (simp_all add: e fs append_sep_eq)
  have vr: "v = v' \<and> enc_entries es = enc_entries gs"
  proof (cases es rule: enc_entries.cases)
    case 1
    with rest have "v' @ NL # enc_entries gs = v @ [NL]" by simp
    then have "set (enc_entries gs) \<subseteq> insert NL (set v)"
      by (metis Un_insert_right empty_set list.simps(15) set_append subset_insertI2 sup.cobounded2 sup_bot.right_neutral)
    then have "NUL \<notin> set (enc_entries gs)" using clean(3) by auto
    then have "gs = []" by (simp add: enc_entries_no_sep)
    with 1 rest show ?thesis by simp
  next
    case (2 k1 v1 es')
    have "gs \<noteq> []"
    proof
      assume "gs = []"
      with rest 2 have "set (v @ NL # enc_entries es) = insert NL (set v')" by simp
      moreover have "NUL \<in> set (v @ NL # enc_entries es)" by (simp add: 2)
      ultimately show False using clean(6) by simp
    qed
    then obtain k2 v2 gs' where gs: "gs = (k2, v2) # gs'" by (metis list.exhaust surj_pair)
    have c: "NUL \<notin> set k1" "NL \<notin> set k1" "NUL \<notin> set k2" "NL \<notin> set k2"
      using Cons.prems(1,2) by (auto simp: 2 fs gs clean_entry_def)
    have "(v @ NL # k1) @ NUL # v1 @ NL # enc_entries es' =
        (v' @ NL # k2) @ NUL # v2 @ NL # enc_entries gs'"
      using rest by (simp add: 2 gs)
    moreover have "NUL \<notin> set (v @ NL # k1)" "NUL \<notin> set (v' @ NL # k2)"
      using clean c by auto
    ultimately have parts: "v @ NL # k1 = v' @ NL # k2 \<and>
        v1 @ NL # enc_entries es' = v2 @ NL # enc_entries gs'"
      using append_sep_eq [of NUL "v @ NL # k1" "v' @ NL # k2"] by meson
    with c have "v = v'" "k1 = k2" by (simp_all add: append_sep_eq_last)
    with parts show ?thesis by (simp add: 2 gs)
  qed
  have "es = gs"
  proof (rule Cons.IH)
    show "\<forall>e \<in> set es. clean_entry e" using Cons.prems(1) by simp
    show "\<forall>e \<in> set gs. clean_entry e" using Cons.prems(2) by (simp add: fs)
    show "enc_entries es = enc_entries gs" using vr by (rule conjunct2)
  qed
  with k vr show ?case by (simp add: e fs)
qed

section \<open>Properties\<close>

text \<open>C30. The bytes that are hashed determine the data when no key holds NUL or newline and no
  value holds NUL: two such data maps have the same hash input exactly when they have the same
  entries, whatever orders the two maps are visited in.\<close>

theorem hash_input_injective:
  assumes "\<forall>k v. go_lookup m k = Some v \<longrightarrow> clean_entry (k, v)"
    and "\<forall>k v. go_lookup m' k = Some v \<longrightarrow> clean_entry (k, v)"
    and "visits visited m" and "visits visited' m'"
  shows "hash_input visited m = hash_input visited' m' \<longleftrightarrow> go_lookup m = go_lookup m'"
proof
  assume eq: "hash_input visited m = hash_input visited' m'"
  have "\<forall>e \<in> set (go_range d). clean_entry e"
    if "\<forall>k v. go_lookup d k = Some v \<longrightarrow> clean_entry (k, v)" for d
    using that by (auto simp: go_range_def go_get_def)
  then have "go_range m = go_range m'"
    using assms eq by (intro enc_entries_inj) (simp_all add: hash_input_enc)
  then have "go_entries m = go_entries m'" by (metis put_entries_range)
  then show "go_lookup m = go_lookup m'" by (simp add: go_entries_eq_iff)
next
  assume "go_lookup m = go_lookup m'"
  with assms(3,4) show "hash_input visited m = hash_input visited' m'"
    by (simp add: hash_input_enc go_range_cong [of m m'])
qed

theorem hash_input_injective_witness:
  "hash_input [''b'', ''a''] (Some (fmupd ''a'' ''1'' (fmupd ''b'' ''2'' fmempty))) =
   hash_input [''a'', ''b''] (Some (fmupd ''b'' ''2'' (fmupd ''a'' ''1'' fmempty)))"
proof -
  let ?m = "Some (fmupd ''a'' ''1'' (fmupd ''b'' ''2'' fmempty))"
  let ?m' = "Some (fmupd ''b'' ''2'' (fmupd ''a'' ''1'' fmempty))"
  have "hash_input [''b'', ''a''] ?m = hash_input [''a'', ''b''] ?m' \<longleftrightarrow> go_lookup ?m = go_lookup ?m'"
    by (rule hash_input_injective) (auto simp: clean_entry_def NUL_def NL_def visits_def split: if_splits)
  then show ?thesis by (simp add: fun_eq_iff)
qed

text \<open>C31. HashData is a function of the entries alone, whatever order the map is visited in. A nil
  and an empty map hash to the empty string, and any other map to 64 lower-case hexadecimal digits,
  so the recorded hash of non-empty data never looks like a missing annotation.\<close>

theorem HashData_shape:
  assumes "visits visited m" and "visits visited' m'"
  shows "(go_lookup m = go_lookup m' \<longrightarrow> HashData_visiting visited m = HashData_visiting visited' m') \<and>
    HashData_visiting visited m = HashData m \<and>
    (HashData m = [] \<longleftrightarrow> (\<forall>k. go_lookup m k = None)) \<and>
    (HashData m \<noteq> [] \<longrightarrow> length (HashData m) = 64 \<and> set (HashData m) \<subseteq> set ''0123456789abcdef'')"
  using HashData_visiting_cong [OF assms] HashData_visiting_cong [OF assms(1) visits_range [of m] refl]
    HashData_visiting_empty [of "go_range_keys m" m] HashData_visiting_hex [of "go_range_keys m" m]
  by (simp add: HashData_def hex_digits_def)

theorem HashData_shape_witness:
  "HashData_visiting [''b'', ''a''] (Some (fmupd ''a'' ''1'' (fmupd ''b'' ''2'' fmempty))) =
     HashData_visiting [''a'', ''b''] (Some (fmupd ''b'' ''2'' (fmupd ''a'' ''1'' fmempty))) \<and>
   length (HashData (Some (fmupd ''a'' ''1'' (fmupd ''b'' ''2'' fmempty)))) = 64"
proof -
  have "visits [''b'', ''a''] (Some (fmupd ''a'' ''1'' (fmupd ''b'' ''2'' fmempty)))"
    "visits [''a'', ''b''] (Some (fmupd ''b'' ''2'' (fmupd ''a'' ''1'' fmempty)))"
    by (auto simp: visits_def split: if_splits)
  from HashData_shape [OF this] show ?thesis by (auto simp: fun_eq_iff split: if_splits)
qed

text \<open>C36. Without the restriction the encoding is ambiguous: a value that itself contains a
  newline, a key and a NUL yields the same hash as two entries, so a source change between these
  two data maps is not seen as a change.\<close>

theorem HashData_collision:
  "HashData (Some (fmupd ''a'' (''1'' @ [NL] @ ''b'' @ [NUL] @ ''2'') fmempty)) =
     HashData (Some (fmupd ''b'' ''2'' (fmupd ''a'' ''1'' fmempty))) \<and>
   go_lookup (Some (fmupd ''a'' (''1'' @ [NL] @ ''b'' @ [NUL] @ ''2'') fmempty)) \<noteq>
     go_lookup (Some (fmupd ''b'' ''2'' (fmupd ''a'' ''1'' fmempty)))"
proof
  let ?m = "Some (fmupd ''a'' (''1'' @ [NL] @ ''b'' @ [NUL] @ ''2'') fmempty)"
  let ?n = "Some (fmupd ''b'' ''2'' (fmupd ''a'' ''1'' fmempty))"
  have m: "go_range_keys (Some (fmupd ''a'' x fmempty)) = [''a'']" for x
  proof -
    have "sort [''a''] = go_range_keys (Some (fmupd ''a'' x fmempty))"
      by (rule sorted_distinct_keys) auto
    then show ?thesis by simp
  qed
  have "sort [''a'', ''b''] = go_range_keys ?n" by (rule sorted_distinct_keys) auto
  moreover have "sort [''a'', ''b''] = [''a'', ''b'']" by code_simp
  ultimately have n: "go_range_keys ?n = [''a'', ''b'']" by simp
  have "hash_input (go_range_keys ?m) ?m = hash_input (go_range_keys ?n) ?n"
    unfolding hash_input_enc [OF visits_range] by (simp add: go_range_def m n go_get_Some)
  then show "HashData ?m = HashData ?n" by (simp add: HashData_def HashData_visiting_def go_len_0_iff)
  show "go_lookup ?m \<noteq> go_lookup ?n" by (auto simp: fun_eq_iff dest: spec [of _ "''b''"])
qed

end
