(* ===== verification/Core_Validation.thy ===== *)
theory Core_Validation
  imports Core_Types
begin

text \<open>
  Validation and defaulting of a spec, \<open>pkg/core/validation.go\<close>, with the part of \<open>strconv\<close> they
  use. The process environment is an argument \<open>env\<close> (\<open>os.Getenv\<close>, the empty string for a variable
  that is not set). An error result is an option: \<open>None\<close> is Go's nil error.
\<close>

section \<open>strconv.Atoi\<close>

definition is_digit :: "char \<Rightarrow> bool" where
  "is_digit c \<longleftrightarrow> 48 \<le> (of_char c :: nat) \<and> (of_char c :: nat) \<le> 57"

fun digits_value :: "nat \<Rightarrow> string \<Rightarrow> nat option" where
  "digits_value acc [] = Some acc"
| "digits_value acc (c # cs) =
     (if is_digit c then digits_value (10 * acc + (of_char c - 48)) cs else None)"

text \<open>An optional sign, at least one digit, and a value in the range of a 64-bit \<open>int\<close>.\<close>

definition atoi :: "string \<Rightarrow> int option" where
  "atoi s =
     (let neg = (s \<noteq> [] \<and> hd s = CHR ''-'');
          ds = (if s \<noteq> [] \<and> (hd s = CHR ''-'' \<or> hd s = CHR ''+'') then tl s else s)
      in if ds = [] then None
         else case digits_value 0 ds of
             None \<Rightarrow> None
           | Some n \<Rightarrow>
               let v = (if neg then - int n else int n)
               in if - (2 ^ 63) \<le> v \<and> v < 2 ^ 63 then Some v else None)"

section \<open>ValidateSpec and DefaultSpec\<close>

definition validate_strategy :: "update_strategy \<Rightarrow> go_error option" where
  "validate_strategy st =
     (if us_type st \<noteq> [] \<and> us_type st \<noteq> StrategyRolling \<and> us_type st \<noteq> StrategyImmediate then
        Some (Errorf (''invalid strategy.type: '' @ us_type st))
      else case us_batch_size st of
          None \<Rightarrow> None
        | Some b \<Rightarrow> if sint b < 1 then Some (Errorf ''strategy.batchSize must be >= 1'') else None)"

definition ValidateSpec :: "config_propagation_spec option \<Rightarrow> go_error option" where
  "ValidateSpec spec =
     (case spec of
        None \<Rightarrow> Some (Errorf ''spec is required'')
      | Some s \<Rightarrow>
          if ref_namespace (sp_source_ref s) = [] \<or> ref_name (sp_source_ref s) = [] then
            Some (Errorf ''sourceRef.namespace and sourceRef.name are required'')
          else if sp_namespace_selector s = None then
            Some (Errorf ''namespaceSelector is required'')
          else case (case sp_strategy s of None \<Rightarrow> None | Some st \<Rightarrow> validate_strategy st) of
              Some e \<Rightarrow> Some e
            | None \<Rightarrow>
                if sp_conflict_policy s \<noteq> [] \<and> sp_conflict_policy s \<noteq> ConflictOverwrite
                    \<and> sp_conflict_policy s \<noteq> ConflictSkip then
                  Some (Errorf (''invalid conflictPolicy: '' @ sp_conflict_policy s))
                else case sp_resync_period_seconds s of
                    None \<Rightarrow> None
                  | Some r \<Rightarrow>
                      if sint r < 10 then Some (Errorf ''resyncPeriodSeconds must be >= 10'') else None)"

definition default_batch_size :: "(string \<Rightarrow> string) \<Rightarrow> int32" where
  "default_batch_size env =
     (if env ''BATCH_SIZE'' \<noteq> [] then
        (case atoi (env ''BATCH_SIZE'') of
           Some parsed \<Rightarrow> if parsed \<ge> 1 then int32_of_int parsed else 5
         | None \<Rightarrow> 5)
      else 5)"

definition DefaultSpec :: "(string \<Rightarrow> string) \<Rightarrow> config_propagation_spec \<Rightarrow> config_propagation_spec" where
  "DefaultSpec env spec =
     (let st0 = (case sp_strategy spec of None \<Rightarrow> \<lparr>us_type = [], us_batch_size = None\<rparr> | Some st \<Rightarrow> st);
          st1 = (if us_type st0 = [] then st0\<lparr>us_type := StrategyRolling\<rparr> else st0);
          st2 = (if us_batch_size st1 = None then st1\<lparr>us_batch_size := Some (default_batch_size env)\<rparr> else st1);
          spec1 = spec\<lparr>sp_strategy := Some st2\<rparr>;
          spec2 = (if sp_conflict_policy spec1 = [] then spec1\<lparr>sp_conflict_policy := ConflictOverwrite\<rparr> else spec1)
      in if sp_prune spec2 = None then spec2\<lparr>sp_prune := Some True\<rparr> else spec2)"

section \<open>What a valid spec is\<close>

definition valid_spec :: "config_propagation_spec \<Rightarrow> bool" where
  "valid_spec s \<longleftrightarrow>
     ref_namespace (sp_source_ref s) \<noteq> [] \<and> ref_name (sp_source_ref s) \<noteq> [] \<and>
     sp_namespace_selector s \<noteq> None \<and>
     (\<forall>st. sp_strategy s = Some st \<longrightarrow>
        us_type st \<in> {[], StrategyRolling, StrategyImmediate} \<and>
        (\<forall>b. us_batch_size st = Some b \<longrightarrow> 1 \<le> sint b)) \<and>
     sp_conflict_policy s \<in> {[], ConflictOverwrite, ConflictSkip} \<and>
     (\<forall>r. sp_resync_period_seconds s = Some r \<longrightarrow> 10 \<le> sint r)"

lemma valid_spec_cases:
  "valid_spec s \<longleftrightarrow>
     ref_namespace (sp_source_ref s) \<noteq> [] \<and> ref_name (sp_source_ref s) \<noteq> [] \<and> sp_namespace_selector s \<noteq> None \<and>
     (case sp_strategy s of None \<Rightarrow> True
      | Some st \<Rightarrow> us_type st \<in> {[], StrategyRolling, StrategyImmediate} \<and>
          (case us_batch_size st of None \<Rightarrow> True | Some b \<Rightarrow> 1 \<le> sint b)) \<and>
     sp_conflict_policy s \<in> {[], ConflictOverwrite, ConflictSkip} \<and>
     (case sp_resync_period_seconds s of None \<Rightarrow> True | Some r \<Rightarrow> 10 \<le> sint r)"
  by (auto simp: valid_spec_def split: option.splits)

text \<open>A spec as the reconciler sees it: valid, with every default filled in.\<close>

definition complete_spec :: "config_propagation_spec \<Rightarrow> bool" where
  "complete_spec s \<longleftrightarrow>
     (\<exists>st b. sp_strategy s = Some st \<and> us_type st \<in> {StrategyRolling, StrategyImmediate} \<and>
        us_batch_size st = Some b \<and> 1 \<le> sint b) \<and>
     sp_conflict_policy s \<in> {ConflictOverwrite, ConflictSkip} \<and> sp_prune s \<noteq> None \<and>
     sp_namespace_selector s \<noteq> None \<and>
     ref_namespace (sp_source_ref s) \<noteq> [] \<and> ref_name (sp_source_ref s) \<noteq> []"

lemma validate_strategy_ok:
  "validate_strategy st = None \<longleftrightarrow>
     us_type st \<in> {[], StrategyRolling, StrategyImmediate} \<and>
     (\<forall>b. us_batch_size st = Some b \<longrightarrow> 1 \<le> sint b)"
  by (auto simp: validate_strategy_def split: option.splits)

lemma ValidateSpec_valid: "ValidateSpec (Some s) = None \<longleftrightarrow> valid_spec s"
proof (cases "sp_strategy s")
  case None
  then show ?thesis by (auto simp: ValidateSpec_def valid_spec_def split: option.splits)
next
  case (Some st)
  show ?thesis
  proof (cases "validate_strategy st = None")
    case True
    with Some validate_strategy_ok [of st] show ?thesis
      by (auto simp: ValidateSpec_def valid_spec_def split: option.splits)
  next
    case False
    have "\<not> (us_type st \<in> {[], StrategyRolling, StrategyImmediate} \<and>
        (\<forall>b. us_batch_size st = Some b \<longrightarrow> 1 \<le> sint b))"
      by (rule False [unfolded validate_strategy_ok])
    with Some have "\<not> valid_spec s" unfolding valid_spec_def by blast
    with Some False show ?thesis by (auto simp: ValidateSpec_def)
  qed
qed

lemma DefaultSpec_fields:
  "sp_source_ref (DefaultSpec env s) = sp_source_ref s"
  "sp_namespace_selector (DefaultSpec env s) = sp_namespace_selector s"
  "sp_data_keys (DefaultSpec env s) = sp_data_keys s"
  "sp_resync_period_seconds (DefaultSpec env s) = sp_resync_period_seconds s"
  "sp_conflict_policy (DefaultSpec env s) =
     (if sp_conflict_policy s = [] then ConflictOverwrite else sp_conflict_policy s)"
  "sp_prune (DefaultSpec env s) = (case sp_prune s of None \<Rightarrow> Some True | Some b \<Rightarrow> Some b)"
  "sp_strategy (DefaultSpec env s) = Some
     (case sp_strategy s of
        None \<Rightarrow> \<lparr>us_type = StrategyRolling, us_batch_size = Some (default_batch_size env)\<rparr>
      | Some st \<Rightarrow> st\<lparr>us_type := (if us_type st = [] then StrategyRolling else us_type st),
          us_batch_size := (case us_batch_size st of None \<Rightarrow> Some (default_batch_size env) | Some b \<Rightarrow> Some b)\<rparr>)"
  by (auto simp: DefaultSpec_def Let_def split: option.splits)

lemma DefaultSpec_complete:
  assumes "ValidateSpec (Some (DefaultSpec env s)) = None"
  shows "complete_spec (DefaultSpec env s)"
  using assms unfolding ValidateSpec_valid valid_spec_def complete_spec_def
  by (auto simp: DefaultSpec_fields split: option.splits if_splits)

lemma atoi_Nil: "atoi [] = None"
  by (simp add: atoi_def)

lemma default_batch_size_atoi:
  "default_batch_size env =
     (case atoi (env ''BATCH_SIZE'') of Some n \<Rightarrow> if 1 \<le> n then int32_of_int n else 5 | None \<Rightarrow> 5)"
  by (cases "env ''BATCH_SIZE''") (simp_all add: default_batch_size_def atoi_Nil)

text \<open>The environment asks for a batch size that an \<open>int32\<close> holds, or for none.\<close>

definition batch_env_fits :: "(string \<Rightarrow> string) \<Rightarrow> bool" where
  "batch_env_fits env \<longleftrightarrow> (\<forall>n. atoi (env ''BATCH_SIZE'') = Some n \<longrightarrow> n < 2 ^ 31)"

lemma default_batch_size_pos: "batch_env_fits env \<Longrightarrow> 1 \<le> sint (default_batch_size env)"
proof (cases "atoi (env ''BATCH_SIZE'')")
  case (Some n)
  assume "batch_env_fits env"
  then have "n < 2 ^ 31" using Some by (simp add: batch_env_fits_def)
  then have "1 \<le> n \<Longrightarrow> sint (int32_of_int n) = n" by (intro sint_int32_of_int) simp_all
  with Some show ?thesis by (simp add: default_batch_size_atoi)
qed (simp add: default_batch_size_atoi)

lemma validate_strategy_defaulted:
  assumes "1 \<le> sint (default_batch_size env)"
  shows "validate_strategy (st\<lparr>us_type := (if us_type st = [] then StrategyRolling else us_type st),
      us_batch_size := (case us_batch_size st of None \<Rightarrow> Some (default_batch_size env) | Some b \<Rightarrow> Some b)\<rparr>) =
    validate_strategy st"
  using assms by (auto simp: validate_strategy_def split: option.splits)

section \<open>Properties\<close>

text \<open>C24. ValidateSpec accepts exactly the specs with a source namespace and name, a selector, a
  strategy type that is empty, rolling or immediate with a batch size, if any, of at least 1, a
  conflict policy that is empty, overwrite or skip, and a resync period, if any, of at least 10
  seconds; it rejects a missing spec. Nothing else is looked at: the operators of the selector's
  expressions, which the schema of the CRD restricts, are accepted whatever they are.\<close>

theorem ValidateSpec_accepts_exactly:
  "ValidateSpec spec = None \<longleftrightarrow>
     (\<exists>s. spec = Some s \<and> ref_namespace (sp_source_ref s) \<noteq> [] \<and> ref_name (sp_source_ref s) \<noteq> [] \<and>
        sp_namespace_selector s \<noteq> None \<and>
        (case sp_strategy s of None \<Rightarrow> True
         | Some st \<Rightarrow> us_type st \<in> {'''', StrategyRolling, StrategyImmediate} \<and>
             (case us_batch_size st of None \<Rightarrow> True | Some b \<Rightarrow> 1 \<le> sint b)) \<and>
        sp_conflict_policy s \<in> {'''', ConflictOverwrite, ConflictSkip} \<and>
        (case sp_resync_period_seconds s of None \<Rightarrow> True | Some r \<Rightarrow> 10 \<le> sint r))"
  unfolding valid_spec_cases [symmetric] by (cases spec) (simp_all add: ValidateSpec_valid ValidateSpec_def [of None])

text \<open>C26. Defaulting fills an empty strategy type with rolling, a missing batch size with the default
  one, an empty conflict policy with overwrite and a missing prune flag with true; where the user
  gave one of these it is kept, and every other field is left as it is, the optional data keys and
  resync period included. Doing it twice is doing it once.\<close>

theorem DefaultSpec_keeps_user_values:
  "DefaultSpec env (DefaultSpec env s) = DefaultSpec env s \<and>
   sp_source_ref (DefaultSpec env s) = sp_source_ref s \<and>
   sp_namespace_selector (DefaultSpec env s) = sp_namespace_selector s \<and>
   sp_data_keys (DefaultSpec env s) = sp_data_keys s \<and>
   sp_resync_period_seconds (DefaultSpec env s) = sp_resync_period_seconds s \<and>
   (\<exists>st. sp_strategy (DefaultSpec env s) = Some st \<and>
      us_type st = (case sp_strategy s of None \<Rightarrow> StrategyRolling
        | Some st0 \<Rightarrow> if us_type st0 = [] then StrategyRolling else us_type st0) \<and>
      us_batch_size st = Some (case sp_strategy s of None \<Rightarrow> default_batch_size env
        | Some st0 \<Rightarrow> (case us_batch_size st0 of None \<Rightarrow> default_batch_size env | Some b \<Rightarrow> b))) \<and>
   sp_conflict_policy (DefaultSpec env s) =
     (if sp_conflict_policy s = [] then ConflictOverwrite else sp_conflict_policy s) \<and>
   sp_prune (DefaultSpec env s) = Some (case sp_prune s of None \<Rightarrow> True | Some b \<Rightarrow> b)"
proof -
  have "DefaultSpec env (DefaultSpec env s) = DefaultSpec env s"
    by (rule config_propagation_spec.equality) (auto simp: DefaultSpec_fields split: option.splits)
  moreover have "\<exists>st. sp_strategy (DefaultSpec env s) = Some st \<and>
      us_type st = (case sp_strategy s of None \<Rightarrow> StrategyRolling
        | Some st0 \<Rightarrow> if us_type st0 = [] then StrategyRolling else us_type st0) \<and>
      us_batch_size st = Some (case sp_strategy s of None \<Rightarrow> default_batch_size env
        | Some st0 \<Rightarrow> (case us_batch_size st0 of None \<Rightarrow> default_batch_size env | Some b \<Rightarrow> b))"
    by (simp add: DefaultSpec_fields split: option.split)
  ultimately show ?thesis by (simp add: DefaultSpec_fields split: option.split)
qed

theorem DefaultSpec_keeps_user_values_witness:
  "sp_prune (DefaultSpec (\<lambda>_. []) \<lparr>sp_source_ref = \<lparr>ref_namespace = ''s'', ref_name = ''n''\<rparr>,
      sp_namespace_selector = None, sp_data_keys = [], sp_strategy = None, sp_conflict_policy = ''skip'',
      sp_prune = Some False, sp_resync_period_seconds = None\<rparr>) = Some False"
  using DefaultSpec_keeps_user_values [of "\<lambda>_. []" "\<lparr>sp_source_ref = \<lparr>ref_namespace = ''s'', ref_name = ''n''\<rparr>,
      sp_namespace_selector = None, sp_data_keys = [], sp_strategy = None, sp_conflict_policy = ''skip'',
      sp_prune = Some False, sp_resync_period_seconds = None\<rparr>"]
  by simp

text \<open>C25. As long as the BATCH_SIZE environment variable holds nothing larger than an int32, the
  defaults never change the verdict: a defaulted spec is accepted exactly when the spec was, and
  with the same error otherwise.\<close>

theorem default_then_validate:
  assumes "batch_env_fits env"
  shows "ValidateSpec (Some (DefaultSpec env s)) = ValidateSpec (Some s)"
proof -
  note pos = default_batch_size_pos [OF assms]
  have "validate_strategy \<lparr>us_type = StrategyRolling, us_batch_size = Some (default_batch_size env)\<rparr> = None"
    using pos by (simp add: validate_strategy_ok)
  then have strategy: "(case sp_strategy (DefaultSpec env s) of None \<Rightarrow> None | Some st \<Rightarrow> validate_strategy st) =
      (case sp_strategy s of None \<Rightarrow> None | Some st \<Rightarrow> validate_strategy st)"
    by (simp add: DefaultSpec_fields(7) validate_strategy_defaulted [OF pos] split: option.splits)
  show ?thesis
    by (simp add: ValidateSpec_def strategy DefaultSpec_fields(1-6) split: option.splits)
qed

text \<open>The smallest valid spec, used by the examples.\<close>

definition ex_spec :: config_propagation_spec where
  "ex_spec = \<lparr>sp_source_ref = \<lparr>ref_namespace = ''src'', ref_name = ''cfg''\<rparr>,
     sp_namespace_selector = Some \<lparr>ls_match_labels = None, ls_match_expressions = []\<rparr>,
     sp_data_keys = [], sp_strategy = None, sp_conflict_policy = [], sp_prune = None,
     sp_resync_period_seconds = None\<rparr>"

lemma ex_spec_valid: "ValidateSpec (Some ex_spec) = None"
  by (simp add: ValidateSpec_def ex_spec_def)

theorem default_then_validate_witness:
  "ValidateSpec (Some (DefaultSpec (\<lambda>_. ''7'') ex_spec)) = None"
proof -
  have "batch_env_fits (\<lambda>_. ''7'')" by (simp add: batch_env_fits_def atoi_def is_digit_def)
  from default_then_validate [OF this, of ex_spec] show ?thesis by (simp add: ex_spec_valid)
qed

text \<open>C37. The truncation of BATCH_SIZE from int to int32 breaks this: with BATCH_SIZE=4294967296
  the default batch size is 0, and a valid spec without a batch size is rejected on every
  reconcile although the variable asks for a batch of at least 1.\<close>

theorem batch_size_env_overflow:
  "atoi ''4294967296'' = Some 4294967296 \<and>
   sint (default_batch_size (\<lambda>_. ''4294967296'')) = 0 \<and>
   ValidateSpec (Some ex_spec) = None \<and>
   ValidateSpec (Some (DefaultSpec (\<lambda>_. ''4294967296'') ex_spec)) =
     Some (Errorf ''strategy.batchSize must be >= 1'')"
proof -
  have a: "atoi ''4294967296'' = Some 4294967296" by (simp add: atoi_def is_digit_def)
  then have d: "default_batch_size (\<lambda>_. ''4294967296'') = 0"
    by (simp add: default_batch_size_def int32_of_int_def)
  then show ?thesis
    using a ex_spec_valid
    by (simp add: ValidateSpec_def DefaultSpec_fields validate_strategy_def ex_spec_def)
qed

end
