(* ===== verification/Admission.thy ===== *)
theory Admission
  imports Core_Validation
begin

text \<open>
  The admission webhooks: the guarded validation and the defaulting of \<open>pkg/adapters/webhooks\<close>, and
  the methods that the manager registers, those of \<open>pkg/api/v1alpha1/webhook.go\<close>. The latter call
  the core validation only. With them the \<open>ENABLE_WEBHOOKS\<close> switch of \<open>cmd/configpropagation/main.go\<close>.
\<close>

section \<open>strings.TrimSpace and strings.ToLower\<close>

text \<open>
  A Go string is a byte string; the white space is Unicode's, in UTF-8. Case mapping is given on
  ASCII: the comparison below is with ASCII words, and the only code points outside ASCII that
  are lowered into it become the letters i and k, which occur in none of them.
\<close>

definition white_space_runes :: "string list" where
  "white_space_runes =
    [[CHR 0x09], [CHR 0x0A], [CHR 0x0B], [CHR 0x0C], [CHR 0x0D], [CHR 0x20], [CHR 0xC2, CHR 0x85],
     [CHR 0xC2, CHR 0xA0], [CHR 0xE1, CHR 0x9A, CHR 0x80], [CHR 0xE2, CHR 0x80, CHR 0x80],
     [CHR 0xE2, CHR 0x80, CHR 0x81], [CHR 0xE2, CHR 0x80, CHR 0x82],
     [CHR 0xE2, CHR 0x80, CHR 0x83], [CHR 0xE2, CHR 0x80, CHR 0x84],
     [CHR 0xE2, CHR 0x80, CHR 0x85], [CHR 0xE2, CHR 0x80, CHR 0x86],
     [CHR 0xE2, CHR 0x80, CHR 0x87], [CHR 0xE2, CHR 0x80, CHR 0x88],
     [CHR 0xE2, CHR 0x80, CHR 0x89], [CHR 0xE2, CHR 0x80, CHR 0x8A],
     [CHR 0xE2, CHR 0x80, CHR 0xA8], [CHR 0xE2, CHR 0x80, CHR 0xA9],
     [CHR 0xE2, CHR 0x80, CHR 0xAF], [CHR 0xE2, CHR 0x81, CHR 0x9F], [CHR 0xE3, CHR 0x80, CHR 0x80]]"

definition has_prefix :: "string \<Rightarrow> string \<Rightarrow> bool" where
  "has_prefix s p \<longleftrightarrow> take (length p) s = p"

text \<open>Dropping leading runes of a list; empty runes are ignored.\<close>

function trim_runes :: "string list \<Rightarrow> string \<Rightarrow> string" where
  "trim_runes rs s =
     (case find (\<lambda>r. r \<noteq> [] \<and> has_prefix s r) rs of
        None \<Rightarrow> s
      | Some r \<Rightarrow> trim_runes rs (drop (length r) s))"
  by pat_completeness auto

termination
proof (relation "measure (\<lambda>(rs, s). length s)")
  fix rs s r
  assume "find (\<lambda>r. r \<noteq> [] \<and> has_prefix s r) rs = Some r"
  then have "r \<noteq> []" "take (length r) s = r" by (auto simp: find_Some_iff has_prefix_def)
  then have "0 < length r" "length r \<le> length s" by (auto dest: arg_cong [of _ _ length])
  then have "length s - length r < length s" by linarith
  then show "((rs, drop (length r) s), rs, s) \<in> measure (\<lambda>(rs, s). length s)" by simp
qed simp

declare trim_runes.simps [simp del]

definition trim_space :: "string \<Rightarrow> string" where
  "trim_space s = rev (trim_runes (map rev white_space_runes) (rev (trim_runes white_space_runes s)))"

definition lower_char :: "char \<Rightarrow> char" where
  "lower_char c = (if 65 \<le> (of_char c :: nat) \<and> (of_char c :: nat) \<le> 90 then char_of (of_char c + 32 :: nat) else c)"

definition to_lower :: "string \<Rightarrow> string" where
  "to_lower s = map lower_char s"

section \<open>The guarded webhooks\<close>

definition strictSelectorEnv :: string where "strictSelectorEnv = ''STRICT_SELECTOR_GUARD''"
definition immutableSourceEnv :: string where "immutableSourceEnv = ''ENFORCE_SOURCE_IMMUTABILITY''"

definition parse_bool_env :: "string \<Rightarrow> bool" where
  "parse_bool_env value = (to_lower (trim_space value) \<in> {''1'', ''true'', ''yes'', ''on''})"

definition is_selector_wide_open :: "label_selector option \<Rightarrow> bool" where
  "is_selector_wide_open sel =
     (case sel of
        None \<Rightarrow> True
      | Some s \<Rightarrow> if go_len (ls_match_labels s) > 0 then False
                 else if length (ls_match_expressions s) > 0 then False else True)"

text \<open>The new spec has been validated, so it is not nil when its fields are read.\<close>

definition ValidateConfigPropagation :: "(string \<Rightarrow> string) \<Rightarrow> config_propagation_spec option \<Rightarrow>
    config_propagation_spec option \<Rightarrow> go_error option" where
  "ValidateConfigPropagation env newSpec oldSpec =
     (case ValidateSpec newSpec of
        Some err \<Rightarrow> Some err
      | None \<Rightarrow>
     (case newSpec of
        None \<Rightarrow> Some (Panic ''nil pointer dereference'')
      | Some new \<Rightarrow>
          if parse_bool_env (env strictSelectorEnv) \<and> is_selector_wide_open (sp_namespace_selector new) then
            Some (Errorf (''namespaceSelector must specify matchLabels or matchExpressions when '' @
              strictSelectorEnv @ '' is enabled''))
          else
            (case oldSpec of
               None \<Rightarrow> None
             | Some old \<Rightarrow>
                 if parse_bool_env (env immutableSourceEnv) \<and>
                   (ref_namespace (sp_source_ref old) \<noteq> ref_namespace (sp_source_ref new) \<or>
                    ref_name (sp_source_ref old) \<noteq> ref_name (sp_source_ref new)) then
                   Some (Errorf (''sourceRef is immutable when '' @ immutableSourceEnv @ '' is enabled''))
                 else None)))"

definition DefaultConfigPropagation :: "(string \<Rightarrow> string) \<Rightarrow> config_propagation_spec option \<Rightarrow>
    config_propagation_spec option" where
  "DefaultConfigPropagation env spec = (case spec of None \<Rightarrow> None | Some s \<Rightarrow> Some (DefaultSpec env s))"

section \<open>The registered webhooks\<close>

definition Default :: "(string \<Rightarrow> string) \<Rightarrow> config_propagation_spec \<Rightarrow> config_propagation_spec" where
  "Default env spec = DefaultSpec env spec"



definition ValidateDelete :: "config_propagation_spec \<Rightarrow> go_error option" where
  "ValidateDelete spec = None"

section \<open>The switch of the manager\<close>

definition parse_bool :: "string \<Rightarrow> bool option" where
  "parse_bool s =
     (if s \<in> {''1'', ''t'', ''T'', ''true'', ''TRUE'', ''True''} then Some True
      else if s \<in> {''0'', ''f'', ''F'', ''false'', ''FALSE'', ''False''} then Some False
      else None)"

definition default_enable_webhooks :: "(string \<Rightarrow> string) \<Rightarrow> bool" where
  "default_enable_webhooks env =
     (let environmentValue = env ''ENABLE_WEBHOOKS''
      in if environmentValue = [] then True
         else case parse_bool environmentValue of None \<Rightarrow> True | Some parsedValue \<Rightarrow> parsedValue)"

section \<open>Properties\<close>

text \<open>A selector that constrains nothing.\<close>

definition unconstrained :: "config_propagation_spec \<Rightarrow> bool" where
  "unconstrained s \<longleftrightarrow> (\<forall>sel. sp_namespace_selector s = Some sel \<longrightarrow>
     go_lookup (ls_match_labels sel) = Map.empty \<and> ls_match_expressions sel = [])"

lemma go_len_pos_iff: "0 < go_len m \<longleftrightarrow> go_lookup m \<noteq> Map.empty"
proof -
  have "go_len m = 0 \<longleftrightarrow> go_entries m = go_entries None" by (simp add: go_len_0_iff)
  also have "\<dots> \<longleftrightarrow> go_lookup m = Map.empty" unfolding go_entries_eq_iff by (auto simp: fun_eq_iff)
  finally show ?thesis by auto
qed

lemma wide_open_unconstrained:
  "sp_namespace_selector s \<noteq> None \<Longrightarrow> is_selector_wide_open (sp_namespace_selector s) \<longleftrightarrow> unconstrained s"
  by (auto simp: is_selector_wide_open_def unconstrained_def go_len_pos_iff)

lemma ValidateConfigPropagation_accepts:
  "ValidateConfigPropagation env (Some new) old = None \<longleftrightarrow>
     valid_spec new \<and>
     \<not> (parse_bool_env (env strictSelectorEnv) \<and> unconstrained new) \<and>
     \<not> (parse_bool_env (env immutableSourceEnv) \<and> (\<exists>prev. old = Some prev \<and> sp_source_ref prev \<noteq> sp_source_ref new))"
proof (cases "valid_spec new")
  case True
  then have "sp_namespace_selector new \<noteq> None" by (simp add: valid_spec_def)
  then have wide: "is_selector_wide_open (sp_namespace_selector new) = unconstrained new"
    by (rule wide_open_unconstrained)
  have ref: "sp_source_ref prev \<noteq> sp_source_ref new \<longleftrightarrow>
      ref_namespace (sp_source_ref prev) \<noteq> ref_namespace (sp_source_ref new) \<or>
      ref_name (sp_source_ref prev) \<noteq> ref_name (sp_source_ref new)" for prev :: config_propagation_spec
    by (cases "sp_source_ref prev"; cases "sp_source_ref new") simp
  show ?thesis
    unfolding ValidateConfigPropagation_def iffD2 [OF ValidateSpec_valid True] option.case wide
    using True ref by (auto split: option.splits)
next
  case False
  then have "ValidateSpec (Some new) \<noteq> None" using ValidateSpec_valid by blast
  with False show ?thesis by (auto simp: ValidateConfigPropagation_def)
qed

text \<open>C34. The guarded validation accepts exactly the valid specs that pass the guards that are
  switched on: with the strict selector guard the selector has a label or an expression, with the
  immutability guard an update keeps both fields of the source reference.\<close>

theorem ValidateConfigPropagation_accepts_exactly:
  "ValidateConfigPropagation env (Some new) old = None \<longleftrightarrow>
     valid_spec new \<and>
     \<not> (parse_bool_env (env strictSelectorEnv) \<and> unconstrained new) \<and>
     \<not> (parse_bool_env (env immutableSourceEnv) \<and> (\<exists>prev. old = Some prev \<and> sp_source_ref prev \<noteq> sp_source_ref new))"
  by (rule ValidateConfigPropagation_accepts)



end
