(* ===== verification/Status.thy ===== *)
theory Status
  imports Core_Validation
begin

text \<open>
  The resource \<open>ConfigPropagation\<close> and the two methods of \<open>pkg/api/v1alpha1/webhook.go\<close> that write
  its status after a reconcile. The clock is an argument: the RFC 3339 text of the current time.
\<close>

section \<open>The resource\<close>

text \<open>Of the object's metadata the controller uses the name, the finalizers and the deletion mark.\<close>

record config_propagation =
  cp_namespace :: string
  cp_name :: string
  cp_finalizers :: "string list"
  cp_deletion_timestamp :: "string option"
  cp_opaque :: string
  cp_spec :: config_propagation_spec
  cp_status :: config_propagation_status

definition condition_of :: "string \<Rightarrow> string \<Rightarrow> string \<Rightarrow> string \<Rightarrow> string \<Rightarrow> condition" where
  "condition_of type status reason message time =
     \<lparr>cond_type = type, cond_status = status, cond_reason = reason, cond_message = message,
      cond_last_transition_time = time\<rparr>"

section \<open>ApplyRolloutStatus and ApplyErrorStatus\<close>

definition ApplyRolloutStatus :: "string \<Rightarrow> rollout_result \<Rightarrow> config_propagation \<Rightarrow> config_propagation" where
  "ApplyRolloutStatus currentTime result cp =
     (let status1 = (cp_status cp)\<lparr>sts_last_sync_time := currentTime,
            sts_target_count := int32_of_len (rr_total_targets result),
            sts_synced_count := int32_of_len (rr_completed_count result)\<rparr>;
          pendingCount = length (rr_out_of_sync result);
          status2 = status1\<lparr>sts_out_of_sync_count := int32_of_len pendingCount,
            sts_out_of_sync := (if pendingCount > 0 then rr_out_of_sync result else [])\<rparr>;
          degraded = condition_of CondDegraded ''False'' ''Healthy'' ''no reconcile errors detected'' currentTime;
          (ready, progressing) =
            (if pendingCount > 0 then
               (condition_of CondReady ''False'' ''RollingUpdate''
                  (''propagated to '' @ show_nat (rr_completed_count result) @ ''/'' @
                   show_nat (rr_total_targets result) @ '' namespaces (batch of '' @
                   show_nat (length (rr_planned result)) @ '')'') currentTime,
                condition_of CondProgressing ''True'' ''RollingUpdate''
                  (''updating '' @ show_nat pendingCount @ '' remaining namespaces'') currentTime)
             else
               (condition_of CondReady ''True'' ''Reconciled''
                  (''propagated to '' @ show_nat (rr_completed_count result) @ ''/'' @
                   show_nat (rr_total_targets result) @ '' namespaces'') currentTime,
                condition_of CondProgressing ''False'' ''RolloutComplete''
                  ''all target namespaces synchronized'' currentTime))
      in cp\<lparr>cp_status := status2\<lparr>sts_conditions := [ready, progressing, degraded]\<rparr>\<rparr>)"

definition ApplyErrorStatus :: "string \<Rightarrow> go_error option \<Rightarrow> config_propagation \<Rightarrow> config_propagation" where
  "ApplyErrorStatus currentTime reconcileErr cp =
     (let message = (case reconcileErr of None \<Rightarrow> [] | Some err \<Rightarrow> error_text err)
      in cp\<lparr>cp_status := (cp_status cp)\<lparr>sts_last_sync_time := currentTime,
           sts_conditions :=
             [condition_of CondReady ''False'' ''Error'' message currentTime,
              condition_of CondProgressing ''False'' ''Error'' ''reconcile halted due to error'' currentTime,
              condition_of CondDegraded ''True'' ''ReconcileError'' message currentTime]\<rparr>\<rparr>)"

section \<open>Properties\<close>

definition condition_status :: "config_propagation_status \<Rightarrow> string \<Rightarrow> string option" where
  "condition_status status type =
     map_option cond_status (find (\<lambda>c. cond_type c = type) (sts_conditions status))"

lemma condition_types_distinct [simp]:
  "CondReady \<noteq> CondProgressing" "CondReady \<noteq> CondDegraded" "CondProgressing \<noteq> CondDegraded"
  by (simp_all add: constant_defs)

lemma condition_of_simps [simp]:
  "cond_type (condition_of t s r m n) = t" "cond_status (condition_of t s r m n) = s"
  "cond_message (condition_of t s r m n) = m"
  by (simp_all add: condition_of_def)

lemma ApplyRolloutStatus_fields:
  "sts_target_count (cp_status (ApplyRolloutStatus now r cp)) = int32_of_len (rr_total_targets r)"
  "sts_synced_count (cp_status (ApplyRolloutStatus now r cp)) = int32_of_len (rr_completed_count r)"
  "sts_out_of_sync_count (cp_status (ApplyRolloutStatus now r cp)) = int32_of_len (length (rr_out_of_sync r))"
  "sts_out_of_sync (cp_status (ApplyRolloutStatus now r cp)) = rr_out_of_sync r"
  "cp_spec (ApplyRolloutStatus now r cp) = cp_spec cp"
  "map cond_type (sts_conditions (cp_status (ApplyRolloutStatus now r cp))) = [CondReady, CondProgressing, CondDegraded]"
  "map cond_status (sts_conditions (cp_status (ApplyRolloutStatus now r cp))) =
     (if rr_out_of_sync r = [] then [''True'', ''False'', ''False''] else [''False'', ''True'', ''False''])"
  by (simp_all add: ApplyRolloutStatus_def Let_def)

text \<open>C35. The status after a successful reconcile adds up and is not contradictory: for a result whose
  completed and out-of-sync targets add up to its total, as those of every reconcile do, with fewer
  than 2^31 targets, the three counters are those of the result (targets, completed, out of sync)
  and the last two add up to the first; the out-of-sync list is the result's; Ready is True exactly
  if all targets are synced, Progressing is True exactly if something is out of sync, Degraded is
  False, and the spec is not touched.\<close>

theorem rollout_status_adds_up:
  assumes "rr_completed_count r + length (rr_out_of_sync r) = rr_total_targets r"
    and "rr_total_targets r < 2 ^ 31"
  shows "let status = cp_status (ApplyRolloutStatus now r cp) in
    sint (sts_target_count status) = int (rr_total_targets r) \<and>
    sint (sts_synced_count status) = int (rr_completed_count r) \<and>
    sint (sts_out_of_sync_count status) = int (length (rr_out_of_sync r)) \<and>
    sint (sts_synced_count status) + sint (sts_out_of_sync_count status) = sint (sts_target_count status) \<and>
    sts_out_of_sync status = rr_out_of_sync r \<and>
    (condition_status status CondReady = Some ''True'' \<longleftrightarrow> sint (sts_synced_count status) = sint (sts_target_count status)) \<and>
    (condition_status status CondProgressing = Some ''True'' \<longleftrightarrow> sts_out_of_sync status \<noteq> []) \<and>
    condition_status status CondDegraded = Some ''False'' \<and>
    cp_spec (ApplyRolloutStatus now r cp) = cp_spec cp"
proof -
  have "rr_completed_count r < 2 ^ 31" "length (rr_out_of_sync r) < 2 ^ 31" using assms by linarith+
  then have ints: "sint (int32_of_len (rr_completed_count r)) = int (rr_completed_count r)"
    "sint (int32_of_len (length (rr_out_of_sync r))) = int (length (rr_out_of_sync r))"
    "sint (int32_of_len (rr_total_targets r)) = int (rr_total_targets r)"
    using assms(2) by (simp_all only: sint_int32_of_len)
  have zero: "rr_out_of_sync r = [] \<longleftrightarrow> int (rr_completed_count r) = int (rr_total_targets r)"
    using assms(1) by auto
  have "condition_status (cp_status (ApplyRolloutStatus now r cp)) CondReady =
      Some (if rr_out_of_sync r = [] then ''True'' else ''False'')"
    "condition_status (cp_status (ApplyRolloutStatus now r cp)) CondProgressing =
      Some (if rr_out_of_sync r = [] then ''False'' else ''True'')"
    "condition_status (cp_status (ApplyRolloutStatus now r cp)) CondDegraded = Some ''False''"
    by (simp_all add: condition_status_def ApplyRolloutStatus_def Let_def)
  then show ?thesis
    using zero assms(1) by (simp add: ApplyRolloutStatus_fields ints Let_def)
qed

definition ex_status :: config_propagation_status where
  "ex_status = \<lparr>sts_conditions = [], sts_target_count = 0, sts_synced_count = 0, sts_out_of_sync_count = 0,
     sts_out_of_sync = [], sts_last_sync_time = []\<rparr>"

definition ex_resource :: "config_propagation_spec \<Rightarrow> config_propagation" where
  "ex_resource spec = \<lparr>cp_namespace = ''default'', cp_name = ''cp'', cp_finalizers = [],
     cp_deletion_timestamp = None, cp_opaque = [], cp_spec = spec, cp_status = ex_status\<rparr>"

theorem rollout_status_adds_up_witness:
  "condition_status (cp_status (ApplyRolloutStatus ''t'' \<lparr>rr_planned = [''n2''], rr_total_targets = 2, rr_completed_count = 1,
     rr_out_of_sync = [\<lparr>oos_namespace = ''n2'', oos_reason = ''PendingRollout'', oos_message = []\<rparr>]\<rparr> (ex_resource ex_spec))) CondDegraded =
   Some ''False''"
  using rollout_status_adds_up [of "\<lparr>rr_planned = [''n2''], rr_total_targets = 2, rr_completed_count = 1,
     rr_out_of_sync = [\<lparr>oos_namespace = ''n2'', oos_reason = ''PendingRollout'', oos_message = []\<rparr>]\<rparr>" "''t''" "ex_resource ex_spec"]
  by (simp add: Let_def)

text \<open>A failed reconcile marks the resource Degraded with the error's text in Ready and Degraded,
  neither Ready nor Progressing, and leaves the counters and the out-of-sync list of the last
  successful reconcile as they were.\<close>

theorem error_status_degrades:
  "let status = cp_status (ApplyErrorStatus now (Some err) cp) in
    condition_status status CondDegraded = Some ''True'' \<and>
    condition_status status CondReady = Some ''False'' \<and>
    condition_status status CondProgressing = Some ''False'' \<and>
    map cond_type (sts_conditions status) = [CondReady, CondProgressing, CondDegraded] \<and>
    map cond_message (sts_conditions status) = [error_text err, ''reconcile halted due to error'', error_text err] \<and>
    sts_target_count status = sts_target_count (cp_status cp) \<and>
    sts_synced_count status = sts_synced_count (cp_status cp) \<and>
    sts_out_of_sync status = sts_out_of_sync (cp_status cp) \<and>
    cp_spec (ApplyErrorStatus now (Some err) cp) = cp_spec cp"
  by (simp add: ApplyErrorStatus_def condition_status_def Let_def)

end
