(* ===== verification/Telemetry.thy ===== *)
theory Telemetry
  imports Core_Types
begin

text \<open>
  Events and metrics, \<open>pkg/adapters/events.go\<close> and \<open>pkg/adapters/metrics.go\<close>. The reconciler
  calls two interfaces that return nothing; a call is a value of \<open>telemetry\<close> and a run of the
  reconciler leaves the list of its calls. The implementations of the interfaces are functions
  on such calls: the Prometheus recorder updates a registry, the Kubernetes recorder forwards an
  event unless the object has no name, and the no-op recorders drop everything.
\<close>

section \<open>Calls\<close>

datatype telemetry =
    AddPropagations string nat
  | ObserveTargets nat nat
  | ObserveReconcileDuration int
  | IncError string
  | Normalf namespaced_name string string
  | Warningf namespaced_name string string

definition MetricsActionCreate :: string where "MetricsActionCreate = ''create''"
definition MetricsActionUpdate :: string where "MetricsActionUpdate = ''update''"
definition MetricsActionSkip :: string where "MetricsActionSkip = ''skip''"
definition MetricsActionPrune :: string where "MetricsActionPrune = ''prune''"

lemmas action_defs =
  MetricsActionCreate_def MetricsActionUpdate_def MetricsActionSkip_def MetricsActionPrune_def

section \<open>The Prometheus recorder\<close>

record prometheus =
  pm_propagations :: "string \<Rightarrow> nat"
  pm_targets :: nat
  pm_out_of_sync :: nat
  pm_errors :: "string \<Rightarrow> nat"
  pm_durations :: "int list"

definition new_prometheus :: prometheus where
  "new_prometheus = \<lparr>pm_propagations = (\<lambda>_. 0), pm_targets = 0, pm_out_of_sync = 0,
     pm_errors = (\<lambda>_. 0), pm_durations = []\<rparr>"

fun prometheus_record :: "telemetry \<Rightarrow> prometheus \<Rightarrow> prometheus" where
  "prometheus_record (AddPropagations action count) m =
     m\<lparr>pm_propagations := (pm_propagations m)(action := pm_propagations m action + count)\<rparr>"
| "prometheus_record (ObserveTargets targetTotal outOfSync) m =
     m\<lparr>pm_targets := targetTotal, pm_out_of_sync := outOfSync\<rparr>"
| "prometheus_record (ObserveReconcileDuration d) m = m\<lparr>pm_durations := pm_durations m @ [d]\<rparr>"
| "prometheus_record (IncError stage) m =
     m\<lparr>pm_errors := (pm_errors m)(stage := Suc (pm_errors m stage))\<rparr>"
| "prometheus_record (Normalf _ _ _) m = m"
| "prometheus_record (Warningf _ _ _) m = m"

section \<open>The Kubernetes event recorder\<close>

datatype event_type = EventTypeNormal | EventTypeWarning

record emitted_event =
  ee_object :: namespaced_name
  ee_type :: event_type
  ee_reason :: string
  ee_message :: string

text \<open>\<open>minimalConfigPropagationObject\<close> yields no object for an empty name.\<close>

definition minimal_object :: "namespaced_name \<Rightarrow> namespaced_name option" where
  "minimal_object name = (if nn_name name = [] then None else Some name)"

definition emit_event :: "namespaced_name \<Rightarrow> event_type \<Rightarrow> string \<Rightarrow> string \<Rightarrow>
    emitted_event list \<Rightarrow> emitted_event list" where
  "emit_event name eventType reason message sent =
     (case minimal_object name of
        None \<Rightarrow> sent
      | Some obj \<Rightarrow> sent @ [\<lparr>ee_object = obj, ee_type = eventType, ee_reason = reason, ee_message = message\<rparr>])"

fun events_record :: "telemetry \<Rightarrow> emitted_event list \<Rightarrow> emitted_event list" where
  "events_record (Normalf name reason message) sent = emit_event name EventTypeNormal reason message sent"
| "events_record (Warningf name reason message) sent = emit_event name EventTypeWarning reason message sent"
| "events_record _ sent = sent"

text \<open>The no-op recorders.\<close>

definition noop_record :: "telemetry \<Rightarrow> 'a \<Rightarrow> 'a" where
  "noop_record t x = x"

section \<open>Counting calls\<close>

fun propagation_count :: "string \<Rightarrow> telemetry list \<Rightarrow> nat" where
  "propagation_count action [] = 0"
| "propagation_count action (AddPropagations a n # ts) =
     (if a = action then n else 0) + propagation_count action ts"
| "propagation_count action (_ # ts) = propagation_count action ts"

fun error_count :: "telemetry list \<Rightarrow> nat" where
  "error_count [] = 0"
| "error_count (IncError _ # ts) = Suc (error_count ts)"
| "error_count (_ # ts) = error_count ts"

lemma propagation_count_append [simp]:
  "propagation_count a (ts @ us) = propagation_count a ts + propagation_count a us"
  by (induction a ts rule: propagation_count.induct) auto

lemma error_count_append [simp]: "error_count (ts @ us) = error_count ts + error_count us"
  by (induction ts rule: error_count.induct) auto

lemma prometheus_propagations:
  "pm_propagations (fold prometheus_record ts m) a = pm_propagations m a + propagation_count a ts"
  by (induction a ts arbitrary: m rule: propagation_count.induct) simp_all

end
