(* ===== verification/Kube_Client.thy ===== *)
theory Kube_Client
  imports Core_Types
begin

text \<open>
  The cluster as the reconciler sees it: the interface \<open>KubeClient\<close> of
  \<open>pkg/adapters/kube_client.go\<close>, as a record of calls on a world \<open>'w\<close>, and the contract its users
  rely on, the locale \<open>kube_contract\<close>, stated over the ConfigMaps the world holds. A call may
  fail at any time; one that fails may or may not have taken effect. The contract describes a
  cluster that nobody else writes to while the controller runs.
\<close>

section \<open>Objects\<close>

text \<open>
  \<open>corev1.ConfigMap\<close>: the fields the controller reads and writes, its binary data, which it
  never touches, and everything else (resource version and so on) in \<open>cm_opaque\<close>.
\<close>

record config_map =
  cm_namespace :: string
  cm_name :: string
  cm_labels :: go_map
  cm_annotations :: go_map
  cm_data :: go_map
  cm_binary_data :: go_map
  cm_opaque :: string

record label_selector_requirement =
  lreq_key :: string
  lreq_operator :: string
  lreq_values :: "string list"

section \<open>The KubeClient interface\<close>

record 'w kube_client =
  GetSourceConfigMap :: "string \<Rightarrow> string \<Rightarrow> ('w, go_map) call"
  ListNamespacesBySelector :: "go_map \<Rightarrow> label_selector_requirement list \<Rightarrow> ('w, string list) call"
  UpsertConfigMap :: "string \<Rightarrow> string \<Rightarrow> go_map \<Rightarrow> go_map \<Rightarrow> go_map \<Rightarrow> ('w, unit) call"
  GetTargetConfigMap :: "string \<Rightarrow> string \<Rightarrow> ('w, (go_map \<times> go_map \<times> go_map) option) call"
  ListManagedTargetNamespaces :: "string \<Rightarrow> string \<Rightarrow> ('w, string list) call"
  DeleteConfigMap :: "string \<Rightarrow> string \<Rightarrow> ('w, unit) call"
  UpdateConfigMapMetadata :: "string \<Rightarrow> string \<Rightarrow> go_map \<Rightarrow> go_map \<Rightarrow> ('w, unit) call"

section \<open>The contract\<close>

text \<open>A ConfigMap that carries the controller's marks for a source.\<close>

definition managed_copy :: "string \<Rightarrow> config_map \<Rightarrow> bool" where
  "managed_copy source cm \<longleftrightarrow>
     go_get (cm_labels cm) ManagedLabel = ''true'' \<and> go_get (cm_annotations cm) SourceAnnotation = source"

text \<open>A ConfigMap with the given payload and metadata, and no other label or annotation.\<close>

definition written_as :: "go_map \<Rightarrow> go_map \<Rightarrow> go_map \<Rightarrow> config_map \<Rightarrow> bool" where
  "written_as data labels annotations cm \<longleftrightarrow>
     go_lookup (cm_data cm) = go_lookup data \<and>
     go_lookup (cm_labels cm) = go_lookup labels \<and>
     go_lookup (cm_annotations cm) = go_lookup annotations"

lemma go_get_cong: "go_lookup m = go_lookup m' \<Longrightarrow> go_get m k = go_get m' k"
  by (simp add: go_get_def)

locale kube_contract =
  fixes client :: "'w kube_client"
    and cluster :: "'w \<Rightarrow> string \<times> string \<rightharpoonup> config_map"
  assumes get_source: "GetSourceConfigMap client ns n w = (rs, w') \<Longrightarrow>
      cluster w' = cluster w \<and>
      (\<forall>d. rs = Inr d \<longrightarrow> (\<exists>cm. cluster w (ns, n) = Some cm \<and> go_lookup d = go_lookup (cm_data cm)))"
    and list_namespaces: "ListNamespacesBySelector client ml reqs w = (rn, w') \<Longrightarrow>
      cluster w' = cluster w \<and> (\<forall>nss. rn = Inr nss \<longrightarrow> distinct nss)"
    and get_target: "GetTargetConfigMap client ns n w = (rt, w') \<Longrightarrow>
      cluster w' = cluster w \<and>
      (rt = Inr None \<longrightarrow> cluster w (ns, n) = None) \<and>
      (\<forall>d l a. rt = Inr (Some (d, l, a)) \<longrightarrow>
         (\<exists>cm. cluster w (ns, n) = Some cm \<and> written_as d l a cm))"
    and list_managed: "ListManagedTargetNamespaces client source n w = (rm, w') \<Longrightarrow>
      cluster w' = cluster w \<and>
      (\<forall>nss. rm = Inr nss \<longrightarrow> set nss = {ns. \<exists>cm. cluster w (ns, n) = Some cm \<and> managed_copy source cm})"
    and upsert: "UpsertConfigMap client ns n d l a w = (ru, w') \<Longrightarrow>
      (\<exists>e. ru = Inl e) \<and> cluster w' = cluster w \<or>
      (\<exists>cm. written_as d l a cm \<and> cluster w' = (cluster w)((ns, n) \<mapsto> cm))"
    and delete: "DeleteConfigMap client ns n w = (rd, w') \<Longrightarrow>
      (\<exists>e. rd = Inl e) \<and> cluster w' = cluster w \<or> cluster w' = (cluster w)((ns, n) := None)"
    and update_metadata: "UpdateConfigMapMetadata client ns n l a w = (rx, w') \<Longrightarrow>
      (\<exists>e. rx = Inl e) \<and> cluster w' = cluster w \<or>
      (\<exists>cm cm'. cluster w (ns, n) = Some cm \<and> written_as (cm_data cm) l a cm' \<and>
         cm_binary_data cm' = cm_binary_data cm \<and> cluster w' = (cluster w)((ns, n) \<mapsto> cm'))"

end
