(* ===== verification/Client_Adapter.thy ===== *)
theory Client_Adapter
  imports Kube_Client
begin

text \<open>
  The implementation of \<open>KubeClient\<close> over controller-runtime,
  \<open>pkg/adapters/controller_runtime_client.go\<close>. Two libraries it calls are parameters: the API
  client (\<open>client.Client\<close>, the record \<open>api_client\<close>) and the label selectors of apimachinery (the
  record \<open>labels_lib\<close>). Their documented behaviour is stated as the locale \<open>api_contract\<close> here and
  as \<open>labels_contract\<close> in Label_Selection; the adapter turns the first into \<open>kube_contract\<close>, the
  contract the reconciler relies on.
\<close>

section \<open>The libraries\<close>

record namespace_obj =
  nso_name :: string
  nso_labels :: go_map

record 'w api_client =
  api_get_config_map :: "string \<Rightarrow> string \<Rightarrow> ('w, config_map) call"
  api_list_config_maps :: "go_map \<Rightarrow> ('w, config_map list) call"
  api_list_namespaces :: "('w, namespace_obj list) call"
  api_create_config_map :: "config_map \<Rightarrow> ('w, unit) call"
  api_update_config_map :: "config_map \<Rightarrow> ('w, unit) call"
  api_delete_config_map :: "string \<Rightarrow> string \<Rightarrow> ('w, unit) call"

datatype selection_operator = SelEquals | SelIn | SelNotIn | SelExists | SelDoesNotExist

record ('s, 'r) labels_lib =
  lbl_new_selector :: 's
  lbl_new_requirement :: "string \<Rightarrow> selection_operator \<Rightarrow> string list \<Rightarrow> 'r result"
  lbl_add :: "'s \<Rightarrow> 'r \<Rightarrow> 's"
  lbl_empty :: "'s \<Rightarrow> bool"
  lbl_matches :: "'s \<Rightarrow> go_map \<Rightarrow> bool"

section \<open>Helpers\<close>

definition to_selection_operator :: "string \<Rightarrow> selection_operator result" where
  "to_selection_operator operator =
     (if operator = ''In'' then Inr SelIn
      else if operator = ''NotIn'' then Inr SelNotIn
      else if operator = ''Exists'' then Inr SelExists
      else if operator = ''DoesNotExist'' then Inr SelDoesNotExist
      else Inl (Errorf (''unsupported operator '' @ operator)))"

definition copy_string_map :: "go_map \<Rightarrow> go_map" where
  "copy_string_map source =
     (if go_len source = 0 then None else Some (put_entries fmempty (go_range source)))"

lemma copy_string_map_lookup [simp, go_map_simps]: "go_lookup (copy_string_map m) = go_lookup m"
proof
  fix k
  show "go_lookup (copy_string_map m) k = go_lookup m k"
  proof (cases "go_len m = 0")
    case True
    then have "fmlookup (go_entries m) k = None" by (simp add: go_len_0_iff del: fmlookup_go_entries)
    with True show ?thesis by (simp add: copy_string_map_def)
  qed (simp add: copy_string_map_def)
qed

text \<open>\<open>for key := range m { delete(m, key) }\<close>\<close>

fun delete_keys :: "(string, string) fmap \<Rightarrow> string list \<Rightarrow> (string, string) fmap" where
  "delete_keys m [] = m"
| "delete_keys m (k # ks) = delete_keys (fmdrop k m) ks"

lemma delete_keys_lookup:
  "fmlookup (delete_keys m ks) k = (if k \<in> set ks then None else fmlookup m k)"
  by (induction m ks rule: delete_keys.induct) auto

lemma delete_all_keys [simp]: "delete_keys m (go_range_keys (Some m)) = fmempty"
  by (rule fmap_ext) (auto simp: delete_keys_lookup)

section \<open>The adapter's methods\<close>

definition crc_get_source :: "'w api_client \<Rightarrow> string \<Rightarrow> string \<Rightarrow> ('w, go_map) call" where
  "crc_get_source api namespace name w =
     (case api_get_config_map api namespace name w of
        (Inl err, w1) \<Rightarrow> (Inl err, w1)
      | (Inr configMap, w1) \<Rightarrow> (Inr (copy_string_map (cm_data configMap)), w1))"

text \<open>The two loops that build the selector; both stop at the first invalid requirement.\<close>

fun add_match_labels :: "('s, 'r) labels_lib \<Rightarrow> 's \<Rightarrow> (string \<times> string) list \<Rightarrow> 's result" where
  "add_match_labels lib selector [] = Inr selector"
| "add_match_labels lib selector ((labelKey, labelValue) # rest) =
     (case lbl_new_requirement lib labelKey SelEquals [labelValue] of
        Inl err \<Rightarrow> Inl err
      | Inr requirement \<Rightarrow> add_match_labels lib (lbl_add lib selector requirement) rest)"

fun add_requirements ::
    "('s, 'r) labels_lib \<Rightarrow> 's \<Rightarrow> label_selector_requirement list \<Rightarrow> 's result" where
  "add_requirements lib selector [] = Inr selector"
| "add_requirements lib selector (requirement # rest) =
     (case to_selection_operator (lreq_operator requirement) of
        Inl err \<Rightarrow> Inl err
      | Inr selectionOperator \<Rightarrow>
          (case lbl_new_requirement lib (lreq_key requirement) selectionOperator (lreq_values requirement) of
             Inl err \<Rightarrow> Inl err
           | Inr typedRequirement \<Rightarrow> add_requirements lib (lbl_add lib selector typedRequirement) rest))"

text \<open>\<open>labelOrder\<close> is the order in which the runtime visits \<open>matchLabels\<close>.\<close>

definition crc_list_namespaces_in_order :: "('s, 'r) labels_lib \<Rightarrow> 'w api_client \<Rightarrow>
    (string \<times> string) list \<Rightarrow> label_selector_requirement list \<Rightarrow> ('w, string list) call" where
  "crc_list_namespaces_in_order lib api labelOrder selectorRequirements w =
     (case add_match_labels lib (lbl_new_selector lib) labelOrder of
        Inl err \<Rightarrow> (Inl err, w)
      | Inr selector0 \<Rightarrow>
     (case add_requirements lib selector0 selectorRequirements of
        Inl err \<Rightarrow> (Inl err, w)
      | Inr selector \<Rightarrow>
     (case api_list_namespaces api w of
        (Inl err, w1) \<Rightarrow> (Inl err, w1)
      | (Inr items, w1) \<Rightarrow>
          (Inr (map nso_name
             (filter (\<lambda>item. lbl_empty lib selector \<or> lbl_matches lib selector (nso_labels item)) items)), w1))))"

definition crc_list_namespaces :: "('s, 'r) labels_lib \<Rightarrow> 'w api_client \<Rightarrow>
    go_map \<Rightarrow> label_selector_requirement list \<Rightarrow> ('w, string list) call" where
  "crc_list_namespaces lib api matchLabels = crc_list_namespaces_in_order lib api (go_range matchLabels)"

definition crc_upsert :: "'w api_client \<Rightarrow> string \<Rightarrow> string \<Rightarrow> go_map \<Rightarrow> go_map \<Rightarrow> go_map \<Rightarrow>
    ('w, unit) call" where
  "crc_upsert api namespace name data labelsMap annotations w =
     (case api_get_config_map api namespace name w of
        (Inl err, w1) \<Rightarrow>
          if \<not> is_not_found err then (Inl err, w1)
          else api_create_config_map api
            \<lparr>cm_namespace = namespace, cm_name = name, cm_labels = copy_string_map labelsMap,
             cm_annotations = copy_string_map annotations, cm_data = copy_string_map data,
             cm_binary_data = None, cm_opaque = []\<rparr> w1
      | (Inr existing, w1) \<Rightarrow>
          let existing1 = existing\<lparr>cm_data := copy_string_map data\<rparr>;
              labels0 = (case cm_labels existing1 of None \<Rightarrow> fmempty | Some m \<Rightarrow> m);
              annotations0 = (case cm_annotations existing1 of None \<Rightarrow> fmempty | Some m \<Rightarrow> m);
              labels1 = delete_keys labels0 (go_range_keys (Some labels0));
              annotations1 = delete_keys annotations0 (go_range_keys (Some annotations0));
              labels2 = put_entries labels1 (go_range labelsMap);
              annotations2 = put_entries annotations1 (go_range annotations)
          in api_update_config_map api
               (existing1\<lparr>cm_labels := Some labels2, cm_annotations := Some annotations2\<rparr>) w1)"

definition crc_get_target :: "'w api_client \<Rightarrow> string \<Rightarrow> string \<Rightarrow>
    ('w, (go_map \<times> go_map \<times> go_map) option) call" where
  "crc_get_target api namespace name w =
     (case api_get_config_map api namespace name w of
        (Inl err, w1) \<Rightarrow> if is_not_found err then (Inr None, w1) else (Inl err, w1)
      | (Inr configMap, w1) \<Rightarrow>
          (Inr (Some (copy_string_map (cm_data configMap), copy_string_map (cm_labels configMap),
             copy_string_map (cm_annotations configMap))), w1))"

definition crc_list_managed :: "'w api_client \<Rightarrow> string \<Rightarrow> string \<Rightarrow> ('w, string list) call" where
  "crc_list_managed api source name w =
     (case api_list_config_maps api (Some (fmupd ManagedLabel ''true'' fmempty)) w of
        (Inl err, w1) \<Rightarrow> (Inl err, w1)
      | (Inr items, w1) \<Rightarrow>
          (Inr (map cm_namespace (filter (\<lambda>configMap. \<not> (cm_name configMap \<noteq> name) \<and>
             \<not> (go_get (cm_annotations configMap) SourceAnnotation \<noteq> source)) items)), w1))"

definition crc_delete :: "'w api_client \<Rightarrow> string \<Rightarrow> string \<Rightarrow> ('w, unit) call" where
  "crc_delete api namespace name w =
     (case api_delete_config_map api namespace name w of
        (Inl err, w1) \<Rightarrow> if is_not_found err then (Inr (), w1) else (Inl err, w1)
      | (Inr u, w1) \<Rightarrow> (Inr u, w1))"

definition crc_update_metadata :: "'w api_client \<Rightarrow> string \<Rightarrow> string \<Rightarrow> go_map \<Rightarrow> go_map \<Rightarrow>
    ('w, unit) call" where
  "crc_update_metadata api namespace name labelsMap annotations w =
     (case api_get_config_map api namespace name w of
        (Inl err, w1) \<Rightarrow> (Inl err, w1)
      | (Inr configMap, w1) \<Rightarrow>
          api_update_config_map api
            (configMap\<lparr>cm_labels := copy_string_map labelsMap, cm_annotations := copy_string_map annotations\<rparr>) w1)"

definition NewControllerRuntimeClient :: "('s, 'r) labels_lib \<Rightarrow> 'w api_client \<Rightarrow> 'w kube_client" where
  "NewControllerRuntimeClient lib api =
     \<lparr>GetSourceConfigMap = crc_get_source api,
      ListNamespacesBySelector = crc_list_namespaces lib api,
      UpsertConfigMap = crc_upsert api,
      GetTargetConfigMap = crc_get_target api,
      ListManagedTargetNamespaces = crc_list_managed api,
      DeleteConfigMap = crc_delete api,
      UpdateConfigMapMetadata = crc_update_metadata api\<rparr>"

section \<open>What the API server promises\<close>

text \<open>
  The server keeps the entries of an object's maps (an empty map is stored as an absent one) and
  manages the rest of its metadata itself. \<open>cm_content\<close> is what is compared.
\<close>

definition stored_map :: "go_map \<Rightarrow> go_map" where
  "stored_map m = (if go_entries m = fmempty then None else m)"

definition cm_content :: "config_map \<Rightarrow> config_map" where
  "cm_content cm = cm\<lparr>cm_labels := stored_map (cm_labels cm), cm_annotations := stored_map (cm_annotations cm),
     cm_data := stored_map (cm_data cm), cm_binary_data := stored_map (cm_binary_data cm), cm_opaque := []\<rparr>"

lemma stored_map_lookup [simp, go_map_simps]: "go_lookup (stored_map m) = go_lookup m"
  by (auto simp: stored_map_def go_lookup_def go_entries_def fun_eq_iff split: option.splits)

lemma cm_content_simps [simp]:
  "cm_namespace (cm_content cm) = cm_namespace cm" "cm_name (cm_content cm) = cm_name cm"
  "cm_labels (cm_content cm) = stored_map (cm_labels cm)"
  "cm_annotations (cm_content cm) = stored_map (cm_annotations cm)"
  "cm_data (cm_content cm) = stored_map (cm_data cm)"
  "cm_binary_data (cm_content cm) = stored_map (cm_binary_data cm)"
  by (simp_all add: cm_content_def)

abbreviation cm_key :: "config_map \<Rightarrow> string \<times> string" where
  "cm_key cm \<equiv> (cm_namespace cm, cm_name cm)"

text \<open>
  The ConfigMaps carry no finalizers of their own, so a successful delete removes them. A failed
  write may still have taken effect (a lost reply), except that a not-found delete found nothing.
\<close>

locale api_contract =
  fixes api :: "'w api_client"
    and store :: "'w \<Rightarrow> string \<times> string \<rightharpoonup> config_map"
  assumes api_get: "api_get_config_map api ns n w = (rg, w') \<Longrightarrow>
      store w' = store w \<and>
      (\<forall>cm. rg = Inr cm \<longrightarrow> cm_key cm = (ns, n) \<and> store w (ns, n) = Some (cm_content cm)) \<and>
      (\<forall>e. rg = Inl e \<longrightarrow> is_not_found e \<longrightarrow> store w (ns, n) = None)"
    and api_list: "api_list_config_maps api ls w = (rl, w') \<Longrightarrow>
      store w' = store w \<and>
      (\<forall>cms. rl = Inr cms \<longrightarrow> cm_content ` set cms =
         {cm. store w (cm_key cm) = Some cm \<and>
            (\<forall>k v. go_lookup ls k = Some v \<longrightarrow> go_lookup (cm_labels cm) k = Some v)})"
    and api_stored: "store w k = Some cm \<Longrightarrow> cm_key cm = k"
    and api_namespaces: "api_list_namespaces api w = (rn, w') \<Longrightarrow>
      store w' = store w \<and> (\<forall>nss. rn = Inr nss \<longrightarrow> distinct (map nso_name nss))"
    and api_create: "api_create_config_map api cm w = (rc, w') \<Longrightarrow>
      (\<exists>e. rc = Inl e) \<and> store w' = store w \<or>
      store w' = (store w)(cm_key cm \<mapsto> cm_content cm)"
    and api_update: "api_update_config_map api cm w = (ru, w') \<Longrightarrow>
      (\<exists>e. ru = Inl e) \<and> store w' = store w \<or>
      store w' = (store w)(cm_key cm \<mapsto> cm_content cm)"
    and api_delete: "api_delete_config_map api ns n w = (rd, w') \<Longrightarrow>
      (\<exists>e. rd = Inl e) \<and> store w' = store w \<or> store w' = (store w)((ns, n) := None)"
    and api_delete_missing: "api_delete_config_map api ns n w = (Inl e, w') \<Longrightarrow> is_not_found e \<Longrightarrow>
      store w (ns, n) = None"
begin

lemma crc_upsert_effect:
  assumes "crc_upsert api ns n d l a w = (r, w')"
  shows "(\<exists>e. r = Inl e) \<and> store w' = store w \<or>
    (\<exists>cm. written_as d l a cm \<and> store w' = (store w)((ns, n) \<mapsto> cm))"
proof (cases "api_get_config_map api ns n w")
  case (Pair g w1)
  note get = api_get [OF Pair]
  show ?thesis
  proof (cases g)
    case (Inl e)
    show ?thesis
    proof (cases "is_not_found e")
      case True
      let ?cm = "\<lparr>cm_namespace = ns, cm_name = n, cm_labels = copy_string_map l,
        cm_annotations = copy_string_map a, cm_data = copy_string_map d,
        cm_binary_data = None, cm_opaque = []\<rparr>"
      have "written_as d l a (cm_content ?cm)" by (simp add: written_as_def)
      moreover have "api_create_config_map api ?cm w1 = (r, w')"
        using assms True by (simp add: crc_upsert_def Pair Inl)
      ultimately show ?thesis using api_create [of ?cm w1 r w'] get by auto
    next
      case False
      then show ?thesis using assms get by (auto simp: crc_upsert_def Pair Inl)
    qed
  next
    case (Inr cm)
    then have key: "cm_key cm = (ns, n)" using get by simp
    let ?cm = "cm\<lparr>cm_data := copy_string_map d, cm_labels := Some (go_entries l),
      cm_annotations := Some (go_entries a)\<rparr>"
    have "go_lookup (Some (go_entries x)) = go_lookup x" for x by (rule ext) simp
    then have "written_as d l a (cm_content ?cm)" by (simp add: written_as_def)
    moreover have "api_update_config_map api ?cm w1 = (r, w')"
      using assms by (simp add: crc_upsert_def Pair Inr Let_def)
    ultimately show ?thesis using api_update [of ?cm w1 r w'] get key by auto
  qed
qed

lemma crc_update_metadata_effect:
  assumes "crc_update_metadata api ns n l a w = (r, w')"
  shows "(\<exists>e. r = Inl e) \<and> store w' = store w \<or>
    (\<exists>cm cm'. store w (ns, n) = Some cm \<and> written_as (cm_data cm) l a cm' \<and>
       cm_binary_data cm' = cm_binary_data cm \<and> store w' = (store w)((ns, n) \<mapsto> cm'))"
proof (cases "api_get_config_map api ns n w")
  case (Pair g w1)
  note get = api_get [OF Pair]
  show ?thesis
  proof (cases g)
    case (Inl e)
    then show ?thesis using assms get by (auto simp: crc_update_metadata_def Pair)
  next
    case (Inr cm)
    let ?cm = "cm\<lparr>cm_labels := copy_string_map l, cm_annotations := copy_string_map a\<rparr>"
    have "written_as (cm_data (cm_content cm)) l a (cm_content ?cm)" by (simp add: written_as_def)
    moreover have "api_update_config_map api ?cm w1 = (r, w')"
      using assms by (simp add: crc_update_metadata_def Pair Inr)
    ultimately show ?thesis using api_update [of ?cm w1 r w'] get Inr
      by (auto intro!: exI [of _ "cm_content cm"] exI [of _ "cm_content ?cm"])
  qed
qed

lemma go_get_true: "go_get m k = ''true'' \<longleftrightarrow> go_lookup m k = Some ''true''"
  by (auto simp: go_get_def split: option.splits)

lemma crc_list_managed_effect:
  assumes "crc_list_managed api source n w = (r, w')"
  shows "store w' = store w \<and>
    (\<forall>nss. r = Inr nss \<longrightarrow> set nss = {ns. \<exists>cm. store w (ns, n) = Some cm \<and> managed_copy source cm})"
proof (cases "api_list_config_maps api (Some (fmupd ManagedLabel ''true'' fmempty)) w")
  case (Pair g w1)
  note lst = api_list [OF Pair]
  show ?thesis
  proof (cases g)
    case (Inl e)
    then show ?thesis using assms lst by (auto simp: crc_list_managed_def Pair)
  next
    case (Inr cms)
    have mem: "cm_content ` set cms = {cm. store w (cm_key cm) = Some cm \<and>
        go_lookup (cm_labels cm) ManagedLabel = Some ''true''}"
      using lst Inr by simp
    have r: "r = Inr (map cm_namespace (filter (\<lambda>cm. cm_name cm = n \<and>
        go_get (cm_annotations cm) SourceAnnotation = source) cms))" "w' = w1"
      using assms by (auto simp: crc_list_managed_def Pair Inr)
    have "ns \<in> cm_namespace ` {cm \<in> set cms. cm_name cm = n \<and> go_get (cm_annotations cm) SourceAnnotation = source}
        \<longleftrightarrow> (\<exists>cm. store w (ns, n) = Some cm \<and> managed_copy source cm)" (is "?L \<longleftrightarrow> ?R") for ns
    proof
      assume ?L
      then obtain cm where cm: "cm \<in> set cms" "cm_key cm = (ns, n)"
        "go_get (cm_annotations cm) SourceAnnotation = source" by auto
      then have "cm_content cm \<in> {cm. store w (cm_key cm) = Some cm \<and>
          go_lookup (cm_labels cm) ManagedLabel = Some ''true''}" using mem by blast
      with cm show ?R
        by (intro exI [of _ "cm_content cm"]) (auto simp: managed_copy_def go_get_def)
    next
      assume ?R
      then obtain cm where cm: "store w (ns, n) = Some cm" "managed_copy source cm" by blast
      then have "cm \<in> cm_content ` set cms"
        using mem api_stored [OF cm(1)] by (auto simp: managed_copy_def go_get_true)
      then obtain c where c: "c \<in> set cms" "cm = cm_content c" by blast
      with cm api_stored [OF cm(1)] show ?L
        by (intro image_eqI [of _ _ c]) (auto simp: managed_copy_def go_get_def)
    qed
    then show ?thesis using lst Inr r by auto
  qed
qed

lemma crc_get_source_effect:
  assumes "crc_get_source api ns n w = (r, w')"
  shows "store w' = store w \<and>
    (\<forall>d. r = Inr d \<longrightarrow> (\<exists>cm. store w (ns, n) = Some cm \<and> go_lookup d = go_lookup (cm_data cm)))"
  using assms api_get [of ns n w]
  by (cases "api_get_config_map api ns n w") (auto simp: crc_get_source_def split: sum.splits)

lemma crc_get_target_effect:
  assumes "crc_get_target api ns n w = (r, w')"
  shows "store w' = store w \<and> (r = Inr None \<longrightarrow> store w (ns, n) = None) \<and>
    (\<forall>d l a. r = Inr (Some (d, l, a)) \<longrightarrow> (\<exists>cm. store w (ns, n) = Some cm \<and> written_as d l a cm))"
  using assms api_get [of ns n w]
  by (cases "api_get_config_map api ns n w")
    (auto simp: crc_get_target_def written_as_def split: sum.splits if_splits)

lemma crc_list_namespaces_effect:
  assumes "crc_list_namespaces_in_order lib api order reqs w = (r, w')"
  shows "store w' = store w \<and> (\<forall>nss. r = Inr nss \<longrightarrow> distinct nss)"
  using assms api_namespaces [of w]
  by (cases "api_list_namespaces api w")
    (auto simp: crc_list_namespaces_in_order_def distinct_map_filter split: sum.splits)

lemma crc_delete_effect:
  assumes "crc_delete api ns n w = (r, w')"
  shows "(\<exists>e. r = Inl e) \<and> store w' = store w \<or> store w' = (store w)((ns, n) := None)"
proof (cases "api_delete_config_map api ns n w")
  case (Pair g w1)
  show ?thesis
    using assms api_delete [OF Pair] api_delete_missing [of ns n w _ w1] Pair
    by (cases g) (auto simp: crc_delete_def fun_upd_idem_iff split: if_splits)
qed

lemmas adapter_effects =
  crc_get_source_effect crc_get_target_effect crc_list_namespaces_effect crc_delete_effect
  crc_upsert_effect crc_update_metadata_effect crc_list_managed_effect

end

text \<open>An API client that keeps its promises makes the adapter a KubeClient that keeps its own.\<close>

sublocale api_contract \<subseteq> adapter: kube_contract "NewControllerRuntimeClient lib api" store
  for lib
  by unfold_locales
    (unfold NewControllerRuntimeClient_def kube_client.simps crc_list_namespaces_def, (erule adapter_effects)+)

context api_contract
begin

lemma adapter_contract: "kube_contract (NewControllerRuntimeClient lib api) store"
  by (rule adapter.kube_contract_axioms)

end

end
