(* ===== verification/Reconciler.thy ===== *)
theory Reconciler
  imports Core_Queue Core_Rollout Core_Hash Core_Validation Kube_Client Telemetry
begin

text \<open>
  The reconciler of \<open>pkg/controllers/configpropagation/controller.go\<close>: its state, every function of
  the file, and nothing else; the properties are in the theories that import this one. A
  function takes the KubeClient it calls, then the arguments of the source, then the state, and
  returns its results with the new state. \<open>(T, error)\<close> results are sums, except for
  \<open>syncTargets\<close>, whose partial outcome is returned beside the error.
\<close>

section \<open>State\<close>

record reconcile_key =
  key_namespace :: string
  key_name :: string

definition namespaced_name_of :: "reconcile_key \<Rightarrow> namespaced_name" where
  "namespaced_name_of key = \<lparr>nn_namespace = key_namespace key, nn_name = key_name key\<rparr>"

text \<open>
  The world the KubeClient acts on, the work queue, the planner, and the calls made so far to
  the event and metrics recorders.
\<close>

record 'w reconciler =
  rc_world :: 'w
  rc_queue :: "reconcile_key work_queue"
  rc_planner :: rollout_planner
  rc_log :: "telemetry list"

definition NewReconciler :: "'w \<Rightarrow> 'w reconciler" where
  "NewReconciler w =
     \<lparr>rc_world = w, rc_queue = NewWorkQueue, rc_planner = NewRolloutPlanner, rc_log = []\<rparr>"

definition emit :: "telemetry \<Rightarrow> 'w reconciler \<Rightarrow> 'w reconciler" where
  "emit t s = s\<lparr>rc_log := rc_log s @ [t]\<rparr>"

definition run_call :: "('w, 'a) call \<Rightarrow> 'w reconciler \<Rightarrow> 'a result \<times> 'w reconciler" where
  "run_call f s = (case f (rc_world s) of (r, w) \<Rightarrow> (r, s\<lparr>rc_world := w\<rparr>))"

text \<open>The three triggers all enqueue the key.\<close>

definition OnCRChange :: "string \<Rightarrow> string \<Rightarrow> 'w reconciler \<Rightarrow> 'w reconciler" where
  "OnCRChange namespace name s =
     s\<lparr>rc_queue := wq_Add \<lparr>key_namespace = namespace, key_name = name\<rparr> (rc_queue s)\<rparr>"

definition OnSourceChange :: "string \<Rightarrow> string \<Rightarrow> 'w reconciler \<Rightarrow> 'w reconciler" where
  "OnSourceChange namespace name s =
     s\<lparr>rc_queue := wq_Add \<lparr>key_namespace = namespace, key_name = name\<rparr> (rc_queue s)\<rparr>"

definition OnNamespaceLabelChange :: "string \<Rightarrow> string \<Rightarrow> 'w reconciler \<Rightarrow> 'w reconciler" where
  "OnNamespaceLabelChange namespace name s =
     s\<lparr>rc_queue := wq_Add \<lparr>key_namespace = namespace, key_name = name\<rparr> (rc_queue s)\<rparr>"

section \<open>Recording\<close>

definition eventReasonConfigCreated :: string where "eventReasonConfigCreated = ''ConfigCreated''"
definition eventReasonConfigUpdated :: string where "eventReasonConfigUpdated = ''ConfigUpdated''"
definition eventReasonConfigSkipped :: string where "eventReasonConfigSkipped = ''ConfigSkipped''"
definition eventReasonConfigPruned :: string where "eventReasonConfigPruned = ''ConfigPruned''"
definition eventReasonConfigError :: string where "eventReasonConfigError = ''ConfigError''"

text \<open>Texts of the source that are used as they stand.\<close>

definition reason_unmanaged :: string where
  "reason_unmanaged = ''existing unmanaged ConfigMap (conflictPolicy=skip)''"
definition reason_up_to_date :: string where
  "reason_up_to_date = ''already up to date''"
definition reason_detached :: string where
  "reason_detached = ''detached from management''"

definition record_create :: "reconcile_key \<Rightarrow> string \<Rightarrow> string \<Rightarrow> 'w reconciler \<Rightarrow> 'w reconciler" where
  "record_create key namespace name s =
     emit (Normalf (namespaced_name_of key) eventReasonConfigCreated
         (''Created ConfigMap '' @ namespace @ ''/'' @ name))
       (emit (AddPropagations MetricsActionCreate 1) s)"

definition record_update :: "reconcile_key \<Rightarrow> string \<Rightarrow> string \<Rightarrow> 'w reconciler \<Rightarrow> 'w reconciler" where
  "record_update key namespace name s =
     emit (Normalf (namespaced_name_of key) eventReasonConfigUpdated
         (''Updated ConfigMap '' @ namespace @ ''/'' @ name))
       (emit (AddPropagations MetricsActionUpdate 1) s)"

definition record_skip :: "reconcile_key \<Rightarrow> string \<Rightarrow> string \<Rightarrow> string \<Rightarrow> 'w reconciler \<Rightarrow> 'w reconciler" where
  "record_skip key namespace name reason s =
     emit (Normalf (namespaced_name_of key) eventReasonConfigSkipped
         (''Skipped ConfigMap '' @ namespace @ ''/'' @ name @ '': '' @ reason))
       (emit (AddPropagations MetricsActionSkip 1) s)"

definition record_prune :: "reconcile_key \<Rightarrow> string \<Rightarrow> string \<Rightarrow> 'w reconciler \<Rightarrow> 'w reconciler" where
  "record_prune key namespace name s =
     emit (Normalf (namespaced_name_of key) eventReasonConfigPruned
         (''Pruned ConfigMap '' @ namespace @ ''/'' @ name))
       (emit (AddPropagations MetricsActionPrune 1) s)"

definition record_error :: "reconcile_key \<Rightarrow> string \<Rightarrow> string \<Rightarrow> go_error \<Rightarrow> 'w reconciler \<Rightarrow>
    go_error \<times> 'w reconciler" where
  "record_error key stage message err s =
     (Wrapped message err,
      emit (Warningf (namespaced_name_of key) eventReasonConfigError (message @ '': '' @ error_text err))
        (emit (IncError stage) s))"

section \<open>Desired state\<close>

definition nil_if_empty :: "go_map \<Rightarrow> go_map" where
  "nil_if_empty m = (if go_len m = 0 then None else m)"

text \<open>The loop over the selected keys; a key that the source lacks is passed over.\<close>

fun select_keys :: "go_map \<Rightarrow> string list \<Rightarrow> (string, string) fmap \<Rightarrow> (string, string) fmap" where
  "select_keys sourceData [] effective = effective"
| "select_keys sourceData (key # selectedKeys) effective =
     (case go_lookup sourceData key of
        Some v \<Rightarrow> select_keys sourceData selectedKeys (fmupd key v effective)
      | None \<Rightarrow> select_keys sourceData selectedKeys effective)"

definition compute_effective :: "go_map \<Rightarrow> string list \<Rightarrow> go_map" where
  "compute_effective sourceData selectedKeys =
     (let source = (case sourceData of None \<Rightarrow> Some fmempty | Some m \<Rightarrow> Some m)
      in if selectedKeys = [] then Some (put_entries fmempty (go_range source))
         else Some (select_keys source selectedKeys fmempty))"

definition to_requirement :: "label_selector_req \<Rightarrow> label_selector_requirement" where
  "to_requirement expression = \<lparr>lreq_key = lsr_key expression, lreq_operator = lsr_operator expression,
     lreq_values = lsr_values expression\<rparr>"

definition list_targets :: "'w kube_client \<Rightarrow> label_selector \<Rightarrow> 'w reconciler \<Rightarrow>
    string list result \<times> 'w reconciler" where
  "list_targets client selector s =
     run_call (ListNamespacesBySelector client (nil_if_empty (ls_match_labels selector))
       (map to_requirement (ls_match_expressions selector))) s"

definition plan_targets :: "reconcile_key \<Rightarrow> string \<Rightarrow> string list \<Rightarrow> string \<Rightarrow> int32 \<Rightarrow>
    'w reconciler \<Rightarrow> (string list \<times> nat) \<times> 'w reconciler" where
  "plan_targets key rolloutHash candidates strategy batchSize s =
     (case plan (namespaced_name_of key) rolloutHash strategy batchSize candidates (rc_planner s) of
        (r, p) \<Rightarrow> (r, s\<lparr>rc_planner := p\<rparr>))"

section \<open>syncTargets\<close>

record sync_outcome =
  so_completed :: "string list"
  so_out_of_sync :: "out_of_sync_item list"

definition source_id :: "string \<Rightarrow> string \<Rightarrow> string" where
  "source_id namespace name = namespace @ ''/'' @ name"

definition managed_labels :: go_map where
  "managed_labels = Some (fmupd ManagedLabel ''true'' fmempty)"

definition managed_annotations :: "string \<Rightarrow> string \<Rightarrow> go_map" where
  "managed_annotations source contentHash =
     Some (fmupd HashAnnotation contentHash (fmupd SourceAnnotation source fmempty))"

definition conflict_item :: "string \<Rightarrow> out_of_sync_item" where
  "conflict_item ns = \<lparr>oos_namespace = ns, oos_reason = ''ConflictPolicySkip'',
     oos_message = ''existing ConfigMap is unmanaged and conflictPolicy=skip''\<rparr>"

lemma oos_namespace_conflict_item [simp]: "oos_namespace (conflict_item ns) = ns"
  by (simp add: conflict_item_def)

text \<open>The loop body for one target: the outcome so far and, if the loop must stop, the error.\<close>

definition sync_target :: "'w kube_client \<Rightarrow> reconcile_key \<Rightarrow> string \<Rightarrow> go_map \<Rightarrow> string \<Rightarrow> string \<Rightarrow> string \<Rightarrow>
    string \<Rightarrow> sync_outcome \<Rightarrow> 'w reconciler \<Rightarrow> (sync_outcome \<times> go_error option) \<times> 'w reconciler" where
  "sync_target client key name effective contentHash source policy ns outcome s =
     (case run_call (GetTargetConfigMap client ns name) s of
        (Inl err, s1) \<Rightarrow>
          (case record_error key ''target_lookup'' (''get target '' @ ns @ ''/'' @ name) err s1 of
             (e, s2) \<Rightarrow> ((outcome, Some e), s2))
      | (Inr target, s1) \<Rightarrow>
          let found = (target \<noteq> None);
              labels = (case target of None \<Rightarrow> None | Some (d, l, a) \<Rightarrow> l);
              annotations = (case target of None \<Rightarrow> None | Some (d, l, a) \<Rightarrow> a);
              managed = (found \<and>
                 (labels \<noteq> None \<and> go_get labels ManagedLabel = ''true''
                  \<or> annotations \<noteq> None \<and> go_get annotations SourceAnnotation = source))
          in if found \<and> \<not> managed \<and> policy = ConflictSkip then
               ((outcome\<lparr>so_out_of_sync := so_out_of_sync outcome @
                   [conflict_item ns]\<rparr>, None),
                record_skip key ns name reason_unmanaged s1)
             else if found \<and> managed \<and> go_get annotations HashAnnotation = contentHash then
               ((outcome\<lparr>so_completed := so_completed outcome @ [ns]\<rparr>, None),
                record_skip key ns name reason_up_to_date s1)
             else
               (case run_call (UpsertConfigMap client ns name effective managed_labels
                   (managed_annotations source contentHash)) s1 of
                  (Inl err, s2) \<Rightarrow>
                    (case record_error key ''upsert'' (''upsert '' @ ns @ ''/'' @ name) err s2 of
                       (e, s3) \<Rightarrow> ((outcome, Some e), s3))
                | (Inr _, s2) \<Rightarrow>
                    ((outcome\<lparr>so_completed := so_completed outcome @ [ns]\<rparr>, None),
                     if found then record_update key ns name s2 else record_create key ns name s2)))"

fun sync_loop :: "'w kube_client \<Rightarrow> reconcile_key \<Rightarrow> string \<Rightarrow> go_map \<Rightarrow> string \<Rightarrow> string \<Rightarrow> string \<Rightarrow>
    string list \<Rightarrow> sync_outcome \<Rightarrow> 'w reconciler \<Rightarrow> (sync_outcome \<times> go_error option) \<times> 'w reconciler" where
  "sync_loop client key name effective contentHash source policy [] outcome s = ((outcome, None), s)"
| "sync_loop client key name effective contentHash source policy (ns # rest) outcome s =
     (case sync_target client key name effective contentHash source policy ns outcome s of
        ((outcome1, Some e), s1) \<Rightarrow> ((outcome1, Some e), s1)
      | ((outcome1, None), s1) \<Rightarrow>
          sync_loop client key name effective contentHash source policy rest outcome1 s1)"

definition sync_targets :: "'w kube_client \<Rightarrow> reconcile_key \<Rightarrow> string list \<Rightarrow> string \<Rightarrow> go_map \<Rightarrow> string \<Rightarrow>
    string \<Rightarrow> string \<Rightarrow> 'w reconciler \<Rightarrow> (sync_outcome \<times> go_error option) \<times> 'w reconciler" where
  "sync_targets client key planned name effective contentHash sourceNamespace policy s =
     sync_loop client key name effective contentHash (source_id sourceNamespace name) policy planned
       \<lparr>so_completed = [], so_out_of_sync = []\<rparr> s"

section \<open>cleanupDeselected\<close>

text \<open>The body for one managed namespace that is no longer selected.\<close>

definition cleanup_target :: "'w kube_client \<Rightarrow> reconcile_key \<Rightarrow> string \<Rightarrow> bool \<Rightarrow> string \<Rightarrow>
    'w reconciler \<Rightarrow> go_error option \<times> 'w reconciler" where
  "cleanup_target client key name shouldPrune ns s =
     (if shouldPrune then
        (case run_call (DeleteConfigMap client ns name) s of
           (Inl err, s1) \<Rightarrow>
             (case record_error key ''prune'' (''delete '' @ ns @ ''/'' @ name) err s1 of
                (e, s2) \<Rightarrow> (Some e, s2))
         | (Inr _, s1) \<Rightarrow> (None, record_prune key ns name s1))
      else
        (case run_call (GetTargetConfigMap client ns name) s of
           (Inl err, s1) \<Rightarrow>
             (case record_error key ''target_lookup'' (''get target '' @ ns @ ''/'' @ name) err s1 of
                (e, s2) \<Rightarrow> (Some e, s2))
         | (Inr None, s1) \<Rightarrow> (None, s1)
         | (Inr (Some (d, labels, annotations)), s1) \<Rightarrow>
             let labels1 = go_delete labels ManagedLabel;
                 annotations1 = go_delete (go_delete annotations SourceAnnotation) HashAnnotation
             in (case run_call (UpdateConfigMapMetadata client ns name labels1 annotations1) s1 of
                   (Inl err, s2) \<Rightarrow>
                     (case record_error key ''detach'' (''detach '' @ ns @ ''/'' @ name) err s2 of
                        (e, s3) \<Rightarrow> (Some e, s3))
                 | (Inr _, s2) \<Rightarrow> (None, record_skip key ns name reason_detached s2))))"

fun cleanup_loop :: "'w kube_client \<Rightarrow> reconcile_key \<Rightarrow> string \<Rightarrow> bool \<Rightarrow> string set \<Rightarrow> string list \<Rightarrow>
    'w reconciler \<Rightarrow> go_error option \<times> 'w reconciler" where
  "cleanup_loop client key name shouldPrune selected [] s = (None, s)"
| "cleanup_loop client key name shouldPrune selected (ns # rest) s =
     (if ns \<in> selected then cleanup_loop client key name shouldPrune selected rest s
      else case cleanup_target client key name shouldPrune ns s of
          (Some e, s1) \<Rightarrow> (Some e, s1)
        | (None, s1) \<Rightarrow> cleanup_loop client key name shouldPrune selected rest s1)"

definition cleanup_deselected :: "'w kube_client \<Rightarrow> reconcile_key \<Rightarrow> config_propagation_spec \<Rightarrow>
    string list \<Rightarrow> 'w reconciler \<Rightarrow> go_error option \<times> 'w reconciler" where
  "cleanup_deselected client key spec selected s =
     (let shouldPrune = (case sp_prune spec of None \<Rightarrow> True | Some b \<Rightarrow> b);
          name = ref_name (sp_source_ref spec);
          source = source_id (ref_namespace (sp_source_ref spec)) name
      in case run_call (ListManagedTargetNamespaces client source name) s of
           (Inl err, s1) \<Rightarrow>
             (case record_error key ''list_managed'' ''list managed targets'' err s1 of
                (e, s2) \<Rightarrow> (Some e, s2))
         | (Inr managed, s1) \<Rightarrow> cleanup_loop client key name shouldPrune (set selected) managed s1)"

section \<open>Reconcile\<close>

fun report_pending :: "string \<Rightarrow> string \<Rightarrow> string set \<Rightarrow> string set \<Rightarrow> string list \<Rightarrow>
    out_of_sync_item list \<Rightarrow> out_of_sync_item list" where
  "report_pending reason message completed reported [] items = items"
| "report_pending reason message completed reported (ns # targets) items =
     (if ns \<in> completed \<or> ns \<in> reported then report_pending reason message completed reported targets items
      else report_pending reason message completed reported targets
        (items @ [\<lparr>oos_namespace = ns, oos_reason = reason, oos_message = message\<rparr>]))"

text \<open>
  The part of \<open>reconcileImpl\<close> between the writes and the cleanup: the completed count and the
  out-of-sync list, by strategy.
\<close>

definition account_targets :: "reconcile_key \<Rightarrow> string \<Rightarrow> string \<Rightarrow> string list \<Rightarrow> sync_outcome \<Rightarrow>
    'w reconciler \<Rightarrow> (nat \<times> out_of_sync_item list) \<times> 'w reconciler" where
  "account_targets key strategy rolloutHash targets summary s =
     (let identifier = \<lparr>nn_namespace = key_namespace key, nn_name = key_name key\<rparr>;
          items = so_out_of_sync summary;
          reported = set (map oos_namespace items)
      in if strategy = StrategyRolling then
           (case mark_completed identifier rolloutHash (so_completed summary) (rc_planner s) of
              (n, p) \<Rightarrow>
                ((n, report_pending ''PendingRollout'' ''namespace awaiting rollout batch''
                     (set (completed_namespaces identifier rolloutHash p)) reported targets items),
                 s\<lparr>rc_planner := p\<rparr>))
         else
           ((length (so_completed summary),
             report_pending ''PendingSync'' ''namespace not synchronized''
               (set (so_completed summary)) reported targets items),
            s\<lparr>rc_planner := forget identifier (rc_planner s)\<rparr>))"

definition reconcile_impl :: "'w kube_client \<Rightarrow> reconcile_key \<Rightarrow> config_propagation_spec \<Rightarrow>
    'w reconciler \<Rightarrow> rollout_result result \<times> 'w reconciler" where
  "reconcile_impl client key spec s =
     (let srcNs = ref_namespace (sp_source_ref spec); srcName = ref_name (sp_source_ref spec)
      in case run_call (GetSourceConfigMap client srcNs srcName) s of
        (Inl err, s1) \<Rightarrow>
          (case record_error key ''source_fetch'' (''get source '' @ srcNs @ ''/'' @ srcName) err s1 of
             (e, s2) \<Rightarrow> (Inl e, s2))
      | (Inr sourceData, s1) \<Rightarrow>
     (let effective = compute_effective sourceData (sp_data_keys spec)
      in case sp_namespace_selector spec of
        None \<Rightarrow> (Inl (Panic ''nil pointer dereference''), s1)
      | Some selector \<Rightarrow>
     (case list_targets client selector s1 of
        (Inl err, s2) \<Rightarrow>
          (case record_error key ''namespace_list'' ''list namespaces'' err s2 of (e, s3) \<Rightarrow> (Inl e, s3))
      | (Inr listed, s2) \<Rightarrow>
     (let targets = sort listed
      in case sp_strategy spec of
        None \<Rightarrow> (Inl (Panic ''nil pointer dereference''), s2)
      | Some st \<Rightarrow>
     (let batchSize = (case us_batch_size st of None \<Rightarrow> 5 | Some b \<Rightarrow> b);
          rolloutHash = HashData effective
      in case plan_targets key rolloutHash targets (us_type st) batchSize s2 of
        ((planned, _), s3) \<Rightarrow>
     (case sync_targets client key planned srcName effective rolloutHash srcNs (sp_conflict_policy spec) s3 of
        ((_, Some e), s4) \<Rightarrow> (Inl e, s4)
      | ((summary, None), s4) \<Rightarrow>
     (case account_targets key (us_type st) rolloutHash targets summary s4 of
        ((completedCount, outOfSync), s5) \<Rightarrow>
     (case cleanup_deselected client key spec targets s5 of
        (Some e, s6) \<Rightarrow> (Inl e, s6)
      | (None, s6) \<Rightarrow>
          (Inr \<lparr>rr_planned = planned, rr_total_targets = length targets,
             rr_completed_count = completedCount, rr_out_of_sync = outOfSync\<rparr>, s6)))))))))"

text \<open>
  \<open>Reconcile\<close> defaults the caller's spec in place, so the spec is among its results; \<open>elapsed\<close> is
  the measured duration.
\<close>

definition Reconcile :: "(string \<Rightarrow> string) \<Rightarrow> 'w kube_client \<Rightarrow> int \<Rightarrow> reconcile_key \<Rightarrow>
    config_propagation_spec option \<Rightarrow> 'w reconciler \<Rightarrow>
    (rollout_result result \<times> config_propagation_spec option) \<times> 'w reconciler" where
  "Reconcile env client elapsed key spec s =
     (case spec of
        None \<Rightarrow> ((Inl (Errorf ''spec is nil''), None), s)
      | Some given \<Rightarrow>
     (let sp = DefaultSpec env given
      in case ValidateSpec (Some sp) of
        Some err \<Rightarrow> ((Inl err, Some sp), s)
      | None \<Rightarrow>
     (case reconcile_impl client key sp s of
        (Inl err, s1) \<Rightarrow> ((Inl err, Some sp), emit (ObserveReconcileDuration elapsed) s1)
      | (Inr result, s1) \<Rightarrow>
          ((Inr result, Some sp),
           emit (ObserveReconcileDuration elapsed)
             (emit (ObserveTargets (rr_total_targets result) (length (rr_out_of_sync result))) s1)))))"

definition Finalize :: "(string \<Rightarrow> string) \<Rightarrow> 'w kube_client \<Rightarrow> reconcile_key \<Rightarrow>
    config_propagation_spec option \<Rightarrow> 'w reconciler \<Rightarrow>
    (go_error option \<times> config_propagation_spec option) \<times> 'w reconciler" where
  "Finalize env client key spec s =
     (case spec of
        None \<Rightarrow> ((Some (Errorf ''spec is nil''), None), s)
      | Some given \<Rightarrow>
     (let sp = DefaultSpec env given
      in case ValidateSpec (Some sp) of
        Some err \<Rightarrow> ((Some err, Some sp), s)
      | None \<Rightarrow>
     (case cleanup_deselected client key sp [] s of (e, s1) \<Rightarrow> ((e, Some sp), s1))))"

end
