(* ===== verification/Reconciler_Lemmas.thy ===== *)
theory Reconciler_Lemmas
  imports Reconciler "HOL-Library.Multiset"
begin

text \<open>
  The facts the properties of the reconciler share: which parts of the state each function
  leaves alone, a case rule for the body of each loop, and the outcome of the loops by
  induction, for any KubeClient.
\<close>

section \<open>Frames\<close>

lemma emit_simps [simp]:
  "rc_world (emit t s) = rc_world s" "rc_queue (emit t s) = rc_queue s"
  "rc_planner (emit t s) = rc_planner s" "rc_log (emit t s) = rc_log s @ [t]"
  by (simp_all add: emit_def)

lemmas record_defs =
  record_create_def record_update_def record_skip_def record_prune_def record_error_def

lemma run_callD:
  assumes "run_call f s = (r, s1)"
  shows "f (rc_world s) = (r, rc_world s1)" "rc_planner s1 = rc_planner s"
    "rc_queue s1 = rc_queue s" "rc_log s1 = rc_log s"
  using assms by (auto simp: run_call_def split: prod.splits)

lemma run_call_frame:
  "run_call f s = (r, s1) \<Longrightarrow> f (rc_world s) = (r, rc_world s1) \<and> rc_planner s1 = rc_planner s \<and>
     rc_queue s1 = rc_queue s \<and> rc_log s1 = rc_log s"
  using run_callD by blast

text \<open>The two shapes in which a step leaves the log.\<close>

definition action_logged :: "reconcile_key \<Rightarrow> string \<Rightarrow> string \<Rightarrow> string \<Rightarrow> 'w reconciler \<Rightarrow> 'w reconciler" where
  "action_logged key action reason msg s =
     emit (Normalf (namespaced_name_of key) reason msg) (emit (AddPropagations action 1) s)"

definition error_logged :: "reconcile_key \<Rightarrow> string \<Rightarrow> string \<Rightarrow> go_error \<Rightarrow> 'w reconciler \<Rightarrow> 'w reconciler" where
  "error_logged key stage msg err s =
     emit (Warningf (namespaced_name_of key) eventReasonConfigError (msg @ '': '' @ error_text err))
       (emit (IncError stage) s)"

lemma logged_simps [simp]:
  "rc_world (action_logged key action reason msg s) = rc_world s"
  "rc_planner (action_logged key action reason msg s) = rc_planner s"
  "rc_queue (action_logged key action reason msg s) = rc_queue s"
  "rc_log (action_logged key action reason msg s) = rc_log s @
     [AddPropagations action 1, Normalf (namespaced_name_of key) reason msg]"
  "rc_world (error_logged key stage msg err s) = rc_world s"
  "rc_planner (error_logged key stage msg err s) = rc_planner s"
  "rc_queue (error_logged key stage msg err s) = rc_queue s"
  "rc_log (error_logged key stage msg err s) = rc_log s @
     [IncError stage, Warningf (namespaced_name_of key) eventReasonConfigError (msg @ '': '' @ error_text err)]"
  by (simp_all add: action_logged_def error_logged_def)

lemma record_error_logged: "record_error key stage msg err s = (Wrapped msg err, error_logged key stage msg err s)"
  by (simp only: record_error_def error_logged_def)

lemma record_skip_logged:
  "\<exists>msg. record_skip key ns name reason s = action_logged key MetricsActionSkip eventReasonConfigSkipped msg s"
  unfolding record_skip_def action_logged_def by (rule exI, rule refl)

lemma record_create_logged:
  "\<exists>msg. record_create key ns name s = action_logged key MetricsActionCreate eventReasonConfigCreated msg s"
  unfolding record_create_def action_logged_def by (rule exI, rule refl)

lemma record_update_logged:
  "\<exists>msg. record_update key ns name s = action_logged key MetricsActionUpdate eventReasonConfigUpdated msg s"
  unfolding record_update_def action_logged_def by (rule exI, rule refl)

lemma record_prune_logged:
  "\<exists>msg. record_prune key ns name s = action_logged key MetricsActionPrune eventReasonConfigPruned msg s"
  unfolding record_prune_def action_logged_def by (rule exI, rule refl)

lemma record_frames [simp]:
  "rc_planner (record_skip key ns name reason s) = rc_planner s"
  "rc_queue (record_skip key ns name reason s) = rc_queue s"
  "rc_world (record_skip key ns name reason s) = rc_world s"
  "rc_planner (record_create key ns name s) = rc_planner s"
  "rc_queue (record_create key ns name s) = rc_queue s"
  "rc_world (record_create key ns name s) = rc_world s"
  "rc_planner (record_update key ns name s) = rc_planner s"
  "rc_queue (record_update key ns name s) = rc_queue s"
  "rc_world (record_update key ns name s) = rc_world s"
  "rc_planner (record_prune key ns name s) = rc_planner s"
  "rc_queue (record_prune key ns name s) = rc_queue s"
  "rc_world (record_prune key ns name s) = rc_world s"
  by (simp_all only: record_defs emit_simps)

definition same_planner :: "'w reconciler \<Rightarrow> 'w reconciler \<Rightarrow> bool" where
  "same_planner s s' \<longleftrightarrow> rc_planner s' = rc_planner s \<and> rc_queue s' = rc_queue s"

lemma same_planner_trans: "same_planner s t \<Longrightarrow> same_planner t u \<Longrightarrow> same_planner s u"
  by (simp add: same_planner_def)

lemma sync_target_planner:
  "sync_target client key name eff h source policy ns out s = (oe, s') \<Longrightarrow> same_planner s s'"
  by (auto simp: sync_target_def same_planner_def record_error_logged Let_def
      dest!: run_call_frame split: prod.splits sum.splits if_splits)

lemma sync_loop_planner:
  "sync_loop client key name eff h source policy nss out s = (oe, s') \<Longrightarrow> same_planner s s'"
proof (induction nss arbitrary: out s)
  case Nil
  then show ?case by (simp add: same_planner_def)
next
  case (Cons ns nss)
  obtain o1 e1 s1 where t: "sync_target client key name eff h source policy ns out s = ((o1, e1), s1)"
    by (metis surj_pair)
  from Cons.prems t Cons.IH [of o1 s1] sync_target_planner [OF t] show ?case
    by (cases e1) (auto intro: same_planner_trans)
qed

lemma cleanup_target_planner:
  "cleanup_target client key name prune ns s = (e, s') \<Longrightarrow> same_planner s s'"
  by (auto simp: cleanup_target_def same_planner_def record_error_logged Let_def
      dest!: run_call_frame split: prod.splits sum.splits option.splits if_splits)

lemma cleanup_loop_planner:
  "cleanup_loop client key name prune sel nss s = (e, s') \<Longrightarrow> same_planner s s'"
proof (induction nss arbitrary: s)
  case Nil
  then show ?case by (simp add: same_planner_def)
next
  case (Cons ns nss)
  obtain e1 s1 where t: "cleanup_target client key name prune ns s = (e1, s1)" by fastforce
  from Cons t cleanup_target_planner [OF t] show ?case
    by (cases e1) (auto split: if_splits intro: same_planner_trans)
qed

lemma cleanup_deselected_planner:
  "cleanup_deselected client key spec sel s = (e, s') \<Longrightarrow> same_planner s s'"
proof -
  assume cd: "cleanup_deselected client key spec sel s = (e, s')"
  obtain r s1 where l: "run_call (ListManagedTargetNamespaces client
      (source_id (ref_namespace (sp_source_ref spec)) (ref_name (sp_source_ref spec)))
      (ref_name (sp_source_ref spec))) s = (r, s1)" by fastforce
  then have "same_planner s s1" using run_callD [OF l] by (simp add: same_planner_def)
  then show ?thesis
    using cd l by (cases r) (auto simp: cleanup_deselected_def Let_def record_error_logged same_planner_def
        dest!: cleanup_loop_planner)
qed

section \<open>One target\<close>

text \<open>What counts as managed: the label, or the source annotation, of a map that exists.\<close>

definition target_managed :: "string \<Rightarrow> go_map \<Rightarrow> go_map \<Rightarrow> bool" where
  "target_managed source l a \<longleftrightarrow>
     l \<noteq> None \<and> go_get l ManagedLabel = ''true'' \<or> a \<noteq> None \<and> go_get a SourceAnnotation = source"

lemma target_managed_iff:
  "source \<noteq> [] \<Longrightarrow> target_managed source l a \<longleftrightarrow>
     go_get l ManagedLabel = ''true'' \<or> go_get a SourceAnnotation = source"
  by (cases l; cases a) (auto simp: target_managed_def)

lemma source_id_nonempty [simp]: "source_id a b \<noteq> []" "[] \<noteq> source_id a b"
  by (simp_all add: source_id_def)

text \<open>The end of the loop body, from the result of the write.\<close>

definition write_target :: "reconcile_key \<Rightarrow> string \<Rightarrow> string \<Rightarrow> sync_outcome \<Rightarrow>
    (go_map \<times> go_map \<times> go_map) option \<Rightarrow> unit result \<Rightarrow> 'w reconciler \<Rightarrow>
    (sync_outcome \<times> go_error option) \<times> 'w reconciler" where
  "write_target key ns name out target r s =
     (case r of
        Inl err \<Rightarrow> (case record_error key ''upsert'' (''upsert '' @ ns @ ''/'' @ name) err s of
            (e, s') \<Rightarrow> ((out, Some e), s'))
      | Inr _ \<Rightarrow> ((out\<lparr>so_completed := so_completed out @ [ns]\<rparr>, None),
          if target \<noteq> None then record_update key ns name s else record_create key ns name s))"

lemma write_target_error:
  "\<exists>msg. write_target key ns name out target (Inl err) s =
     ((out, Some (Wrapped msg err)), error_logged key ''upsert'' msg err s)"
  unfolding write_target_def sum.case record_error_logged prod.case by (rule exI, rule refl)

lemma write_target_ok:
  "\<exists>reason msg. write_target key ns name out target (Inr x) s =
     ((out\<lparr>so_completed := so_completed out @ [ns]\<rparr>, None),
      action_logged key (if target = None then MetricsActionCreate else MetricsActionUpdate) reason msg s)"
  using record_create_logged [of key ns name s] record_update_logged [of key ns name s]
  by (cases target) (auto simp: write_target_def)

lemma sync_target_lookup_error:
  assumes "run_call (GetTargetConfigMap client ns name) s = (Inl err, s1)"
  shows "\<exists>msg. sync_target client key name eff h source policy ns out s =
    ((out, Some (Wrapped msg err)), error_logged key ''target_lookup'' msg err s1)"
  unfolding sync_target_def assms prod.case sum.case record_error_logged by (rule exI, rule refl)

lemma sync_target_absent:
  assumes "run_call (GetTargetConfigMap client ns name) s = (Inr None, s1)"
    and "run_call (UpsertConfigMap client ns name eff managed_labels (managed_annotations source h)) s1 = (r2, s2)"
  shows "sync_target client key name eff h source policy ns out s = write_target key ns name out None r2 s2"
  unfolding sync_target_def assms prod.case sum.case write_target_def Let_def by (simp add: assms)

lemma sync_target_present:
  assumes "run_call (GetTargetConfigMap client ns name) s = (Inr (Some (d, l, a)), s1)"
    and "run_call (UpsertConfigMap client ns name eff managed_labels (managed_annotations source h)) s1 = (r2, s2)"
  shows "sync_target client key name eff h source policy ns out s =
    (if \<not> target_managed source l a \<and> policy = ConflictSkip then
       ((out\<lparr>so_out_of_sync := so_out_of_sync out @ [conflict_item ns]\<rparr>, None),
        record_skip key ns name reason_unmanaged s1)
     else if target_managed source l a \<and> go_get a HashAnnotation = h then
       ((out\<lparr>so_completed := so_completed out @ [ns]\<rparr>, None), record_skip key ns name reason_up_to_date s1)
     else write_target key ns name out (Some (d, l, a)) r2 s2)"
  unfolding sync_target_def assms prod.case sum.case write_target_def target_managed_def Let_def option.case
  by (simp add: assms)

lemma sync_targetE:
  assumes "sync_target client key name eff h source policy ns out s = ((out', e), s')"
  obtains
    (lookup_error) err msg where
      "GetTargetConfigMap client ns name (rc_world s) = (Inl err, rc_world s')"
      "e = Some (Wrapped msg err)" "out' = out"
      "rc_log s' = rc_log s @ [IncError ''target_lookup'',
         Warningf (namespaced_name_of key) eventReasonConfigError (msg @ '': '' @ error_text err)]"
  | (conflict) d l a msg where
      "GetTargetConfigMap client ns name (rc_world s) = (Inr (Some (d, l, a)), rc_world s')"
      "\<not> target_managed source l a" "policy = ConflictSkip" "e = None"
      "out' = out\<lparr>so_out_of_sync := so_out_of_sync out @ [conflict_item ns]\<rparr>"
      "rc_log s' = rc_log s @ [AddPropagations MetricsActionSkip 1, Normalf (namespaced_name_of key) eventReasonConfigSkipped msg]"
  | (up_to_date) d l a msg where
      "GetTargetConfigMap client ns name (rc_world s) = (Inr (Some (d, l, a)), rc_world s')"
      "target_managed source l a" "go_get a HashAnnotation = h" "e = None"
      "out' = out\<lparr>so_completed := so_completed out @ [ns]\<rparr>"
      "rc_log s' = rc_log s @ [AddPropagations MetricsActionSkip 1, Normalf (namespaced_name_of key) eventReasonConfigSkipped msg]"
  | (upsert_error) target w1 err msg where
      "GetTargetConfigMap client ns name (rc_world s) = (Inr target, w1)"
      "\<forall>d l a. target = Some (d, l, a) \<longrightarrow> (target_managed source l a \<or> policy \<noteq> ConflictSkip) \<and>
        \<not> (target_managed source l a \<and> go_get a HashAnnotation = h)"
      "UpsertConfigMap client ns name eff managed_labels (managed_annotations source h) w1 = (Inl err, rc_world s')"
      "e = Some (Wrapped msg err)" "out' = out"
      "rc_log s' = rc_log s @ [IncError ''upsert'',
         Warningf (namespaced_name_of key) eventReasonConfigError (msg @ '': '' @ error_text err)]"
  | (written) target w1 u action reason msg where
      "GetTargetConfigMap client ns name (rc_world s) = (Inr target, w1)"
      "\<forall>d l a. target = Some (d, l, a) \<longrightarrow> (target_managed source l a \<or> policy \<noteq> ConflictSkip) \<and>
        \<not> (target_managed source l a \<and> go_get a HashAnnotation = h)"
      "UpsertConfigMap client ns name eff managed_labels (managed_annotations source h) w1 = (Inr u, rc_world s')"
      "e = None" "out' = out\<lparr>so_completed := so_completed out @ [ns]\<rparr>"
      "action = (if target = None then MetricsActionCreate else MetricsActionUpdate)"
      "rc_log s' = rc_log s @ [AddPropagations action 1, Normalf (namespaced_name_of key) reason msg]"
proof -
  obtain r s1 where get: "run_call (GetTargetConfigMap client ns name) s = (r, s1)" by fastforce
  note g = run_callD [OF get]
  obtain r2 s2 where up: "run_call (UpsertConfigMap client ns name eff managed_labels
      (managed_annotations source h)) s1 = (r2, s2)" by fastforce
  note u = run_callD [OF up]
  show thesis
  proof (cases r)
    case (Inl err)
    from sync_target_lookup_error [OF get [unfolded Inl]] obtain msg where
      "sync_target client key name eff h source policy ns out s = ((out, Some (Wrapped msg err)),
         error_logged key ''target_lookup'' msg err s1)" by blast
    with assms g Inl show thesis by (intro lookup_error) auto
  next
    case (Inr target)
    have wr: thesis
      if eq: "sync_target client key name eff h source policy ns out s = write_target key ns name out target r2 s2"
        and ok: "\<forall>d l a. target = Some (d, l, a) \<longrightarrow> (target_managed source l a \<or> policy \<noteq> ConflictSkip) \<and>
        \<not> (target_managed source l a \<and> go_get a HashAnnotation = h)"
    proof (cases r2)
      case (Inl err)
      from write_target_error [of key ns name out target err s2] obtain msg where
        "write_target key ns name out target (Inl err) s2 = ((out, Some (Wrapped msg err)),
           error_logged key ''upsert'' msg err s2)" by blast
      with assms eq ok g u Inl \<open>r = Inr target\<close> show thesis by (intro upsert_error) auto
    next
      case (Inr x)
      from write_target_ok [of key ns name out target x s2] obtain reason msg where
        "write_target key ns name out target (Inr x) s2 = ((out\<lparr>so_completed := so_completed out @ [ns]\<rparr>, None),
           action_logged key (if target = None then MetricsActionCreate else MetricsActionUpdate) reason msg s2)"
        by blast
      with assms eq ok g u Inr \<open>r = Inr target\<close> show thesis by (intro written) auto
    qed
    show thesis
    proof (cases target)
      case None
      show thesis
        by (rule wr [OF sync_target_absent [OF get [unfolded Inr None] up, folded None]]) (simp add: None)
    next
      case (Some t)
      obtain d l a where t: "t = (d, l, a)" by (metis surj_pair)
      note present = sync_target_present [OF get [unfolded Inr Some t] up, where out = out and policy = policy and key = key]
      obtain msg msg' where
        skip: "record_skip key ns name reason_unmanaged s1 =
          action_logged key MetricsActionSkip eventReasonConfigSkipped msg s1"
          "record_skip key ns name reason_up_to_date s1 =
          action_logged key MetricsActionSkip eventReasonConfigSkipped msg' s1"
        using record_skip_logged by blast
      consider "\<not> target_managed source l a" "policy = ConflictSkip"
        | "target_managed source l a" "go_get a HashAnnotation = h"
        | "target_managed source l a \<or> policy \<noteq> ConflictSkip"
          "\<not> (target_managed source l a \<and> go_get a HashAnnotation = h)" by blast
      then show thesis
      proof cases
        case 1
        with assms present g Inr Some t show thesis by (intro conflict [of d l a msg]) (auto simp: skip)
      next
        case 2
        with assms present g Inr Some t show thesis by (intro up_to_date [of d l a msg']) (auto simp: skip)
      next
        case 3
        with present have "sync_target client key name eff h source policy ns out s =
            write_target key ns name out target r2 s2" by (auto simp: Some t)
        then show thesis by (rule wr) (use 3 Some t in auto)
      qed
    qed
  qed
qed

end
