(* ===== verification/Reconciler_Outcome.thy ===== *)
theory Reconciler_Outcome
  imports Reconciler_Lemmas
begin

text \<open>
  What \<open>Reconcile\<close> and \<open>Finalize\<close> return, for any KubeClient: how a loop divides the
  targets and how the result accounts for every one of them.
\<close>

section \<open>The body of the cleanup loop\<close>

lemma cleanup_targetE:
  assumes "cleanup_target client key name prune ns s = (e, s')"
  obtains
    (delete_error) err msg where "prune"
      "DeleteConfigMap client ns name (rc_world s) = (Inl err, rc_world s')"
      "e = Some (Wrapped msg err)" "rc_log s' = rc_log (error_logged key ''prune'' msg err s)"
  | (pruned) u msg where "prune"
      "DeleteConfigMap client ns name (rc_world s) = (Inr u, rc_world s')" "e = None"
      "rc_log s' = rc_log (action_logged key MetricsActionPrune eventReasonConfigPruned msg s)"
  | (get_error) err msg where "\<not> prune"
      "GetTargetConfigMap client ns name (rc_world s) = (Inl err, rc_world s')"
      "e = Some (Wrapped msg err)" "rc_log s' = rc_log (error_logged key ''target_lookup'' msg err s)"
  | (gone) "\<not> prune"
      "GetTargetConfigMap client ns name (rc_world s) = (Inr None, rc_world s')" "e = None"
      "rc_log s' = rc_log s"
  | (detach_error) d l a w1 err msg where "\<not> prune"
      "GetTargetConfigMap client ns name (rc_world s) = (Inr (Some (d, l, a)), w1)"
      "UpdateConfigMapMetadata client ns name (go_delete l ManagedLabel)
         (go_delete (go_delete a SourceAnnotation) HashAnnotation) w1 = (Inl err, rc_world s')"
      "e = Some (Wrapped msg err)" "rc_log s' = rc_log (error_logged key ''detach'' msg err s)"
  | (detached) d l a w1 u msg where "\<not> prune"
      "GetTargetConfigMap client ns name (rc_world s) = (Inr (Some (d, l, a)), w1)"
      "UpdateConfigMapMetadata client ns name (go_delete l ManagedLabel)
         (go_delete (go_delete a SourceAnnotation) HashAnnotation) w1 = (Inr u, rc_world s')"
      "e = None" "rc_log s' = rc_log (action_logged key MetricsActionSkip eventReasonConfigSkipped msg s)"
proof (cases prune)
  case True
  obtain r s1 where del: "run_call (DeleteConfigMap client ns name) s = (r, s1)" by fastforce
  note d = run_call_frame [OF del]
  show thesis
  proof (cases r)
    case (Inl err)
    then show thesis using assms True del d
      by (intro delete_error) (auto simp: cleanup_target_def record_error_logged)
  next
    case (Inr u)
    obtain msg where m: "record_prune key ns name s1 =
        action_logged key MetricsActionPrune eventReasonConfigPruned msg s1"
      using record_prune_logged by blast
    show thesis using assms True del d Inr
      by (intro pruned [of u msg]) (auto simp: cleanup_target_def m)
  qed
next
  case False
  obtain r s1 where get: "run_call (GetTargetConfigMap client ns name) s = (r, s1)" by fastforce
  note g = run_call_frame [OF get]
  show thesis
  proof (cases r)
    case (Inl err)
    then show thesis using assms False get g
      by (intro get_error) (auto simp: cleanup_target_def record_error_logged)
  next
    case (Inr target)
    show thesis
    proof (cases target)
      case None
      then show thesis using assms False get g Inr by (intro gone) (auto simp: cleanup_target_def)
    next
      case (Some t)
      obtain d l a where t: "t = (d, l, a)" by (metis surj_pair)
      obtain r2 s2 where upd: "run_call (UpdateConfigMapMetadata client ns name (go_delete l ManagedLabel)
          (go_delete (go_delete a SourceAnnotation) HashAnnotation)) s1 = (r2, s2)" by fastforce
      note u = run_call_frame [OF upd]
      show thesis
      proof (cases r2)
        case (Inl err)
        then show thesis using assms False get g \<open>r = Inr target\<close> Some t upd u
          by (intro detach_error [of d l a "rc_world s1"]) (auto simp: cleanup_target_def record_error_logged)
      next
        case r2: (Inr x)
        obtain msg where m: "record_skip key ns name reason_detached s2 =
            action_logged key MetricsActionSkip eventReasonConfigSkipped msg s2"
          using record_skip_logged by blast
        show thesis using assms False get g Inr Some t upd u r2
          by (intro detached [of d l a "rc_world s1" x msg]) (auto simp: cleanup_target_def m)
      qed
    qed
  qed
qed

section \<open>The division of the targets\<close>

text \<open>How a successful loop divides the namespaces it was given.\<close>

lemma sync_loop_divides:
  assumes "sync_loop client key name eff h source policy nss out s = ((out', None), s')"
  shows "\<exists>wrt skip. so_completed out' = so_completed out @ wrt \<and>
    so_out_of_sync out' = so_out_of_sync out @ map conflict_item skip \<and>
    mset wrt + mset skip = mset nss \<and> (policy \<noteq> ConflictSkip \<longrightarrow> skip = [])"
  using assms
proof (induction nss arbitrary: out s)
  case Nil
  then show ?case by auto
next
  case (Cons ns nss)
  obtain o1 e1 s1 where t: "sync_target client key name eff h source policy ns out s = ((o1, e1), s1)"
    by (metis surj_pair)
  have e1: "e1 = None" using Cons.prems t by (cases e1) auto
  with Cons.prems t have "sync_loop client key name eff h source policy nss o1 s1 = ((out', None), s')"
    by simp
  from Cons.IH [OF this] obtain wrt skip where ih: "so_completed out' = so_completed o1 @ wrt"
    "so_out_of_sync out' = so_out_of_sync o1 @ map conflict_item skip" "mset wrt + mset skip = mset nss"
    "policy \<noteq> ConflictSkip \<longrightarrow> skip = []" by blast
  from t e1 show ?case
  proof (cases rule: sync_targetE)
    case conflict
    then show ?thesis using ih by (intro exI [of _ wrt] exI [of _ "ns # skip"]) simp
  qed (use ih e1 in \<open>auto intro!: exI [of _ "ns # wrt"] exI [of _ skip]\<close>)
qed

section \<open>Accounting\<close>

lemma report_pending_filter:
  "report_pending reason message done reported targets items = items @
     map (\<lambda>ns. \<lparr>oos_namespace = ns, oos_reason = reason, oos_message = message\<rparr>)
       (filter (\<lambda>ns. ns \<notin> done \<and> ns \<notin> reported) targets)"
  by (induction targets arbitrary: items) auto

text \<open>
  The result of a reconcile over \<open>targets\<close>: every target is either done or listed once as out of
  sync; it is listed with reason \<open>ConflictPolicySkip\<close> if it was planned and otherwise as pending.
\<close>

definition accounts_for :: "string list \<Rightarrow> string set \<Rightarrow> rollout_result \<Rightarrow> bool" where
  "accounts_for targets done r \<longleftrightarrow>
     rr_total_targets r = length targets \<and> rr_completed_count r = card done \<and>
     done \<inter> set (map oos_namespace (rr_out_of_sync r)) = {} \<and>
     done \<union> set (map oos_namespace (rr_out_of_sync r)) = set targets \<and>
     distinct (map oos_namespace (rr_out_of_sync r)) \<and>
     (\<forall>item \<in> set (rr_out_of_sync r).
        (oos_reason item = ''ConflictPolicySkip'') = (oos_namespace item \<in> set (rr_planned r)))"

lemma accounts_for_count:
  assumes "accounts_for targets done r" "distinct targets"
  shows "rr_completed_count r + length (rr_out_of_sync r) = rr_total_targets r"
proof -
  let ?oos = "map oos_namespace (rr_out_of_sync r)"
  have fin: "finite done" using assms(1) unfolding accounts_for_def
    by (metis finite_Un finite_set)
  have "card (done \<union> set ?oos) = card done + card (set ?oos)"
    using assms(1) fin by (intro card_Un_disjoint) (simp_all add: accounts_for_def)
  moreover have "card (set ?oos) = length (rr_out_of_sync r)"
    using assms(1) distinct_card [of ?oos] by (simp add: accounts_for_def)
  ultimately show ?thesis
    using assms distinct_card [of targets] by (simp add: accounts_for_def)
qed

lemma accounts_forI:
  assumes "distinct targets" "done \<subseteq> set targets" "distinct skip" "set skip \<subseteq> set targets"
    "done \<inter> set skip = {}" "set planned \<subseteq> done \<union> set skip" "set skip \<subseteq> set planned"
    "reason \<noteq> ''ConflictPolicySkip''"
  shows "accounts_for targets done
    \<lparr>rr_planned = planned, rr_total_targets = length targets, rr_completed_count = card done,
     rr_out_of_sync = report_pending reason message done (set skip) targets (map conflict_item skip)\<rparr>"
proof -
  let ?pend = "filter (\<lambda>ns. ns \<notin> done \<and> ns \<notin> set skip) targets"
  have names: "map oos_namespace (report_pending reason message done (set skip) targets (map conflict_item skip)) =
      skip @ ?pend"
    by (simp add: report_pending_filter comp_def)
  have "set ?pend \<inter> set planned = {}" using assms(6) by auto
  then have reasons: "\<forall>item \<in> set (report_pending reason message done (set skip) targets (map conflict_item skip)).
      (oos_reason item = ''ConflictPolicySkip'') = (oos_namespace item \<in> set planned)"
    using assms(7,8) by (auto simp: report_pending_filter conflict_item_def)
  show ?thesis
    unfolding accounts_for_def rollout_result.simps names
    using assms reasons by auto
qed

section \<open>The steps of a successful reconcile\<close>

lemma reconcile_impl_okE:
  assumes "reconcile_impl client key spec s = (Inr res, s')"
  obtains src s1 selector listed s2 st planned n s3 summary s4 cnt oos s5 where
    "run_call (GetSourceConfigMap client (ref_namespace (sp_source_ref spec)) (ref_name (sp_source_ref spec))) s
       = (Inr src, s1)"
    "sp_namespace_selector spec = Some selector"
    "list_targets client selector s1 = (Inr listed, s2)"
    "sp_strategy spec = Some st"
    "plan_targets key (HashData (compute_effective src (sp_data_keys spec))) (sort listed) (us_type st)
       (case us_batch_size st of None \<Rightarrow> 5 | Some b \<Rightarrow> b) s2 = ((planned, n), s3)"
    "sync_targets client key planned (ref_name (sp_source_ref spec)) (compute_effective src (sp_data_keys spec))
       (HashData (compute_effective src (sp_data_keys spec))) (ref_namespace (sp_source_ref spec))
       (sp_conflict_policy spec) s3 = ((summary, None), s4)"
    "account_targets key (us_type st) (HashData (compute_effective src (sp_data_keys spec))) (sort listed)
       summary s4 = ((cnt, oos), s5)"
    "cleanup_deselected client key spec (sort listed) s5 = (None, s')"
    "res = \<lparr>rr_planned = planned, rr_total_targets = length (sort listed), rr_completed_count = cnt,
       rr_out_of_sync = oos\<rparr>"
  using assms
  by (auto simp: reconcile_impl_def Let_def record_error_logged
      split: prod.splits sum.splits option.splits)

lemma sync_targets_divides:
  assumes "sync_targets client key planned name eff h srcNs policy s = ((summary, None), s')"
  obtains wrt skip where "so_completed summary = wrt" "so_out_of_sync summary = map conflict_item skip"
    "mset wrt + mset skip = mset planned" "policy \<noteq> ConflictSkip \<longrightarrow> skip = []"
  using sync_loop_divides [OF assms [unfolded sync_targets_def]] by auto

lemma sync_targets_planner:
  "sync_targets client key planned name eff h srcNs policy s = (oe, s') \<Longrightarrow> same_planner s s'"
  by (auto simp: sync_targets_def dest: sync_loop_planner)

lemma mset_split_sets:
  assumes "mset wrt + mset skip = mset planned" "distinct planned"
  shows "set wrt \<union> set skip = set planned" "set wrt \<inter> set skip = {}" "distinct wrt" "distinct skip"
proof -
  have eq: "mset (wrt @ skip) = mset planned" using assms(1) by simp
  then have "distinct (wrt @ skip)" using assms(2) mset_eq_imp_distinct_iff by blast
  then show "set wrt \<inter> set skip = {}" "distinct wrt" "distinct skip" by auto
  show "set wrt \<union> set skip = set planned" using mset_eq_setD [OF eq] by simp
qed

lemma namespaced_name_of_alt: "\<lparr>nn_namespace = key_namespace key, nn_name = key_name key\<rparr> = namespaced_name_of key"
  by (simp add: namespaced_name_of_def)

text \<open>
  Planning, writing and accounting together, for each of the two strategies: \<open>done\<close> is the
  planner's completed set after a rolling round and the written namespaces otherwise.
\<close>

lemma rolling_accounts:
  assumes dist: "distinct targets"
    and plan: "plan_targets key h targets StrategyRolling b s2 = ((planned, n), s3)"
    and sync: "sync_targets client key planned name eff h srcNs policy s3 = ((summary, None), s4)"
    and acc: "account_targets key StrategyRolling h targets summary s4 = ((cnt, oos), s5)"
  shows "accounts_for targets (rollout_progress (rc_planner s5) (namespaced_name_of key) h)
      \<lparr>rr_planned = planned, rr_total_targets = length targets, rr_completed_count = cnt, rr_out_of_sync = oos\<rparr>"
    and "length planned \<le> effective_batch b"
proof -
  let ?id = "namespaced_name_of key"
  obtain p3 where p3: "plan ?id h StrategyRolling b targets (rc_planner s2) = ((planned, n), p3)"
      "s3 = s2\<lparr>rc_planner := p3\<rparr>"
    using plan by (auto simp: plan_targets_def split: prod.splits)
  let ?P = "rollout_progress p3 ?id h"
  have P: "?P = rollout_progress (rc_planner s2) ?id h \<inter> set targets"
    using plan_rolling(3) [of StrategyRolling ?id h b targets "rc_planner s2" ?id h] p3 by simp
  have planned: "planned = take (effective_batch b)
      (filter (\<lambda>m. m \<notin> rollout_progress (rc_planner s2) ?id h) targets)"
    using plan_rolling(1) [of StrategyRolling ?id h b targets "rc_planner s2"] p3 by simp
  then show "length planned \<le> effective_batch b" by simp
  have sub: "set planned \<subseteq> set targets" "set planned \<inter> ?P = {}" "distinct planned"
    using dist by (auto simp: planned P dest: in_set_takeD)
  obtain wrt skip where d: "so_completed summary = wrt" "so_out_of_sync summary = map conflict_item skip"
      "mset wrt + mset skip = mset planned"
    using sync_targets_divides [OF sync] by blast
  note sets = mset_split_sets [OF d(3) sub(3)]
  have planner4: "rc_planner s4 = p3"
    using sync_targets_planner [OF sync] p3 by (simp add: same_planner_def)
  obtain k p5 where mc: "mark_completed ?id h wrt p3 = (k, p5)" by fastforce
  have prog5: "rollout_progress p5 ?id h = ?P \<union> set wrt"
    using ro.mark_progress_same [of ?id h wrt p3] mc by simp
  have k: "k = card (?P \<union> set wrt)" using mark_completed_count [of ?id h wrt p3] mc by simp
  have acc': "s5 = s4\<lparr>rc_planner := p5\<rparr>" "cnt = k"
    "oos = report_pending ''PendingRollout'' ''namespace awaiting rollout batch''
       (set (completed_namespaces ?id h p5)) (set skip) targets (map conflict_item skip)"
    using acc mc by (auto simp: account_targets_def Let_def namespaced_name_of_alt planner4 d image_image)
  have wrt: "set (completed_namespaces ?id h p5) = ?P \<union> set wrt"
    using ro.finite_progress [of p5 ?id h] by (simp add: completed_namespaces_list prog5)
  have "accounts_for targets (?P \<union> set wrt)
    \<lparr>rr_planned = planned, rr_total_targets = length targets, rr_completed_count = card (?P \<union> set wrt),
     rr_out_of_sync = report_pending ''PendingRollout'' ''namespace awaiting rollout batch''
       (?P \<union> set wrt) (set skip) targets (map conflict_item skip)\<rparr>"
    by (rule accounts_forI) (use dist sub sets P in auto)
  then show "accounts_for targets (rollout_progress (rc_planner s5) ?id h)
      \<lparr>rr_planned = planned, rr_total_targets = length targets, rr_completed_count = cnt, rr_out_of_sync = oos\<rparr>"
    by (simp add: acc' prog5 wrt k)
qed

lemma immediate_accounts:
  assumes dist: "distinct targets"
    and plan: "plan_targets key h targets StrategyImmediate b s2 = ((planned, n), s3)"
    and sync: "sync_targets client key planned name eff h srcNs policy s3 = ((summary, None), s4)"
    and acc: "account_targets key StrategyImmediate h targets summary s4 = ((cnt, oos), s5)"
  shows "accounts_for targets (set (so_completed summary))
      \<lparr>rr_planned = planned, rr_total_targets = length targets, rr_completed_count = cnt, rr_out_of_sync = oos\<rparr>"
    and "planned = targets"
proof -
  show planned: "planned = targets"
    using plan by (simp add: plan_targets_def plan_immediate)
  obtain wrt skip where d: "so_completed summary = wrt" "so_out_of_sync summary = map conflict_item skip"
      "mset wrt + mset skip = mset planned"
    using sync_targets_divides [OF sync] by blast
  note sets = mset_split_sets [OF d(3), unfolded planned, OF dist]
  have acc': "cnt = card (set wrt)"
    "oos = report_pending ''PendingSync'' ''namespace not synchronized''
       (set wrt) (set skip) targets (map conflict_item skip)"
    using acc distinct_card [OF sets(3)] by (auto simp: account_targets_def Let_def d image_image)
  have "accounts_for targets (set wrt)
    \<lparr>rr_planned = targets, rr_total_targets = length targets, rr_completed_count = card (set wrt),
     rr_out_of_sync = report_pending ''PendingSync'' ''namespace not synchronized''
       (set wrt) (set skip) targets (map conflict_item skip)\<rparr>"
    by (rule accounts_forI) (use dist sets in auto)
  then show "accounts_for targets (set (so_completed summary))
      \<lparr>rr_planned = planned, rr_total_targets = length targets, rr_completed_count = cnt, rr_out_of_sync = oos\<rparr>"
    by (simp add: acc' planned d)
qed

section \<open>Reconcile as a whole\<close>

text \<open>
  The targets of a run that starts in a given world: what the selector lists after the source
  has been read, or nothing when one of the two calls fails.
\<close>

definition listed_targets :: "'w kube_client \<Rightarrow> config_propagation_spec \<Rightarrow> 'w \<Rightarrow> string list option" where
  "listed_targets client spec w =
     (case GetSourceConfigMap client (ref_namespace (sp_source_ref spec)) (ref_name (sp_source_ref spec)) w of
        (Inl err, w1) \<Rightarrow> None
      | (Inr d, w1) \<Rightarrow>
          (case sp_namespace_selector spec of
             None \<Rightarrow> None
           | Some selector \<Rightarrow>
               (case ListNamespacesBySelector client (nil_if_empty (ls_match_labels selector))
                   (map to_requirement (ls_match_expressions selector)) w1 of
                  (Inl err, w2) \<Rightarrow> None
                | (Inr listed, w2) \<Rightarrow> Some listed)))"

lemma listed_targetsI:
  assumes "run_call (GetSourceConfigMap client (ref_namespace (sp_source_ref spec)) (ref_name (sp_source_ref spec))) s
      = (Inr d, s1)"
    "sp_namespace_selector spec = Some selector" "list_targets client selector s1 = (Inr listed, s2)"
  shows "listed_targets client spec (rc_world s) = Some listed"
  using run_callD(1) [OF assms(1)] run_callD(1) [OF assms(3) [unfolded list_targets_def]] assms(2)
  by (simp add: listed_targets_def)

lemma ReconcileE:
  assumes "Reconcile env client elapsed key (Some spec) s = ((res, sp'), s')"
  obtains
    (rejected) err where "ValidateSpec (Some (DefaultSpec env spec)) = Some err"
      "res = Inl err" "s' = s" "sp' = Some (DefaultSpec env spec)"
  | (failed) err s1 where "ValidateSpec (Some (DefaultSpec env spec)) = None"
      "reconcile_impl client key (DefaultSpec env spec) s = (Inl err, s1)" "res = Inl err"
      "s' = emit (ObserveReconcileDuration elapsed) s1" "sp' = Some (DefaultSpec env spec)"
  | (reconciled) r s1 where "ValidateSpec (Some (DefaultSpec env spec)) = None"
      "reconcile_impl client key (DefaultSpec env spec) s = (Inr r, s1)" "res = Inr r"
      "s' = emit (ObserveReconcileDuration elapsed)
         (emit (ObserveTargets (rr_total_targets r) (length (rr_out_of_sync r))) s1)"
      "sp' = Some (DefaultSpec env spec)"
  using assms
  by (auto simp: Reconcile_def Let_def split: option.splits prod.splits sum.splits)

definition desired_batch :: "config_propagation_spec \<Rightarrow> nat" where
  "desired_batch spec = (case sp_strategy spec of
     Some st \<Rightarrow> (case us_batch_size st of Some b \<Rightarrow> effective_batch b | None \<Rightarrow> 5) | None \<Rightarrow> 5)"

definition is_rolling :: "config_propagation_spec \<Rightarrow> bool" where
  "is_rolling spec \<longleftrightarrow> (case sp_strategy spec of Some st \<Rightarrow> us_type st = StrategyRolling | None \<Rightarrow> True)"

lemma impl_accounts:
  assumes ok: "reconcile_impl client key spec s = (Inr r, s')"
    and cs: "complete_spec spec"
    and listing: "\<And>ml reqs w nss w'. ListNamespacesBySelector client ml reqs w = (Inr nss, w') \<Longrightarrow> distinct nss"
  shows "\<exists>listed done. listed_targets client spec (rc_world s) = Some listed \<and> distinct listed \<and>
    accounts_for (sort listed) done r \<and>
    (if is_rolling spec then length (rr_planned r) \<le> desired_batch spec else rr_planned r = sort listed)"
  using ok
proof (cases rule: reconcile_impl_okE)
  case (1 src s1 selector listed s2 st planned n s3 summary s4 cnt oos s5)
  note listed = listed_targetsI [OF 1(1,2,3)]
  have dist: "distinct (sort listed)"
    using listing run_callD(1) [OF 1(3) [unfolded list_targets_def]] by simp
  obtain b where b: "us_batch_size st = Some b" "us_type st = StrategyRolling \<or> us_type st = StrategyImmediate"
    using cs 1(4) by (auto simp: complete_spec_def)
  note plan = 1(5) [unfolded b option.case]
  from b(2) show ?thesis
  proof
    assume t: "us_type st = StrategyRolling"
    note acc = rolling_accounts [OF dist plan [unfolded t] 1(6) 1(7) [unfolded t]]
    show ?thesis
      using acc 1(4,9) b(1) t dist listed
      by (intro exI [of _ listed] exI) (auto simp: is_rolling_def desired_batch_def)
  next
    assume t: "us_type st = StrategyImmediate"
    note acc = immediate_accounts [OF dist plan [unfolded t] 1(6) 1(7) [unfolded t]]
    show ?thesis
      using acc 1(4,9) b(1) t dist listed
      by (intro exI [of _ listed] exI) (auto simp: is_rolling_def)
  qed
qed

text \<open>Planning and accounting log nothing.\<close>

lemma plan_targets_log:
  "plan_targets key h ts strategy b s = (r, s') \<Longrightarrow> rc_log s' = rc_log s"
  by (auto simp: plan_targets_def split: prod.splits)

lemma account_targets_log:
  "account_targets key strategy h ts summary s = (r, s') \<Longrightarrow> rc_log s' = rc_log s"
  by (auto simp: account_targets_def Let_def split: prod.splits if_splits)

end
