(* ===== verification/Reconciler_Cluster.thy ===== *)
theory Reconciler_Cluster
  imports Reconciler_Outcome
begin

text \<open>
  What the reconciler does to the cluster, under the contract of the KubeClient: first the effect
  of one loop body, then an induction principle for each loop and for \<open>reconcileImpl\<close> (a predicate
  on the ConfigMaps that every permitted write keeps is kept by the whole run, failed or not),
  then what a successful run establishes.
\<close>

section \<open>ConfigMaps as the reconciler classifies them\<close>

text \<open>What \<open>syncTargets\<close> takes for managed, and what it takes for up to date.\<close>

definition marked :: "string \<Rightarrow> config_map \<Rightarrow> bool" where
  "marked source cm \<longleftrightarrow>
     go_get (cm_labels cm) ManagedLabel = ''true'' \<or> go_get (cm_annotations cm) SourceAnnotation = source"

definition in_sync :: "string \<Rightarrow> string \<Rightarrow> config_map \<Rightarrow> bool" where
  "in_sync source h cm \<longleftrightarrow> marked source cm \<and> go_get (cm_annotations cm) HashAnnotation = h"

text \<open>A fresh copy: the payload, the managed label and the two annotations, and no other metadata.\<close>

definition fresh_copy :: "string \<Rightarrow> go_map \<Rightarrow> string \<Rightarrow> config_map \<Rightarrow> bool" where
  "fresh_copy source eff h cm \<longleftrightarrow> written_as eff managed_labels (managed_annotations source h) cm"

text \<open>\<open>new\<close> is \<open>old\<close> without the controller's marks.\<close>

definition detached_from :: "config_map \<Rightarrow> config_map \<Rightarrow> bool" where
  "detached_from old new \<longleftrightarrow>
     go_lookup (cm_data new) = go_lookup (cm_data old) \<and> cm_binary_data new = cm_binary_data old \<and>
     go_lookup (cm_labels new) = (go_lookup (cm_labels old))(ManagedLabel := None) \<and>
     go_lookup (cm_annotations new) =
       (go_lookup (cm_annotations old))(SourceAnnotation := None, HashAnnotation := None)"

lemma managed_copy_marked: "managed_copy source cm \<Longrightarrow> marked source cm"
  by (simp add: managed_copy_def marked_def)

lemma target_managed_marked:
  assumes "written_as d l a cm" "source \<noteq> []"
  shows "target_managed source l a \<longleftrightarrow> marked source cm" "go_get a HashAnnotation = go_get (cm_annotations cm) HashAnnotation"
  using assms by (simp_all add: target_managed_iff marked_def written_as_def go_get_def)

lemma fresh_copy_in_sync:
  assumes "fresh_copy source eff h cm"
  shows "in_sync source h cm" "managed_copy source cm"
  using assms
  by (simp_all add: fresh_copy_def written_as_def in_sync_def marked_def managed_copy_def go_get_def
      managed_labels_def managed_annotations_def)

lemma detached_not_managed:
  assumes "detached_from old new" "source \<noteq> []"
  shows "\<not> managed_copy source new"
  using assms by (simp add: detached_from_def managed_copy_def go_get_def)

lemma compute_effective_cong:
  assumes "go_lookup d = go_lookup d'"
  shows "compute_effective d ks = compute_effective d' ks"
proof -
  have "select_keys d ks m = select_keys d' ks m" for m
    using assms by (induction ks arbitrary: m) (simp_all split: option.splits)
  moreover have "compute_effective x ks = Some (if ks = [] then go_entries x else select_keys x ks fmempty)" for x
  proof -
    have "select_keys (Some fmempty) ks m = select_keys None ks m" for m
      by (induction ks arbitrary: m) simp_all
    then show ?thesis by (cases x) (simp_all add: compute_effective_def Let_def)
  qed
  ultimately show ?thesis using assms go_entries_eq_iff [of d d'] by simp
qed

text \<open>A copy before and after its namespace was cleaned up, pruning or detaching.\<close>

definition cleaned :: "bool \<Rightarrow> config_map option \<Rightarrow> config_map option \<Rightarrow> bool" where
  "cleaned prune old new \<longleftrightarrow>
     (if prune then new = None
      else case old of None \<Rightarrow> new = None | Some cm \<Rightarrow> \<exists>cm'. new = Some cm' \<and> detached_from cm cm')"

lemma cleaned_trans: "cleaned prune x y \<Longrightarrow> cleaned prune y z \<Longrightarrow> cleaned prune x z"
  by (auto simp: cleaned_def detached_from_def split: if_splits option.splits)

text \<open>Abbreviations of the spec's fields: the source, its identifier in the marks, the prune flag.\<close>

definition source_key :: "config_propagation_spec \<Rightarrow> string \<times> string" where
  "source_key spec = (ref_namespace (sp_source_ref spec), ref_name (sp_source_ref spec))"

definition source_of :: "config_propagation_spec \<Rightarrow> string" where
  "source_of spec = source_id (ref_namespace (sp_source_ref spec)) (ref_name (sp_source_ref spec))"

definition prunes :: "config_propagation_spec \<Rightarrow> bool" where
  "prunes spec \<longleftrightarrow> (case sp_prune spec of None \<Rightarrow> True | Some b \<Rightarrow> b)"

definition desired_data :: "config_propagation_spec \<Rightarrow> config_map \<Rightarrow> go_map" where
  "desired_data spec src = compute_effective (cm_data src) (sp_data_keys spec)"

lemma source_of_nonempty [simp]: "source_of spec \<noteq> []"
  by (simp add: source_of_def)

text \<open>A target that the run has brought, or found, up to date.\<close>

definition synced :: "string \<Rightarrow> go_map \<Rightarrow> string \<Rightarrow> config_map option \<Rightarrow> config_map option \<Rightarrow> bool" where
  "synced source eff h old new \<longleftrightarrow>
     (\<exists>cm. new = Some cm \<and> in_sync source h cm \<and> (old = Some cm \<or> fresh_copy source eff h cm))"

text \<open>How the accounting uses the outcome of the writes.\<close>

lemma report_pending_names:
  "oos_namespace ` set (report_pending reason msg done reported targets items) =
     oos_namespace ` set items \<union> {ns \<in> set targets. ns \<notin> done \<and> ns \<notin> reported}"
  by (auto simp: report_pending_filter image_Un image_image)

lemma marked_listed: "set nss \<subseteq> set (completed_namespaces i h (snd (mark_completed i h nss p)))"
  using ro.finite_progress [of "snd (mark_completed i h nss p)" i h]
  by (simp add: completed_namespaces_list ro.mark_progress_same)

lemma account_targets_splits:
  assumes acc: "account_targets key strategy h targets summary s = ((cnt, oos), s')"
    and dis: "set (so_completed summary) \<inter> oos_namespace ` set (so_out_of_sync summary) = {}"
  shows "oos_namespace ` set (so_out_of_sync summary) \<subseteq> oos_namespace ` set oos \<and>
    set (so_completed summary) \<inter> oos_namespace ` set oos = {}"
proof -
  have "\<exists>reason msg done reported. oos = report_pending reason msg done reported targets (so_out_of_sync summary) \<and>
      set (so_completed summary) \<subseteq> done"
  proof (cases "strategy = StrategyRolling")
    case True
    obtain n p where m: "mark_completed (namespaced_name_of key) h (so_completed summary) (rc_planner s) = (n, p)"
      by fastforce
    then have "set (so_completed summary) \<subseteq> set (completed_namespaces (namespaced_name_of key) h p)"
      using marked_listed [of "so_completed summary" "namespaced_name_of key" h "rc_planner s"] by simp
    moreover have "\<exists>reason msg reported. oos = report_pending reason msg
        (set (completed_namespaces (namespaced_name_of key) h p)) reported targets (so_out_of_sync summary)"
      using acc m True by (auto simp: account_targets_def Let_def namespaced_name_of_alt)
    ultimately show ?thesis by blast
  next
    case False
    then show ?thesis using acc by (auto simp: account_targets_def Let_def)
  qed
  then obtain reason msg dn reported where "oos = report_pending reason msg dn reported targets (so_out_of_sync summary)"
    "set (so_completed summary) \<subseteq> dn" by blast
  then show ?thesis using dis by (auto simp: report_pending_names)
qed

lemma plan_targets_planned:
  assumes "plan_targets key h targets strategy b s = ((planned, n), s')"
  shows "set planned \<subseteq> set targets" "distinct targets \<Longrightarrow> distinct planned" "rc_world s' = rc_world s"
proof -
  have "planned = targets \<or>
      planned = take (effective_batch b) (filter (\<lambda>m. m \<notin> rollout_progress (rc_planner s) (namespaced_name_of key) h) targets)"
    using assms plan_rolling(1) [of strategy "namespaced_name_of key" h b targets "rc_planner s"] plan_immediate
    by (cases "strategy = StrategyImmediate") (auto simp: plan_targets_def split: prod.splits)
  then show "set planned \<subseteq> set targets" "distinct targets \<Longrightarrow> distinct planned"
    by (auto dest: in_set_takeD)
  show "rc_world s' = rc_world s" using assms by (auto simp: plan_targets_def split: prod.splits)
qed

definition is_immediate :: "config_propagation_spec \<Rightarrow> bool" where
  "is_immediate spec \<longleftrightarrow> (case sp_strategy spec of Some st \<Rightarrow> us_type st = StrategyImmediate | None \<Rightarrow> False)"

lemma effective_batch_5 [simp]: "effective_batch 5 = 5"
  by (simp add: effective_batch_def)

lemma plan_targets_sizes:
  assumes "sp_strategy spec = Some st"
    "plan_targets key h targets (us_type st) (case us_batch_size st of None \<Rightarrow> 5 | Some b \<Rightarrow> b) s = ((planned, n), s')"
  shows "is_rolling spec \<longrightarrow> length planned \<le> desired_batch spec" "is_immediate spec \<longrightarrow> planned = targets"
proof -
  define b where "b = (case us_batch_size st of None \<Rightarrow> 5 | Some b \<Rightarrow> b)"
  obtain p where p: "plan (namespaced_name_of key) h (us_type st) b targets (rc_planner s) = ((planned, n), p)"
    using assms(2) by (auto simp: plan_targets_def b_def split: prod.splits)
  have "desired_batch spec = effective_batch b"
    using assms(1) by (simp add: desired_batch_def b_def split: option.splits)
  moreover have "length planned \<le> effective_batch b" if "us_type st = StrategyRolling"
    using plan_rolling(1) [of StrategyRolling "namespaced_name_of key" h b targets "rc_planner s"] p that by simp
  ultimately show "is_rolling spec \<longrightarrow> length planned \<le> desired_batch spec"
    using assms(1) by (simp add: is_rolling_def)
  show "is_immediate spec \<longrightarrow> planned = targets"
    using assms(1) p by (auto simp: is_immediate_def plan_immediate)
qed

lemma account_targets_world:
  "account_targets key strategy h targets summary s = (r, s') \<Longrightarrow> rc_world s' = rc_world s"
  by (auto simp: account_targets_def Let_def split: prod.splits if_splits)

context kube_contract
begin

abbreviation cmaps :: "'w reconciler \<Rightarrow> string \<times> string \<Rightarrow> config_map option" where
  "cmaps s \<equiv> cluster (rc_world s)"

section \<open>One target\<close>

lemma sync_target_cluster:
  assumes "sync_target client key name eff h source policy ns out s = ((out', e), s')" "source \<noteq> []"
  obtains
    (failed) "e \<noteq> None" "cmaps s' = cmaps s" "out' = out"
  | (conflict) cm where "e = None" "cmaps s' = cmaps s" "cmaps s (ns, name) = Some cm" "\<not> marked source cm"
      "policy = ConflictSkip" "out' = out\<lparr>so_out_of_sync := so_out_of_sync out @ [conflict_item ns]\<rparr>"
  | (up_to_date) cm where "e = None" "cmaps s' = cmaps s" "cmaps s (ns, name) = Some cm" "in_sync source h cm"
      "out' = out\<lparr>so_completed := so_completed out @ [ns]\<rparr>"
  | (written) cm where "fresh_copy source eff h cm" "cmaps s' = (cmaps s)((ns, name) \<mapsto> cm)"
      "\<forall>old. cmaps s (ns, name) = Some old \<longrightarrow> (marked source old \<or> policy \<noteq> ConflictSkip) \<and> \<not> in_sync source h old"
      "e = None \<Longrightarrow> out' = out\<lparr>so_completed := so_completed out @ [ns]\<rparr>" "e \<noteq> None \<Longrightarrow> out' = out"
  using assms(1)
proof (cases rule: sync_targetE)
  case (lookup_error err msg)
  then show thesis using get_target [OF lookup_error(1)] by (intro failed) simp_all
next
  case (conflict d l a msg)
  obtain cm where cm: "cmaps s (ns, name) = Some cm" "written_as d l a cm"
    using get_target [OF conflict(1)] by blast
  note m = target_managed_marked [OF cm(2) assms(2)]
  show thesis using get_target [OF conflict(1)] cm m conflict by (intro that(2)) simp_all
next
  case (up_to_date d l a msg)
  obtain cm where cm: "cmaps s (ns, name) = Some cm" "written_as d l a cm"
    using get_target [OF up_to_date(1)] by blast
  note m = target_managed_marked [OF cm(2) assms(2)]
  show thesis using get_target [OF up_to_date(1)] cm m up_to_date by (intro that(3)) (simp_all add: in_sync_def)
next
  case (upsert_error target w1 err msg)
  note g = get_target [OF upsert_error(1)]
  have old: "\<forall>old. cmaps s (ns, name) = Some old \<longrightarrow>
      (marked source old \<or> policy \<noteq> ConflictSkip) \<and> \<not> in_sync source h old"
    using g upsert_error(2) target_managed_marked [OF _ assms(2)]
    by (cases target) (auto simp: in_sync_def)
  from upsert [OF upsert_error(3)] g consider "cmaps s' = cmaps s"
    | cm where "fresh_copy source eff h cm" "cmaps s' = (cmaps s)((ns, name) \<mapsto> cm)"
    by (auto simp: fresh_copy_def)
  then show thesis
    by cases (use upsert_error old in \<open>auto intro: failed that(4)\<close>)
next
  case (written target w1 u action reason msg)
  note g = get_target [OF written(1)]
  have old: "\<forall>old. cmaps s (ns, name) = Some old \<longrightarrow>
      (marked source old \<or> policy \<noteq> ConflictSkip) \<and> \<not> in_sync source h old"
    using g written(2) target_managed_marked [OF _ assms(2)]
    by (cases target) (auto simp: in_sync_def)
  from upsert [OF written(3)] g obtain cm where "fresh_copy source eff h cm" "cmaps s' = (cmaps s)((ns, name) \<mapsto> cm)"
    by (auto simp: fresh_copy_def)
  then show thesis using written old by (intro that(4)) auto
qed

lemma cleanup_target_cluster:
  assumes "cleanup_target client key name prune ns s = (e, s')"
  obtains
    (failed) "e \<noteq> None" "cmaps s' = cmaps s"
  | (deleted) "prune" "cmaps s' = (cmaps s)((ns, name) := None)"
  | (gone) "\<not> prune" "cmaps s' = cmaps s" "cmaps s (ns, name) = None"
  | (detached) old new where "\<not> prune" "cmaps s (ns, name) = Some old" "detached_from old new"
      "cmaps s' = (cmaps s)((ns, name) \<mapsto> new)"
proof -
  have upd: "(\<exists>err. x = Inl err) \<and> cmaps s' = cmaps s \<or> (\<exists>old new. cmaps s (ns, name) = Some old \<and> detached_from old new \<and>
        cmaps s' = (cmaps s)((ns, name) \<mapsto> new))"
    if get: "GetTargetConfigMap client ns name (rc_world s) = (Inr (Some (d, l, a)), w1)"
      and u: "UpdateConfigMapMetadata client ns name (go_delete l ManagedLabel)
         (go_delete (go_delete a SourceAnnotation) HashAnnotation) w1 = (x, rc_world s')" for d l a w1 x
  proof -
    obtain old where old: "cmaps s (ns, name) = Some old" "written_as d l a old" "cluster w1 = cmaps s"
      using get_target [OF get] by blast
    have new: "detached_from old new"
      if "written_as (cm_data old) (go_delete l ManagedLabel) (go_delete (go_delete a SourceAnnotation) HashAnnotation) new"
        "cm_binary_data new = cm_binary_data old" for new
      using that old(2) by (auto simp: detached_from_def written_as_def fun_eq_iff)
    show ?thesis using update_metadata [OF u] old new by auto
  qed
  from assms show thesis
  proof (cases rule: cleanup_targetE)
    case (delete_error err msg)
    then show thesis using delete [OF delete_error(2)] failed deleted by auto
  next
    case (pruned u msg)
    then show thesis using delete [OF pruned(2)] that(2) by auto
  next
    case (get_error err msg)
    then show thesis using get_target [OF get_error(2)] failed by simp
  next
    case gone
    then show thesis using get_target [OF gone(2)] that(3) by simp
  next
    case (detach_error d l a w1 err msg)
    then show thesis using upd [OF detach_error(2,3)] failed that(4) by auto
  next
    case (detached d l a w1 u msg)
    then show thesis using upd [OF detached(2,3)] that(4) by auto
  qed
qed

section \<open>The loops\<close>

lemma sync_loop_invariant:
  assumes "sync_loop client key name eff h source policy nss out s = (oe, s')" "source \<noteq> []" "P (cmaps s)"
    and step: "\<And>c ns cm. P c \<Longrightarrow> ns \<in> set nss \<Longrightarrow> fresh_copy source eff h cm \<Longrightarrow>
      (\<forall>old. c (ns, name) = Some old \<longrightarrow> (marked source old \<or> policy \<noteq> ConflictSkip) \<and> \<not> in_sync source h old) \<Longrightarrow>
      P (c((ns, name) \<mapsto> cm))"
  shows "P (cmaps s')"
  using assms(1,3) step
proof (induction nss arbitrary: out s)
  case (Cons ns nss)
  obtain o1 e1 s1 where t: "sync_target client key name eff h source policy ns out s = ((o1, e1), s1)"
    by (metis surj_pair)
  have P1: "P (cmaps s1)"
    using t assms(2)
  proof (cases rule: sync_target_cluster)
    case (written cm)
    show ?thesis unfolding written(2) using Cons.prems(2) written(1,3) by (intro Cons.prems(3)) simp_all
  qed (use Cons.prems(2) in simp_all)
  show ?case
  proof (cases e1)
    case None
    with Cons.prems(1) t have "sync_loop client key name eff h source policy nss o1 s1 = (oe, s')" by simp
    from Cons.IH [OF this P1] Cons.prems(3) show ?thesis by simp
  next
    case (Some x)
    with Cons.prems(1) t P1 show ?thesis by simp
  qed
qed simp

lemma sync_loop_frame:
  assumes "sync_loop client key name eff h source policy nss out s = (oe, s')" "source \<noteq> []"
    "k \<notin> (\<lambda>ns. (ns, name)) ` set nss"
  shows "cmaps s' k = cmaps s k"
  by (rule sync_loop_invariant [OF assms(1,2), where P = "\<lambda>c. c k = cmaps s k"]) (use assms(3) in auto)

lemma sync_loop_success:
  assumes "sync_loop client key name eff h source policy nss out s = ((out', None), s')" "source \<noteq> []" "distinct nss"
  shows "\<exists>wrt skip. so_completed out' = so_completed out @ wrt \<and>
    so_out_of_sync out' = so_out_of_sync out @ map conflict_item skip \<and> set wrt \<union> set skip = set nss \<and>
    (\<forall>ns \<in> set wrt. \<exists>cm. cmaps s' (ns, name) = Some cm \<and> in_sync source h cm \<and>
       (cmaps s (ns, name) = Some cm \<or> fresh_copy source eff h cm)) \<and>
    (\<forall>ns \<in> set skip. \<exists>cm. cmaps s (ns, name) = Some cm \<and> cmaps s' (ns, name) = Some cm \<and>
       \<not> marked source cm \<and> policy = ConflictSkip)"
  using assms(1,3)
proof (induction nss arbitrary: out s)
  case Nil
  then show ?case by simp
next
  case (Cons ns nss)
  obtain o1 e1 s1 where t: "sync_target client key name eff h source policy ns out s = ((o1, e1), s1)"
    by (metis surj_pair)
  have e1: "e1 = None" using Cons.prems t by (cases e1) auto
  with Cons.prems t have l: "sync_loop client key name eff h source policy nss o1 s1 = ((out', None), s')"
    by simp
  from Cons.IH [OF l] Cons.prems(2) obtain wrt skip where ih: "so_completed out' = so_completed o1 @ wrt"
    "so_out_of_sync out' = so_out_of_sync o1 @ map conflict_item skip" "set wrt \<union> set skip = set nss"
    "\<forall>x \<in> set wrt. \<exists>cm. cmaps s' (x, name) = Some cm \<and> in_sync source h cm \<and>
       (cmaps s1 (x, name) = Some cm \<or> fresh_copy source eff h cm)"
    "\<forall>x \<in> set skip. \<exists>cm. cmaps s1 (x, name) = Some cm \<and> cmaps s' (x, name) = Some cm \<and>
       \<not> marked source cm \<and> policy = ConflictSkip" by auto
  have here: "cmaps s' (ns, name) = cmaps s1 (ns, name)"
    by (rule sync_loop_frame [OF l assms(2)]) (use Cons.prems(2) in auto)
  have other: "cmaps s1 (x, name) = cmaps s (x, name)" if "x \<noteq> ns" for x
    using t assms(2) that by (cases rule: sync_target_cluster) auto
  have ns: "ns \<notin> set wrt" "ns \<notin> set skip" using ih(3) Cons.prems(2) by auto
  have wrt: "\<exists>cm. cmaps s' (x, name) = Some cm \<and> in_sync source h cm \<and>
      (cmaps s (x, name) = Some cm \<or> fresh_copy source eff h cm)" if "x \<in> set wrt" for x
  proof -
    have "x \<noteq> ns" using that ns(1) by blast
    from bspec [OF ih(4) that] show ?thesis unfolding other [OF \<open>x \<noteq> ns\<close>] .
  qed
  have skip: "\<exists>cm. cmaps s (x, name) = Some cm \<and> cmaps s' (x, name) = Some cm \<and>
      \<not> marked source cm \<and> policy = ConflictSkip" if "x \<in> set skip" for x
  proof -
    have "x \<noteq> ns" using that ns(2) by blast
    from bspec [OF ih(5) that] show ?thesis unfolding other [OF \<open>x \<noteq> ns\<close>] .
  qed
  from t assms(2) show ?case
  proof (cases rule: sync_target_cluster)
    case failed
    with e1 show ?thesis by simp
  next
    case (conflict cm)
    with ih(1-3) here wrt skip show ?thesis
      by (intro exI [of _ wrt] exI [of _ "ns # skip"]) simp
  next
    case (up_to_date cm)
    with ih(1-3) here wrt skip show ?thesis
      by (intro exI [of _ "ns # wrt"] exI [of _ skip]) simp
  next
    case (written cm)
    then have "\<exists>cm. cmaps s' (ns, name) = Some cm \<and> in_sync source h cm \<and>
        (cmaps s (ns, name) = Some cm \<or> fresh_copy source eff h cm)"
      using here fresh_copy_in_sync by auto
    with ih(1-3) wrt skip written(4) [OF e1] show ?thesis
      by (intro exI [of _ "ns # wrt"] exI [of _ skip]) simp
  qed
qed

lemma cleanup_loop_invariant:
  assumes "cleanup_loop client key name prune sel nss s = (e, s')" "P (cmaps s)"
    and del: "\<And>c ns. P c \<Longrightarrow> ns \<in> set nss - sel \<Longrightarrow> prune \<Longrightarrow> P (c((ns, name) := None))"
    and det: "\<And>c ns old new. P c \<Longrightarrow> ns \<in> set nss - sel \<Longrightarrow> \<not> prune \<Longrightarrow> c (ns, name) = Some old \<Longrightarrow>
      detached_from old new \<Longrightarrow> P (c((ns, name) \<mapsto> new))"
  shows "P (cmaps s')"
  using assms
proof (induction nss arbitrary: s)
  case (Cons ns nss)
  obtain e1 s1 where t: "cleanup_target client key name prune ns s = (e1, s1)" by fastforce
  show ?case
  proof (cases "ns \<in> sel")
    case True
    with Cons.prems have "cleanup_loop client key name prune sel nss s = (e, s')" by simp
    from Cons.IH [OF this Cons.prems(2)] Cons.prems(3,4) show ?thesis by simp
  next
    case False
    have P1: "P (cmaps s1)"
      using t
    proof (cases rule: cleanup_target_cluster)
      case deleted
      show ?thesis unfolding deleted(2) using Cons.prems(2) False deleted(1) by (intro Cons.prems(3)) simp_all
    next
      case (detached old new)
      show ?thesis unfolding detached(4)
        using Cons.prems(2) False detached(1-3) by (intro Cons.prems(4) [of _ ns old]) simp_all
    qed (use Cons.prems(2) in simp_all)
    show ?thesis
    proof (cases e1)
      case None
      with Cons.prems(1) t False have "cleanup_loop client key name prune sel nss s1 = (e, s')" by simp
      from Cons.IH [OF this P1] Cons.prems(3,4) show ?thesis by simp
    next
      case (Some x)
      with Cons.prems(1) t P1 False show ?thesis by simp
    qed
  qed
qed simp

lemma cleanup_loop_frame:
  assumes "cleanup_loop client key name prune sel nss s = (e, s')"
    "k \<notin> (\<lambda>ns. (ns, name)) ` (set nss - sel)"
  shows "cmaps s' k = cmaps s k"
  by (rule cleanup_loop_invariant [OF assms(1), where P = "\<lambda>c. c k = cmaps s k"]) (use assms(2) in auto)

lemma cleanup_loop_success:
  assumes "cleanup_loop client key name prune sel nss s = (None, s')" "x \<in> set nss - sel"
  shows "cleaned prune (cmaps s (x, name)) (cmaps s' (x, name))"
  using assms
proof (induction nss arbitrary: s)
  case (Cons ns nss)
  obtain e1 s1 where t: "cleanup_target client key name prune ns s = (e1, s1)" by fastforce
  show ?case
  proof (cases "ns \<in> sel")
    case True
    with Cons show ?thesis by auto
  next
    case False
    with Cons.prems t have e1: "e1 = None" by (cases e1) auto
    with Cons.prems(1) t False have l: "cleanup_loop client key name prune sel nss s1 = (None, s')" by simp
    have here: "cleaned prune (cmaps s (ns, name)) (cmaps s1 (ns, name))"
      using t e1 by (cases rule: cleanup_target_cluster) (auto simp: cleaned_def)
    have other: "y \<noteq> ns \<Longrightarrow> cmaps s1 (y, name) = cmaps s (y, name)" for y
      using t by (cases rule: cleanup_target_cluster) auto
    show ?thesis
    proof (cases "x \<in> set nss")
      case True
      with Cons.IH [OF l] Cons.prems(2) here other [of x] show ?thesis
        by (cases "x = ns") (auto intro: cleaned_trans)
    next
      case notin: False
      then have "x = ns" using Cons.prems(2) by simp
      moreover have "cmaps s' (x, name) = cmaps s1 (x, name)"
        by (rule cleanup_loop_frame [OF l]) (use notin in auto)
      ultimately show ?thesis using here by simp
    qed
  qed
qed simp

section \<open>The cleanup\<close>

lemma cleanup_deselected_cases:
  assumes "cleanup_deselected client key spec sel s = (e, s')"
  obtains (failed) "e \<noteq> None" "cmaps s' = cmaps s"
  | (listed) nss s1 where "cmaps s1 = cmaps s"
      "set nss = {ns. \<exists>cm. cmaps s (ns, ref_name (sp_source_ref spec)) = Some cm \<and> managed_copy (source_of spec) cm}"
      "cleanup_loop client key (ref_name (sp_source_ref spec)) (prunes spec) (set sel) nss s1 = (e, s')"
proof -
  obtain r s1 where l: "run_call (ListManagedTargetNamespaces client (source_of spec)
      (ref_name (sp_source_ref spec))) s = (r, s1)" by fastforce
  note lm = list_managed [OF run_callD(1) [OF l]]
  show thesis
  proof (cases r)
    case (Inl err)
    with assms l lm show thesis
      by (intro failed) (auto simp: cleanup_deselected_def Let_def record_error_logged source_of_def)
  next
    case (Inr nss)
    with assms l lm show thesis
      by (intro listed [of s1 nss]) (simp_all add: cleanup_deselected_def Let_def source_of_def prunes_def)
  qed
qed

lemma cleanup_deselected_invariant:
  assumes "cleanup_deselected client key spec sel s = (e, s')" "P (cmaps s)"
    and del: "\<And>c ns. P c \<Longrightarrow> ns \<notin> set sel \<Longrightarrow> prunes spec \<Longrightarrow>
      (\<exists>cm. cmaps s (ns, ref_name (sp_source_ref spec)) = Some cm \<and> managed_copy (source_of spec) cm) \<Longrightarrow>
      P (c((ns, ref_name (sp_source_ref spec)) := None))"
    and det: "\<And>c ns old new. P c \<Longrightarrow> ns \<notin> set sel \<Longrightarrow> \<not> prunes spec \<Longrightarrow>
      (\<exists>cm. cmaps s (ns, ref_name (sp_source_ref spec)) = Some cm \<and> managed_copy (source_of spec) cm) \<Longrightarrow>
      c (ns, ref_name (sp_source_ref spec)) = Some old \<Longrightarrow> detached_from old new \<Longrightarrow>
      P (c((ns, ref_name (sp_source_ref spec)) \<mapsto> new))"
  shows "P (cmaps s')"
  using assms(1)
proof (cases rule: cleanup_deselected_cases)
  case failed
  then show ?thesis using assms(2) by simp
next
  case (listed nss s1)
  show ?thesis
  proof (rule cleanup_loop_invariant [OF listed(3)])
    show "P (cmaps s1)" using assms(2) listed(1) by simp
  next
    fix c ns assume "P c" "ns \<in> set nss - set sel" "prunes spec"
    then show "P (c((ns, ref_name (sp_source_ref spec)) := None))" by (intro del) (auto simp: listed(2))
  next
    fix c ns old new
    assume "P c" "ns \<in> set nss - set sel" "\<not> prunes spec" "c (ns, ref_name (sp_source_ref spec)) = Some old"
      "detached_from old new"
    then show "P (c((ns, ref_name (sp_source_ref spec)) \<mapsto> new))"
      by (intro det [of c ns old new]) (auto simp: listed(2))
  qed
qed

lemma cleanup_deselected_frame:
  assumes "cleanup_deselected client key spec sel s = (e, s')"
    "snd k \<noteq> ref_name (sp_source_ref spec) \<or> fst k \<in> set sel \<or>
     (\<forall>cm. cmaps s k = Some cm \<longrightarrow> \<not> managed_copy (source_of spec) cm)"
  shows "cmaps s' k = cmaps s k"
  by (rule cleanup_deselected_invariant [OF assms(1), where P = "\<lambda>c. c k = cmaps s k"])
    (use assms(2) in \<open>cases k, auto\<close>)+

lemma cleanup_deselected_success:
  assumes "cleanup_deselected client key spec sel s = (None, s')" "ns \<notin> set sel"
    "cmaps s (ns, ref_name (sp_source_ref spec)) = Some cm" "managed_copy (source_of spec) cm"
  shows "cleaned (prunes spec) (Some cm) (cmaps s' (ns, ref_name (sp_source_ref spec)))"
  using assms(1)
proof (cases rule: cleanup_deselected_cases)
  case (listed nss s1)
  then show ?thesis using cleanup_loop_success [OF listed(3), of ns] assms(2-4) by auto
qed simp

lemma cleaned_not_managed:
  "cleaned prune (Some cm) (Some new) \<Longrightarrow> \<not> managed_copy (source_of spec) new"
  using detached_not_managed [of cm new "source_of spec"] by (auto simp: cleaned_def split: if_splits)

text \<open>After a successful cleanup no copy outside the selection carries the marks of this source.\<close>

lemma cleanup_deselected_complete:
  assumes "cleanup_deselected client key spec sel s = (None, s')" "ns \<notin> set sel"
    "cmaps s' (ns, ref_name (sp_source_ref spec)) = Some new"
  shows "\<not> managed_copy (source_of spec) new"
proof (cases "\<exists>cm. cmaps s (ns, ref_name (sp_source_ref spec)) = Some cm \<and> managed_copy (source_of spec) cm")
  case True
  then obtain cm where "cmaps s (ns, ref_name (sp_source_ref spec)) = Some cm" "managed_copy (source_of spec) cm"
    by blast
  from cleanup_deselected_success [OF assms(1,2) this] assms(3) show ?thesis
    using cleaned_not_managed by simp
next
  case False
  then have "cmaps s' (ns, ref_name (sp_source_ref spec)) = cmaps s (ns, ref_name (sp_source_ref spec))"
    by (intro cleanup_deselected_frame [OF assms(1)]) auto
  with False assms(3) show ?thesis by auto
qed

section \<open>A run of reconcileImpl\<close>

text \<open>The stages of a run: it stops before the first write, during the writes, or in the cleanup.\<close>

lemma impl_cases:
  assumes impl: "reconcile_impl client key spec s = (res, s')"
  obtains
    (early) err where "cmaps s' = cmaps s" "res = Inl err"
  | (stopped) src listed planned s3 out err where "cmaps s (source_key spec) = Some src"
      "listed_targets client spec (rc_world s) = Some listed" "distinct planned" "set planned \<subseteq> set listed" "cmaps s3 = cmaps s"
      "sync_loop client key (ref_name (sp_source_ref spec)) (desired_data spec src)
         (HashData (desired_data spec src)) (source_of spec) (sp_conflict_policy spec) planned
         \<lparr>so_completed = [], so_out_of_sync = []\<rparr> s3 = ((out, Some err), s')"
      "res = Inl err" "is_rolling spec \<longrightarrow> length planned \<le> desired_batch spec"
  | (swept) src listed planned s3 out s4 s5 e where "cmaps s (source_key spec) = Some src"
      "listed_targets client spec (rc_world s) = Some listed" "distinct planned" "set planned \<subseteq> set listed" "cmaps s3 = cmaps s"
      "sync_loop client key (ref_name (sp_source_ref spec)) (desired_data spec src)
         (HashData (desired_data spec src)) (source_of spec) (sp_conflict_policy spec) planned
         \<lparr>so_completed = [], so_out_of_sync = []\<rparr> s3 = ((out, None), s4)"
      "cmaps s5 = cmaps s4" "cleanup_deselected client key spec (sort listed) s5 = (e, s')"
      "is_rolling spec \<longrightarrow> length planned \<le> desired_batch spec"
      "is_immediate spec \<longrightarrow> set planned = set listed"
      "\<And>r. res = Inr r \<Longrightarrow> e = None \<and> rr_planned r = planned \<and> rr_total_targets r = length listed \<and>
         (set (so_completed out) \<inter> oos_namespace ` set (so_out_of_sync out) = {} \<longrightarrow>
            oos_namespace ` set (so_out_of_sync out) \<subseteq> oos_namespace ` set (rr_out_of_sync r) \<and>
            set (so_completed out) \<inter> oos_namespace ` set (rr_out_of_sync r) = {})"
proof -
  let ?ns = "ref_namespace (sp_source_ref spec)" and ?n = "ref_name (sp_source_ref spec)"
  obtain rs s1 where src: "run_call (GetSourceConfigMap client ?ns ?n) s = (rs, s1)" by fastforce
  note c1 = get_source [OF run_callD(1) [OF src]]
  show thesis
  proof (cases rs)
    case (Inl err)
    with impl src c1 show thesis
      by (intro early) (auto simp: reconcile_impl_def Let_def record_error_logged)
  next
    case rs: (Inr d)
    then obtain cm where cm: "cmaps s (source_key spec) = Some cm" "go_lookup d = go_lookup (cm_data cm)"
      using c1 by (auto simp: source_key_def)
    have eff: "compute_effective d (sp_data_keys spec) = desired_data spec cm"
      unfolding desired_data_def by (rule compute_effective_cong [OF cm(2)])
    show thesis
    proof (cases "sp_namespace_selector spec")
      case None
      with impl src rs c1 show thesis by (intro early) (auto simp: reconcile_impl_def Let_def)
    next
      case (Some selector)
      obtain rl s2 where lst: "list_targets client selector s1 = (rl, s2)" by fastforce
      note call = run_callD(1) [OF lst [unfolded list_targets_def]]
      note c2 = list_namespaces [OF call]
      show thesis
      proof (cases rl)
        case (Inl err)
        with impl src rs Some lst c1 c2 show thesis
          by (intro early) (auto simp: reconcile_impl_def Let_def record_error_logged)
      next
        case rl: (Inr listed)
        note can = listed_targetsI [OF src [unfolded rs] Some lst [unfolded rl]]
        show thesis
        proof (cases "sp_strategy spec")
          case None
          with impl src rs Some lst rl c1 c2 show thesis
            by (intro early) (auto simp: reconcile_impl_def Let_def)
        next
          case st: (Some st)
          let ?h = "HashData (desired_data spec cm)"
          obtain planned n s3 where pl: "plan_targets key ?h (sort listed) (us_type st)
              (case us_batch_size st of None \<Rightarrow> 5 | Some b \<Rightarrow> b) s2 = ((planned, n), s3)" by (metis surj_pair)
          note p = plan_targets_planned [OF pl]
          note sizes = plan_targets_sizes [OF st pl]
          have dist: "distinct planned" "set planned \<subseteq> set listed" "cmaps s3 = cmaps s"
            using p c1 c2 rl by auto
          obtain out oe s4 where sy: "sync_loop client key ?n (desired_data spec cm) ?h (source_of spec)
              (sp_conflict_policy spec) planned \<lparr>so_completed = [], so_out_of_sync = []\<rparr> s3 = ((out, oe), s4)"
            by (metis surj_pair)
          then have sy': "sync_targets client key planned ?n (desired_data spec cm) ?h ?ns
              (sp_conflict_policy spec) s3 = ((out, oe), s4)"
            by (simp add: sync_targets_def source_of_def)
          note run = impl [unfolded reconcile_impl_def Let_def src rs Some lst rl st prod.case sum.case
              option.case eff pl sy']
          show thesis
          proof (cases oe)
            case (Some e)
            with run have "s4 = s'" "res = Inl e" by auto
            with sy Some sizes show thesis by (intro stopped [OF cm(1) can dist]) simp_all
          next
            case None
            obtain cnt oos s5 where ac: "account_targets key (us_type st) ?h (sort listed) out s4 = ((cnt, oos), s5)"
              by (metis surj_pair)
            obtain e s6 where cl: "cleanup_deselected client key spec (sort listed) s5 = (e, s6)" by fastforce
            have s6: "s6 = s'" and res: "\<And>r. res = Inr r \<Longrightarrow> e = None \<and> r = \<lparr>rr_planned = planned,
                rr_total_targets = length (sort listed), rr_completed_count = cnt, rr_out_of_sync = oos\<rparr>"
              using run by (auto simp: None ac cl split: option.splits)
            show thesis
              by (rule swept [OF cm(1) can dist sy [unfolded None] _ cl [unfolded s6]])
                (use res sizes account_targets_world [OF ac] account_targets_splits [OF ac] in auto)
          qed
        qed
      qed
    qed
  qed
qed

lemma impl_invariant:
  assumes impl: "reconcile_impl client key spec s = (res, s')" and start: "P (cmaps s)"
    and sync: "\<And>c ns cm src nss. P c \<Longrightarrow> cmaps s (source_key spec) = Some src \<Longrightarrow> listed_targets client spec (rc_world s) = Some nss \<Longrightarrow>
      ns \<in> set nss \<Longrightarrow> fresh_copy (source_of spec) (desired_data spec src) (HashData (desired_data spec src)) cm \<Longrightarrow>
      (\<forall>old. c (ns, ref_name (sp_source_ref spec)) = Some old \<longrightarrow>
         (marked (source_of spec) old \<or> sp_conflict_policy spec \<noteq> ConflictSkip) \<and>
         \<not> in_sync (source_of spec) (HashData (desired_data spec src)) old) \<Longrightarrow>
      P (c((ns, ref_name (sp_source_ref spec)) \<mapsto> cm))"
    and del: "\<And>c c0 ns nss cm. P c \<Longrightarrow> P c0 \<Longrightarrow> listed_targets client spec (rc_world s) = Some nss \<Longrightarrow> ns \<notin> set nss \<Longrightarrow> prunes spec \<Longrightarrow>
      c0 (ns, ref_name (sp_source_ref spec)) = Some cm \<Longrightarrow> managed_copy (source_of spec) cm \<Longrightarrow>
      P (c((ns, ref_name (sp_source_ref spec)) := None))"
    and det: "\<And>c c0 ns nss cm old new. P c \<Longrightarrow> P c0 \<Longrightarrow> listed_targets client spec (rc_world s) = Some nss \<Longrightarrow> ns \<notin> set nss \<Longrightarrow>
      \<not> prunes spec \<Longrightarrow> c0 (ns, ref_name (sp_source_ref spec)) = Some cm \<Longrightarrow> managed_copy (source_of spec) cm \<Longrightarrow>
      c (ns, ref_name (sp_source_ref spec)) = Some old \<Longrightarrow> detached_from old new \<Longrightarrow>
      P (c((ns, ref_name (sp_source_ref spec)) \<mapsto> new))"
  shows "P (cmaps s')"
  using impl
proof (cases rule: impl_cases)
  case early
  then show ?thesis using start by simp
next
  case (stopped src listed planned s3 out err)
  show ?thesis
  proof (rule sync_loop_invariant [OF stopped(6)])
    show "P (cmaps s3)" using start stopped(5) by simp
  qed (rule source_of_nonempty, rule sync [OF _ stopped(1,2)], use stopped(4) in auto)
next
  case (swept src listed planned s3 out s4 s5 e)
  have P5: "P (cmaps s5)"
    unfolding swept(7)
  proof (rule sync_loop_invariant [OF swept(6)])
    show "P (cmaps s3)" using start swept(5) by simp
  qed (rule source_of_nonempty, rule sync [OF _ swept(1,2)], use swept(4) in auto)
  show ?thesis
  proof (rule cleanup_deselected_invariant [OF swept(8)])
    show "P (cmaps s5)" by (rule P5)
  next
    fix c ns assume "P c" "ns \<notin> set (sort listed)" "prunes spec"
      "\<exists>cm. cmaps s5 (ns, ref_name (sp_source_ref spec)) = Some cm \<and> managed_copy (source_of spec) cm"
    then show "P (c((ns, ref_name (sp_source_ref spec)) := None))"
      using del [OF \<open>P c\<close> P5 swept(2)] by auto
  next
    fix c ns old new assume "P c" "ns \<notin> set (sort listed)" "\<not> prunes spec"
      "\<exists>cm. cmaps s5 (ns, ref_name (sp_source_ref spec)) = Some cm \<and> managed_copy (source_of spec) cm"
      "c (ns, ref_name (sp_source_ref spec)) = Some old" "detached_from old new"
    then show "P (c((ns, ref_name (sp_source_ref spec)) \<mapsto> new))"
      using det [OF \<open>P c\<close> P5 swept(2)] by auto
  qed
qed

end

end
