(* ===== verification/Label_Selection.thy ===== *)
theory Label_Selection
  imports Client_Adapter
begin

text \<open>
  Which namespaces a selector selects. The documented meaning of a Kubernetes label selector is
  \<open>selector_matches\<close>; the locale \<open>labels_contract\<close> is what \<open>ListNamespacesBySelector\<close> relies on in
  apimachinery's \<open>labels\<close> package, and under it the adapter's two loops build a selector with that
  meaning, in whatever order the runtime visits \<open>matchLabels\<close>.
\<close>

section \<open>The meaning of a selector\<close>

fun operator_holds :: "selection_operator \<Rightarrow> string list \<Rightarrow> string option \<Rightarrow> bool" where
  "operator_holds SelEquals vs v \<longleftrightarrow> (\<exists>x. v = Some x \<and> x \<in> set vs)"
| "operator_holds SelIn vs v \<longleftrightarrow> (\<exists>x. v = Some x \<and> x \<in> set vs)"
| "operator_holds SelNotIn vs v \<longleftrightarrow> (\<forall>x. v = Some x \<longrightarrow> x \<notin> set vs)"
| "operator_holds SelExists vs v \<longleftrightarrow> v \<noteq> None"
| "operator_holds SelDoesNotExist vs v \<longleftrightarrow> v = None"

text \<open>A requirement of a spec, by the name of its operator; an unknown operator matches nothing.\<close>

definition requirement_matches :: "label_selector_requirement \<Rightarrow> go_map \<Rightarrow> bool" where
  "requirement_matches r ls \<longleftrightarrow>
     (let v = go_lookup ls (lreq_key r); vs = lreq_values r
      in if lreq_operator r = ''In'' then \<exists>x. v = Some x \<and> x \<in> set vs
         else if lreq_operator r = ''NotIn'' then \<forall>x. v = Some x \<longrightarrow> x \<notin> set vs
         else if lreq_operator r = ''Exists'' then v \<noteq> None
         else if lreq_operator r = ''DoesNotExist'' then v = None
         else False)"

definition selector_matches :: "go_map \<Rightarrow> label_selector_requirement list \<Rightarrow> go_map \<Rightarrow> bool" where
  "selector_matches matchLabels requirements ls \<longleftrightarrow>
     (\<forall>k v. go_lookup matchLabels k = Some v \<longrightarrow> go_lookup ls k = Some v) \<and>
     (\<forall>r \<in> set requirements. requirement_matches r ls)"

lemma requirement_matches_operator:
  "to_selection_operator (lreq_operator r) = Inr operator \<Longrightarrow>
     requirement_matches r ls \<longleftrightarrow> operator_holds operator (lreq_values r) (go_lookup ls (lreq_key r))"
  by (auto simp: to_selection_operator_def requirement_matches_def split: if_splits)

section \<open>What the labels package promises\<close>

locale labels_contract =
  fixes lib :: "('s, 'r) labels_lib"
  assumes new_selector: "lbl_matches lib (lbl_new_selector lib) ls"
    and add_requirement: "lbl_new_requirement lib k operator vs = Inr r \<Longrightarrow>
      lbl_matches lib (lbl_add lib s r) ls \<longleftrightarrow>
        lbl_matches lib s ls \<and> operator_holds operator vs (go_lookup ls k)"
    and empty_selector: "lbl_empty lib s \<Longrightarrow> lbl_matches lib s ls"
begin

lemma add_match_labels_matches:
  "add_match_labels lib s order = Inr s' \<Longrightarrow>
     lbl_matches lib s' ls \<longleftrightarrow> lbl_matches lib s ls \<and> (\<forall>(k, v) \<in> set order. go_lookup ls k = Some v)"
proof (induction order arbitrary: s)
  case (Cons kv order)
  obtain k v where kv: "kv = (k, v)" by fastforce
  with Cons.prems obtain r where r: "lbl_new_requirement lib k SelEquals [v] = Inr r"
    "add_match_labels lib (lbl_add lib s r) order = Inr s'" by (auto split: sum.splits)
  from Cons.IH [OF r(2)] add_requirement [OF r(1)] show ?case by (auto simp: kv)
qed simp

lemma add_requirements_matches:
  "add_requirements lib s reqs = Inr s' \<Longrightarrow>
     lbl_matches lib s' ls \<longleftrightarrow> lbl_matches lib s ls \<and> (\<forall>r \<in> set reqs. requirement_matches r ls)"
proof (induction reqs arbitrary: s)
  case (Cons q reqs)
  then obtain operator r where r: "to_selection_operator (lreq_operator q) = Inr operator"
    "lbl_new_requirement lib (lreq_key q) operator (lreq_values q) = Inr r"
    "add_requirements lib (lbl_add lib s r) reqs = Inr s'" by (auto split: sum.splits)
  from Cons.IH [OF r(3)] add_requirement [OF r(2)] requirement_matches_operator [OF r(1)]
  show ?case by auto
qed simp

lemma list_namespaces_selected:
  assumes "crc_list_namespaces_in_order lib api order reqs w = (Inr nss, w')"
    and "set order = {(k, v). go_lookup ml k = Some v}"
  obtains items where "api_list_namespaces api w = (Inr items, w')"
    "nss = map nso_name (filter (\<lambda>item. selector_matches ml reqs (nso_labels item)) items)"
proof -
  obtain s0 s1 items where s: "add_match_labels lib (lbl_new_selector lib) order = Inr s0"
    "add_requirements lib s0 reqs = Inr s1" "api_list_namespaces api w = (Inr items, w')"
    "nss = map nso_name (filter (\<lambda>item. lbl_empty lib s1 \<or> lbl_matches lib s1 (nso_labels item)) items)"
    using assms(1) by (auto simp: crc_list_namespaces_in_order_def split: sum.splits prod.splits)
  have "lbl_empty lib s1 \<or> lbl_matches lib s1 ls \<longleftrightarrow> selector_matches ml reqs ls" for ls
    using empty_selector [of s1 ls] add_requirements_matches [OF s(2), of ls]
      add_match_labels_matches [OF s(1), of ls] new_selector assms(2)
    by (auto simp: selector_matches_def)
  with s that show thesis by simp
qed

end

section \<open>The order of the visits\<close>

text \<open>Building the selector succeeds in one order exactly if it does in another.\<close>

lemma add_match_labels_ok:
  "(\<exists>s'. add_match_labels lib s order = Inr s') \<longleftrightarrow>
     (\<forall>(k, v) \<in> set order. \<exists>r. lbl_new_requirement lib k SelEquals [v] = Inr r)"
  by (induction lib s order rule: add_match_labels.induct) (auto split: sum.splits)

lemma add_requirements_ok:
  "(\<exists>s'. add_requirements lib s reqs = Inr s') \<longleftrightarrow>
     (\<forall>q \<in> set reqs. \<exists>operator r. to_selection_operator (lreq_operator q) = Inr operator \<and>
        lbl_new_requirement lib (lreq_key q) operator (lreq_values q) = Inr r)"
  by (induction lib s reqs rule: add_requirements.induct) (auto split: sum.splits)

lemma selector_ok_in_any_order:
  assumes "add_match_labels lib s order1 = Inr s0" "add_requirements lib s0 reqs = Inr s1" "set order1 = set order2"
  shows "\<exists>t0 t1. add_match_labels lib s order2 = Inr t0 \<and> add_requirements lib t0 reqs = Inr t1"
proof -
  have "\<forall>(k, v) \<in> set order2. \<exists>r. lbl_new_requirement lib k SelEquals [v] = Inr r"
    using iffD1 [OF add_match_labels_ok exI, OF assms(1)] assms(3) by simp
  then have "\<exists>t0. add_match_labels lib s order2 = Inr t0" by (rule iffD2 [OF add_match_labels_ok])
  moreover have "\<exists>t1. add_requirements lib t reqs = Inr t1" for t
    by (rule iffD2 [OF add_requirements_ok], rule iffD1 [OF add_requirements_ok], rule exI, rule assms(2))
  ultimately show ?thesis by blast
qed

lemma crc_list_bad_selector:
  assumes "q \<in> set reqs"
    "lreq_operator q \<notin> {''In'', ''NotIn'', ''Exists'', ''DoesNotExist''}"
  shows "\<exists>err. crc_list_namespaces_in_order lib api order reqs w = (Inl err, w)"
proof -
  have bad: "\<nexists>operator. to_selection_operator (lreq_operator q) = Inr operator"
    using assms(2) by (auto simp: to_selection_operator_def)
  have "\<nexists>s'. add_requirements lib s0 reqs = Inr s'" for s0
    using bad assms(1) add_requirements_ok [of lib s0 reqs] by blast
  then show ?thesis
    by (auto simp: crc_list_namespaces_in_order_def split: sum.splits)
qed

lemma set_go_range: "set (go_range m) = {(k, v). go_lookup m k = Some v}"
  by (auto simp: go_range_def go_get_def)

end
