(* ===== verification/Mem_Cluster.thy ===== *)
theory Mem_Cluster
  imports Label_Selection "HOL-Library.Product_Lexorder"
begin

text \<open>
  An API server in memory and a label-selector library, in the spirit of the fake clients the
  repository tests with: they satisfy \<open>api_contract\<close> and \<open>labels_contract\<close>, so that the adapter
  over them is a KubeClient on which every theorem about the contracts can be run. The server
  fails on demand: \<open>mw_faults\<close> lists, for the next calls, the error each one is to return.
\<close>

section \<open>The server\<close>

record mem_world =
  mw_objects :: "(string \<times> string, config_map) fmap"
  mw_namespaces :: "(string, go_map) fmap"
  mw_faults :: "string option list"

definition mem_fault :: "mem_world \<Rightarrow> string option \<times> mem_world" where
  "mem_fault w = (case mw_faults w of [] \<Rightarrow> (None, w) | f # fs \<Rightarrow> (f, w\<lparr>mw_faults := fs\<rparr>))"

definition mem_call :: "(mem_world, 'a) call \<Rightarrow> (mem_world, 'a) call" where
  "mem_call f w = (case mem_fault w of
     (Some e, w1) \<Rightarrow> (Inl (Api_Error (OtherReason ''InternalError'') e), w1)
   | (None, w1) \<Rightarrow> f w1)"

definition cm_at :: "string \<times> string \<Rightarrow> config_map \<Rightarrow> config_map" where
  "cm_at k cm = cm\<lparr>cm_namespace := fst k, cm_name := snd k\<rparr>"

definition not_found :: "string \<Rightarrow> go_error" where
  "not_found n = Api_Error NotFound (n @ '' not found'')"

definition mem_get :: "string \<Rightarrow> string \<Rightarrow> (mem_world, config_map) call" where
  "mem_get ns n = mem_call (\<lambda>w. case fmlookup (mw_objects w) (ns, n) of
     None \<Rightarrow> (Inl (not_found n), w) | Some cm \<Rightarrow> (Inr (cm_at (ns, n) cm), w))"

definition has_labels :: "go_map \<Rightarrow> config_map \<Rightarrow> bool" where
  "has_labels ls cm \<longleftrightarrow> list_all (\<lambda>k. go_lookup (cm_labels cm) k = go_lookup ls k) (go_range_keys ls)"

definition mem_list :: "go_map \<Rightarrow> (mem_world, config_map list) call" where
  "mem_list ls = mem_call (\<lambda>w. (Inr (filter (has_labels ls)
     (map (\<lambda>k. cm_at k (the (fmlookup (mw_objects w) k))) (sorted_list_of_fset (fmdom (mw_objects w))))), w))"

definition mem_list_namespaces :: "(mem_world, namespace_obj list) call" where
  "mem_list_namespaces = mem_call (\<lambda>w. (Inr
     (map (\<lambda>n. \<lparr>nso_name = n, nso_labels = the (fmlookup (mw_namespaces w) n)\<rparr>)
       (sorted_list_of_fset (fmdom (mw_namespaces w)))), w))"

definition mem_put :: "config_map \<Rightarrow> mem_world \<Rightarrow> unit result \<times> mem_world" where
  "mem_put cm w = (Inr (), w\<lparr>mw_objects := fmupd (cm_key cm) cm (mw_objects w)\<rparr>)"

definition mem_create :: "config_map \<Rightarrow> (mem_world, unit) call" where
  "mem_create cm = mem_call (\<lambda>w.
     if fmlookup (mw_objects w) (cm_key cm) = None then mem_put cm w
     else (Inl (Api_Error (OtherReason ''AlreadyExists'') (cm_name cm)), w))"

definition mem_update :: "config_map \<Rightarrow> (mem_world, unit) call" where
  "mem_update cm = mem_call (\<lambda>w.
     if fmlookup (mw_objects w) (cm_key cm) = None then (Inl (not_found (cm_name cm)), w)
     else mem_put cm w)"

definition mem_delete :: "string \<Rightarrow> string \<Rightarrow> (mem_world, unit) call" where
  "mem_delete ns n = mem_call (\<lambda>w.
     if fmlookup (mw_objects w) (ns, n) = None then (Inl (not_found n), w)
     else (Inr (), w\<lparr>mw_objects := fmdrop (ns, n) (mw_objects w)\<rparr>))"

definition mem_api :: "mem_world api_client" where
  "mem_api = \<lparr>api_get_config_map = mem_get, api_list_config_maps = mem_list,
     api_list_namespaces = mem_list_namespaces, api_create_config_map = mem_create,
     api_update_config_map = mem_update, api_delete_config_map = mem_delete\<rparr>"

definition stored_objects :: "(string \<times> string, config_map) fmap \<Rightarrow> string \<times> string \<Rightarrow> config_map option" where
  "stored_objects objects k = map_option (\<lambda>cm. cm_content (cm_at k cm)) (fmlookup objects k)"

definition mem_store :: "mem_world \<Rightarrow> string \<times> string \<Rightarrow> config_map option" where
  "mem_store w = stored_objects (mw_objects w)"

section \<open>The server keeps its promises\<close>

lemma cm_at_simps [simp]:
  "cm_namespace (cm_at k cm) = fst k" "cm_name (cm_at k cm) = snd k"
  "cm_labels (cm_at k cm) = cm_labels cm" "cm_annotations (cm_at k cm) = cm_annotations cm"
  "cm_data (cm_at k cm) = cm_data cm" "cm_binary_data (cm_at k cm) = cm_binary_data cm"
  "cm_at (cm_key cm) cm = cm"
  by (simp_all add: cm_at_def)

lemma mem_fault_frame:
  "mem_fault w = (f, w1) \<Longrightarrow> mw_objects w1 = mw_objects w \<and> mw_namespaces w1 = mw_namespaces w"
  by (auto simp: mem_fault_def split: list.splits)

lemma mem_callE:
  assumes "mem_call f w = (r, w')"
  obtains (fault) e where "r = Inl (Api_Error (OtherReason ''InternalError'') e)"
      "mw_objects w' = mw_objects w"
  | (run) w1 where "f w1 = (r, w')" "mw_objects w1 = mw_objects w" "mw_namespaces w1 = mw_namespaces w"
  using assms mem_fault_frame [of w] by (auto simp: mem_call_def split: prod.splits option.splits)

lemma stored_objects_upd [simp]:
  "stored_objects (fmupd (cm_key cm) cm objects) = (stored_objects objects)(cm_key cm \<mapsto> cm_content cm)"
  by (rule ext) (simp add: stored_objects_def)

lemma stored_objects_drop [simp]:
  "stored_objects (fmdrop k objects) = (stored_objects objects)(k := None)"
  by (rule ext) (simp add: stored_objects_def)

lemma stored_objects_None_iff [simp]: "stored_objects objects k = None \<longleftrightarrow> fmlookup objects k = None"
  by (simp add: stored_objects_def)

lemma not_found_simps [simp]: "is_not_found (not_found n)"
  "\<not> is_not_found (Api_Error (OtherReason s) e)"
  by (simp_all add: not_found_def is_not_found_def)

lemma has_labels_iff: "has_labels ls cm \<longleftrightarrow> (\<forall>k v. go_lookup ls k = Some v \<longrightarrow> go_lookup (cm_labels cm) k = Some v)"
  by (auto simp: has_labels_def list_all_iff)

lemma cm_content_at_idem: "cm_content (cm_at k (cm_content cm)) = cm_content (cm_at k cm)"
  by (simp add: cm_content_def cm_at_def stored_map_def)

lemma mem_get_law:
  assumes "mem_get ns n w = (r, w')"
  shows "mem_store w' = mem_store w \<and>
      (\<forall>cm. r = Inr cm \<longrightarrow> cm_key cm = (ns, n) \<and> mem_store w (ns, n) = Some (cm_content cm)) \<and>
      (\<forall>e. r = Inl e \<longrightarrow> is_not_found e \<longrightarrow> mem_store w (ns, n) = None)"
  using assms unfolding mem_get_def
  by (cases rule: mem_callE)
    (auto simp: mem_store_def stored_objects_def [of "mw_objects w"] split: option.splits)

lemma listed_objects:
  "cm_content ` {cm \<in> (\<lambda>k. cm_at k (the (fmlookup objects k))) ` {k. fmlookup objects k \<noteq> None}. has_labels ls cm} =
   {cm. stored_objects objects (cm_key cm) = Some cm \<and> has_labels ls cm}" (is "?L = ?R")
proof
  show "?L \<subseteq> ?R" by (auto simp: stored_objects_def has_labels_iff)
  show "?R \<subseteq> ?L"
  proof
    fix cm assume "cm \<in> ?R"
    then obtain c where c: "fmlookup objects (cm_key cm) = Some c" "cm = cm_content (cm_at (cm_key cm) c)"
      and l: "has_labels ls cm" by (auto simp: stored_objects_def)
    from l c(2) have "has_labels ls (cm_at (cm_key cm) c)"
      by (metis cm_content_simps(3) has_labels_iff stored_map_lookup)
    moreover have "cm_at (cm_key cm) c = cm_at (cm_key cm) (the (fmlookup objects (cm_key cm)))"
      using c(1) by simp
    ultimately show "cm \<in> ?L" using c by blast
  qed
qed

lemma mem_list_law:
  assumes "mem_list ls w = (r, w')"
  shows "mem_store w' = mem_store w \<and>
      (\<forall>cms. r = Inr cms \<longrightarrow> cm_content ` set cms =
         {cm. mem_store w (cm_key cm) = Some cm \<and>
            (\<forall>k v. go_lookup ls k = Some v \<longrightarrow> go_lookup (cm_labels cm) k = Some v)})"
  using assms unfolding mem_list_def
proof (cases rule: mem_callE)
  case fault
  then show ?thesis by (simp add: mem_store_def)
next
  case (run w1)
  have keys: "set (sorted_list_of_fset (fmdom (mw_objects w))) = {k. fmlookup (mw_objects w) k \<noteq> None}"
    by (auto simp: fmlookup_dom_iff)
  define cms0 where "cms0 = filter (has_labels ls)
    (map (\<lambda>k. cm_at k (the (fmlookup (mw_objects w) k))) (sorted_list_of_fset (fmdom (mw_objects w))))"
  have "cm_content ` set cms0 = {cm. mem_store w (cm_key cm) = Some cm \<and> has_labels ls cm}"
    unfolding cms0_def set_filter set_map keys mem_store_def by (rule listed_objects)
  moreover have "r = Inr cms0" "mw_objects w' = mw_objects w" using run by (auto simp: cms0_def)
  ultimately show ?thesis by (simp add: has_labels_iff mem_store_def)
qed

lemma mem_list_namespaces_law:
  assumes "mem_list_namespaces w = (r, w')"
  shows "mem_store w' = mem_store w \<and> (\<forall>nss. r = Inr nss \<longrightarrow> distinct (map nso_name nss))"
  using assms unfolding mem_list_namespaces_def
  by (cases rule: mem_callE) (auto simp: comp_def sorted_list_of_fset.rep_eq mem_store_def)

lemma mem_create_law:
  assumes "mem_create cm w = (r, w')"
  shows "(\<exists>e. r = Inl e) \<and> mem_store w' = mem_store w \<or> mem_store w' = (mem_store w)(cm_key cm \<mapsto> cm_content cm)"
  using assms unfolding mem_create_def
  by (cases rule: mem_callE) (auto simp: mem_put_def mem_store_def split: if_splits)

lemma mem_update_law:
  assumes "mem_update cm w = (r, w')"
  shows "(\<exists>e. r = Inl e) \<and> mem_store w' = mem_store w \<or> mem_store w' = (mem_store w)(cm_key cm \<mapsto> cm_content cm)"
  using assms unfolding mem_update_def
  by (cases rule: mem_callE) (auto simp: mem_put_def mem_store_def split: if_splits)

lemma mem_delete_law:
  assumes "mem_delete ns n w = (r, w')"
  shows "(\<exists>e. r = Inl e) \<and> mem_store w' = mem_store w \<or> mem_store w' = (mem_store w)((ns, n) := None)"
  using assms unfolding mem_delete_def
  by (cases rule: mem_callE) (auto simp: mem_store_def split: if_splits)

lemma mem_delete_missing:
  assumes "mem_delete ns n w = (Inl e, w')" "is_not_found e"
  shows "mem_store w (ns, n) = None"
  using assms unfolding mem_delete_def
  by (cases rule: mem_callE) (auto simp: mem_store_def split: if_splits)

lemma mem_stored: "mem_store w k = Some cm \<Longrightarrow> cm_key cm = k"
  by (auto simp: mem_store_def stored_objects_def)

lemmas mem_laws = mem_get_law mem_list_law mem_stored mem_list_namespaces_law mem_create_law
  mem_update_law mem_delete_law mem_delete_missing

interpretation mem: api_contract mem_api mem_store
  by (unfold_locales, unfold mem_api_def api_client.simps) (fact mem_laws)+

section \<open>The labels library\<close>

record mem_requirement =
  mr_key :: string
  mr_operator :: selection_operator
  mr_values :: "string list"

definition mem_new_requirement :: "string \<Rightarrow> selection_operator \<Rightarrow> string list \<Rightarrow> mem_requirement result" where
  "mem_new_requirement k operator vs =
     (if k = [] \<or> operator = SelEquals \<and> length vs \<noteq> 1 \<or> (operator = SelIn \<or> operator = SelNotIn) \<and> vs = [] \<or>
         (operator = SelExists \<or> operator = SelDoesNotExist) \<and> vs \<noteq> []
      then Inl (Errorf ''invalid requirement'')
      else Inr \<lparr>mr_key = k, mr_operator = operator, mr_values = vs\<rparr>)"

definition mem_labels :: "(mem_requirement list, mem_requirement) labels_lib" where
  "mem_labels = \<lparr>lbl_new_selector = [], lbl_new_requirement = mem_new_requirement,
     lbl_add = (\<lambda>s r. s @ [r]), lbl_empty = (\<lambda>s. s = []),
     lbl_matches = (\<lambda>s ls. list_all (\<lambda>r. operator_holds (mr_operator r) (mr_values r) (go_lookup ls (mr_key r))) s)\<rparr>"

interpretation mem_sel: labels_contract mem_labels
  by unfold_locales (auto simp: mem_labels_def mem_new_requirement_def split: if_splits)

section \<open>The client over both\<close>

definition mem_client :: "mem_world kube_client" where
  "mem_client = NewControllerRuntimeClient mem_labels mem_api"

lemma mem_client_contract: "kube_contract mem_client mem_store"
  unfolding mem_client_def by (rule mem.adapter.kube_contract_axioms)

section \<open>Running the client\<close>

text \<open>The equations with which concrete runs are evaluated.\<close>

named_theorems mem_eval \<open>evaluation of the in-memory client\<close>

lemma mem_client_methods [mem_eval]:
  "GetSourceConfigMap mem_client = crc_get_source mem_api"
  "ListNamespacesBySelector mem_client = crc_list_namespaces mem_labels mem_api"
  "UpsertConfigMap mem_client = crc_upsert mem_api"
  "GetTargetConfigMap mem_client = crc_get_target mem_api"
  "ListManagedTargetNamespaces mem_client = crc_list_managed mem_api"
  "DeleteConfigMap mem_client = crc_delete mem_api"
  "UpdateConfigMapMetadata mem_client = crc_update_metadata mem_api"
  by (simp_all add: mem_client_def NewControllerRuntimeClient_def)

lemma mem_api_methods [mem_eval]:
  "api_get_config_map mem_api = mem_get" "api_list_config_maps mem_api = mem_list"
  "api_list_namespaces mem_api = mem_list_namespaces" "api_create_config_map mem_api = mem_create"
  "api_update_config_map mem_api = mem_update" "api_delete_config_map mem_api = mem_delete"
  by (simp_all add: mem_api_def)

lemma mem_labels_methods [mem_eval]:
  "lbl_new_selector mem_labels = []" "lbl_new_requirement mem_labels = mem_new_requirement"
  "lbl_add mem_labels = (\<lambda>s r. s @ [r])" "lbl_empty mem_labels = (\<lambda>s. s = [])"
  by (simp_all add: mem_labels_def)

lemma copy_string_map_eval [mem_eval]:
  "copy_string_map m = (if go_entries m = fmempty then None else Some (go_entries m))"
  by (simp add: copy_string_map_def go_len_0_iff)

lemma go_range_eval [mem_eval]:
  "go_range None = []" "go_range (Some fmempty) = []"
  by (simp_all add: go_range_def go_range_keys_def sorted_list_of_fset.rep_eq)

lemma is_not_found_eval [mem_eval]: "is_not_found (Api_Error NotFound m)"
  by (simp add: is_not_found_def)

lemma has_labels_eval [mem_eval]:
  "has_labels (Some (fmupd k v fmempty)) cm \<longleftrightarrow> go_lookup (cm_labels cm) k = Some v"
  by (auto simp: has_labels_iff)

lemmas mem_run_eval [mem_eval] =
  crc_get_source_def crc_list_namespaces_def crc_list_namespaces_in_order_def crc_upsert_def
  crc_get_target_def crc_list_managed_def crc_delete_def crc_update_metadata_def
  mem_get_def mem_list_def mem_list_namespaces_def mem_create_def mem_update_def mem_delete_def
  mem_put_def mem_call_def mem_fault_def cm_at_def sorted_list_of_fset.rep_eq
  not_found_def

section \<open>Properties of the adapter\<close>

text \<open>C12. The adapter refines the KubeClient interface: over any API client that keeps the API
  server's promises, and any labels library, it keeps the contract the reconciler relies on.\<close>

theorem adapter_keeps_contract:
  assumes "api_contract api store"
  shows "kube_contract (NewControllerRuntimeClient lib api) store"
  by (rule api_contract.adapter_contract [OF assms])

theorem adapter_keeps_contract_witness:
  "kube_contract (NewControllerRuntimeClient mem_labels mem_api) mem_store"
  by (rule adapter_keeps_contract [OF mem.api_contract_axioms])

text \<open>C20. ListNamespacesBySelector returns, in listing order, exactly the namespaces whose labels
  have every matchLabels entry and satisfy every requirement.\<close>

theorem list_namespaces_exact:
  assumes "labels_contract lib"
    and "ListNamespacesBySelector (NewControllerRuntimeClient lib api) ml reqs w = (Inr nss, w')"
  shows "\<exists>items. api_list_namespaces api w = (Inr items, w') \<and>
    nss = map nso_name (filter (\<lambda>item. selector_matches ml reqs (nso_labels item)) items)"
proof -
  have run: "crc_list_namespaces_in_order lib api (go_range ml) reqs w = (Inr nss, w')"
    using assms(2) by (simp add: NewControllerRuntimeClient_def crc_list_namespaces_def)
  show ?thesis
    using labels_contract.list_namespaces_selected [OF assms(1) run set_go_range] by blast
qed

text \<open>The requirement \<open>env NotIn (prod)\<close> on two namespaces.\<close>

definition sel_world :: mem_world where
  "sel_world = \<lparr>mw_objects = fmempty,
     mw_namespaces = fmupd ''a'' (Some (fmupd ''env'' ''prod'' fmempty)) (fmupd ''b'' None fmempty), mw_faults = []\<rparr>"

lemma sel_run:
  "ListNamespacesBySelector mem_client None [\<lparr>lreq_key = ''env'', lreq_operator = ''NotIn'', lreq_values = [''prod'']\<rparr>]
     sel_world = (Inr [''b''], sel_world)"
  by (simp add: mem_eval mem_labels_def mem_new_requirement_def to_selection_operator_def sel_world_def)

theorem list_namespaces_exact_witness:
  "\<exists>items. api_list_namespaces mem_api sel_world = (Inr items, sel_world) \<and>
     [''b''] = map nso_name (filter (\<lambda>item. selector_matches None
       [\<lparr>lreq_key = ''env'', lreq_operator = ''NotIn'', lreq_values = [''prod'']\<rparr>] (nso_labels item)) items)"
  by (rule list_namespaces_exact [OF mem_sel.labels_contract_axioms sel_run [unfolded mem_client_def]])

text \<open>C32. The order in which the runtime visits matchLabels does not matter: two orders of the same
  entries list the same namespaces, and one fails exactly if the other does.\<close>

theorem list_namespaces_any_order:
  assumes "labels_contract lib" and "set order = set (go_range ml)"
  shows "crc_list_namespaces_in_order lib api order reqs w = (Inr nss, w') \<longleftrightarrow>
    crc_list_namespaces lib api ml reqs w = (Inr nss, w')"
proof -
  have one_way: "crc_list_namespaces_in_order lib api order2 reqs w = (Inr nss, w')"
    if run: "crc_list_namespaces_in_order lib api order1 reqs w = (Inr nss, w')"
      and o1: "set order1 = set (go_range ml)" and o2: "set order2 = set (go_range ml)" for order1 order2
  proof -
    from labels_contract.list_namespaces_selected [OF assms(1) run o1 [unfolded set_go_range]]
    obtain items where items: "api_list_namespaces api w = (Inr items, w')"
      "nss = map nso_name (filter (\<lambda>item. selector_matches ml reqs (nso_labels item)) items)" by blast
    obtain s0 s1 where s: "add_match_labels lib (lbl_new_selector lib) order1 = Inr s0"
      "add_requirements lib s0 reqs = Inr s1"
      using run by (auto simp: crc_list_namespaces_in_order_def split: sum.splits)
    obtain t0 t1 where "add_match_labels lib (lbl_new_selector lib) order2 = Inr t0"
      "add_requirements lib t0 reqs = Inr t1"
      using selector_ok_in_any_order [OF s, of order2] o1 o2 by auto
    then have "\<exists>nss'. crc_list_namespaces_in_order lib api order2 reqs w = (Inr nss', w')"
      using items(1) by (simp add: crc_list_namespaces_in_order_def)
    then obtain nss' where run2: "crc_list_namespaces_in_order lib api order2 reqs w = (Inr nss', w')" by blast
    from labels_contract.list_namespaces_selected [OF assms(1) run2 o2 [unfolded set_go_range]]
    show ?thesis using items run2 by auto
  qed
  show ?thesis using one_way [of order "go_range ml"] one_way [of "go_range ml" order] assms(2)
    by (auto simp: crc_list_namespaces_def)
qed

theorem list_namespaces_any_order_witness:
  "crc_list_namespaces_in_order mem_labels mem_api [] [\<lparr>lreq_key = ''env'', lreq_operator = ''NotIn'', lreq_values = [''prod'']\<rparr>]
     sel_world = (Inr [''b''], sel_world)"
  using list_namespaces_any_order [OF mem_sel.labels_contract_axioms, of "[]" None mem_api
      "[\<lparr>lreq_key = ''env'', lreq_operator = ''NotIn'', lreq_values = [''prod'']\<rparr>]" sel_world "[''b'']" sel_world]
    sel_run
  by (simp add: mem_client_methods set_go_range)

text \<open>C33. A selector with an operator other than the four known ones is an error, and the API server
  is not called.\<close>

theorem unknown_operator_rejected:
  assumes "q \<in> set reqs" and "lreq_operator q \<notin> {''In'', ''NotIn'', ''Exists'', ''DoesNotExist''}"
  shows "\<exists>err. ListNamespacesBySelector (NewControllerRuntimeClient lib api) ml reqs w = (Inl err, w)"
  using crc_list_bad_selector [OF assms]
  by (simp add: NewControllerRuntimeClient_def crc_list_namespaces_def)

theorem unknown_operator_rejected_witness:
  "\<exists>err. ListNamespacesBySelector (NewControllerRuntimeClient mem_labels mem_api) None
     [\<lparr>lreq_key = ''env'', lreq_operator = ''Gt'', lreq_values = [''1'']\<rparr>] sel_world = (Inl err, sel_world)"
  by (rule unknown_operator_rejected [of "\<lparr>lreq_key = ''env'', lreq_operator = ''Gt'', lreq_values = [''1'']\<rparr>"]) simp_all

text \<open>C23. An upsert of an existing ConfigMap is one update of the object that was read: the payload,
  the labels and the annotations are replaced as a whole (labels and annotations of others are
  lost), and the identity, the binary data and the server's metadata, with the resource version
  that guards against lost updates, are sent back as they were.\<close>

theorem upsert_replaces_content:
  assumes "api_get_config_map api ns n w = (Inr existing, w1)"
  shows "\<exists>cm. UpsertConfigMap (NewControllerRuntimeClient lib api) ns n d l a w = api_update_config_map api cm w1 \<and>
    written_as d l a cm \<and> cm_key cm = cm_key existing \<and>
    cm_binary_data cm = cm_binary_data existing \<and> cm_opaque cm = cm_opaque existing"
proof -
  let ?cm = "existing\<lparr>cm_data := copy_string_map d, cm_labels := Some (go_entries l),
    cm_annotations := Some (go_entries a)\<rparr>"
  have "UpsertConfigMap (NewControllerRuntimeClient lib api) ns n d l a w = api_update_config_map api ?cm w1"
    using assms by (simp add: NewControllerRuntimeClient_def crc_upsert_def Let_def)
  moreover have "go_lookup (Some (go_entries x)) = go_lookup x" for x by (rule ext) simp
  ultimately show ?thesis by (intro exI [of _ ?cm]) (simp add: written_as_def)
qed

definition one_object_world :: mem_world where
  "one_object_world = \<lparr>mw_objects = fmupd (''a'', ''c'') \<lparr>cm_namespace = ''a'', cm_name = ''c'',
       cm_labels = Some (fmupd ''team'' ''x'' fmempty), cm_annotations = None, cm_data = None,
       cm_binary_data = Some (fmupd ''b'' ''1'' fmempty), cm_opaque = ''rv7''\<rparr> fmempty,
     mw_namespaces = fmempty, mw_faults = []\<rparr>"

theorem upsert_replaces_content_witness:
  "\<exists>cm. UpsertConfigMap (NewControllerRuntimeClient mem_labels mem_api) ''a'' ''c'' None None None one_object_world =
     api_update_config_map mem_api cm one_object_world \<and>
     go_lookup (cm_labels cm) ''team'' = None \<and> go_lookup (cm_binary_data cm) ''b'' = Some ''1'' \<and> cm_opaque cm = ''rv7''"
proof -
  have "api_get_config_map mem_api ''a'' ''c'' one_object_world = (Inr \<lparr>cm_namespace = ''a'', cm_name = ''c'',
       cm_labels = Some (fmupd ''team'' ''x'' fmempty), cm_annotations = None, cm_data = None,
       cm_binary_data = Some (fmupd ''b'' ''1'' fmempty), cm_opaque = ''rv7''\<rparr>, one_object_world)"
    by (simp add: mem_eval one_object_world_def)
  from upsert_replaces_content [OF this, of mem_labels None None None] show ?thesis
    by (auto simp: written_as_def)
qed

end
