(* ===== verification/Example_Runs.thy ===== *)
theory Example_Runs
  imports Reconciler_Cluster Mem_Cluster
begin

text \<open>
  Concrete runs on the in-memory cluster, evaluated by rewriting (the content hash stays
  symbolic): the inputs at which the theorems about whole runs are applied. The cluster has the
  source, a namespace without a copy, a namespace with a ConfigMap of somebody else under the
  same name, and a stale copy in a namespace that no selector matches any more.
\<close>

definition ex_key :: reconcile_key where
  "ex_key = \<lparr>key_namespace = ''default'', key_name = ''cp''\<rparr>"

definition ex_source :: config_map where
  "ex_source = \<lparr>cm_namespace = ''src'', cm_name = ''cfg'', cm_labels = None, cm_annotations = None,
     cm_data = Some (fmupd ''k'' ''v'' fmempty), cm_binary_data = None, cm_opaque = []\<rparr>"

definition ex_foreign :: config_map where
  "ex_foreign = \<lparr>cm_namespace = ''n2'', cm_name = ''cfg'', cm_labels = None, cm_annotations = None,
     cm_data = Some (fmupd ''k'' ''mine'' fmempty), cm_binary_data = None, cm_opaque = []\<rparr>"

definition ex_stale :: config_map where
  "ex_stale = \<lparr>cm_namespace = ''old'', cm_name = ''cfg'', cm_labels = managed_labels,
     cm_annotations = managed_annotations ''src/cfg'' ''stale'',
     cm_data = Some (fmupd ''k'' ''u'' fmempty), cm_binary_data = None, cm_opaque = []\<rparr>"

definition ex_world :: mem_world where
  "ex_world = \<lparr>mw_objects = fmupd (''src'', ''cfg'') ex_source (fmupd (''n2'', ''cfg'') ex_foreign
       (fmupd (''old'', ''cfg'') ex_stale fmempty)),
     mw_namespaces = fmupd ''n1'' None (fmupd ''n2'' None fmempty), mw_faults = []\<rparr>"

text \<open>A spec with every field given, for either conflict policy and prune flag.\<close>

definition ex_immediate :: "string \<Rightarrow> bool \<Rightarrow> config_propagation_spec" where
  "ex_immediate policy prune = ex_spec\<lparr>sp_strategy := Some \<lparr>us_type = StrategyImmediate, us_batch_size = Some 5\<rparr>,
     sp_conflict_policy := policy, sp_prune := Some prune\<rparr>"

abbreviation "ex_data \<equiv> Some (fmupd ''k'' ''v'' fmempty)"

abbreviation "ex_hash \<equiv> HashData ex_data"

definition ex_copy :: "string \<Rightarrow> config_map" where
  "ex_copy ns = \<lparr>cm_namespace = ns, cm_name = ''cfg'', cm_labels = managed_labels,
     cm_annotations = managed_annotations ''src/cfg'' ex_hash, cm_data = ex_data,
     cm_binary_data = None, cm_opaque = []\<rparr>"

abbreviation ex_env :: "string \<Rightarrow> string" where
  "ex_env \<equiv> \<lambda>_. []"

lemma rc_world_NewReconciler [simp]: "rc_world (NewReconciler w) = w"
  by (simp add: NewReconciler_def)

lemmas ex_defs = ex_world_def ex_source_def ex_foreign_def ex_stale_def ex_spec_def ex_copy_def

lemma ex_immediate_fields [simp]:
  "sp_source_ref (ex_immediate policy prune) = \<lparr>ref_namespace = ''src'', ref_name = ''cfg''\<rparr>"
  "sp_namespace_selector (ex_immediate policy prune) = Some \<lparr>ls_match_labels = None, ls_match_expressions = []\<rparr>"
  "sp_data_keys (ex_immediate policy prune) = []"
  "sp_strategy (ex_immediate policy prune) = Some \<lparr>us_type = StrategyImmediate, us_batch_size = Some 5\<rparr>"
  "sp_conflict_policy (ex_immediate policy prune) = policy"
  "sp_prune (ex_immediate policy prune) = Some prune"
  "sp_resync_period_seconds (ex_immediate policy prune) = None"
  by (simp_all add: ex_immediate_def ex_spec_def)

lemma ex_immediate_complete:
  assumes "policy \<in> {ConflictSkip, ConflictOverwrite}"
  shows "DefaultSpec env (ex_immediate policy prune) = ex_immediate policy prune"
    "ValidateSpec (Some (ex_immediate policy prune)) = None"
  using assms
  by (auto simp: DefaultSpec_def ex_immediate_def Let_def ValidateSpec_valid valid_spec_def ex_spec_def constant_defs)

lemmas run_eval = mem_eval run_call_def NewReconciler_def compute_effective_def Let_def
  list_targets_def nil_if_empty_def go_len_def plan_targets_def plan_immediate sync_targets_def
  sync_target_def emit_def account_targets_def cleanup_deselected_def cleanup_target_def
  managed_labels_def managed_annotations_def source_id_def go_get_Some go_delete_def fmdrop_fmupd

lemmas record_eval = record_create_def record_update_def record_skip_def record_prune_def

text \<open>Skipping and pruning: one copy is created, the foreign ConfigMap is kept, the stale copy goes.\<close>

lemma ex_run_skip:
  "\<exists>s'. reconcile_impl mem_client ex_key (ex_immediate ConflictSkip True) (NewReconciler ex_world) =
     (Inr \<lparr>rr_planned = [''n1'', ''n2''], rr_total_targets = 2, rr_completed_count = 1,
        rr_out_of_sync = [conflict_item ''n2'']\<rparr>, s') \<and>
     mw_objects (rc_world s') = fmdrop (''old'', ''cfg'')
       (fmupd (''n1'', ''cfg'') (ex_copy ''n1'') (mw_objects ex_world)) \<and>
     mw_namespaces (rc_world s') = mw_namespaces ex_world \<and> mw_faults (rc_world s') = []"
  by (simp add: reconcile_impl_def run_eval record_eval ex_defs)

text \<open>With \<open>prune: false\<close> the stale copy stays and loses its marks.\<close>

lemma ex_run_detach:
  "\<exists>s'. reconcile_impl mem_client ex_key (ex_immediate ConflictSkip False) (NewReconciler ex_world) =
     (Inr \<lparr>rr_planned = [''n1'', ''n2''], rr_total_targets = 2, rr_completed_count = 1,
        rr_out_of_sync = [conflict_item ''n2'']\<rparr>, s')"
  by (simp add: reconcile_impl_def run_eval record_eval ex_defs)

text \<open>Finalizing prunes the only copy.\<close>

lemma ex_finalize:
  "\<exists>s'. cleanup_deselected mem_client ex_key (ex_immediate ConflictSkip True) [] (NewReconciler ex_world) =
     (None, s') \<and> mw_objects (rc_world s') = fmdrop (''old'', ''cfg'') (mw_objects ex_world)"
  by (simp add: run_eval record_eval ex_defs)

lemma ex_listed:
  assumes "fmlookup (mw_objects w) (''src'', ''cfg'') = Some cm"
    "mw_namespaces w = mw_namespaces ex_world" "mw_faults w = []"
  shows "listed_targets mem_client (ex_immediate policy prune) w = Some [''n1'', ''n2'']"
  using assms by (simp add: listed_targets_def run_eval ex_defs)

text \<open>The runs of \<open>Reconcile\<close> and \<open>Finalize\<close> they give.\<close>

lemma ex_Reconcile:
  assumes "reconcile_impl mem_client ex_key (ex_immediate policy prune) s = (Inr r, s1)"
    "policy \<in> {ConflictSkip, ConflictOverwrite}"
  shows "Reconcile env mem_client elapsed ex_key (Some (ex_immediate policy prune)) s =
    ((Inr r, Some (ex_immediate policy prune)), emit (ObserveReconcileDuration elapsed)
       (emit (ObserveTargets (rr_total_targets r) (length (rr_out_of_sync r))) s1))"
  using assms by (simp add: Reconcile_def Let_def ex_immediate_complete)

lemma ex_Finalize:
  assumes "cleanup_deselected mem_client ex_key (ex_immediate policy prune) [] s = (e, s1)"
    "policy \<in> {ConflictSkip, ConflictOverwrite}"
  shows "Finalize env mem_client ex_key (Some (ex_immediate policy prune)) s =
    ((e, Some (ex_immediate policy prune)), s1)"
  using assms by (simp add: Finalize_def Let_def ex_immediate_complete)

end
