(* ===== verification/Reconciler_Guarantees.thy ===== *)
theory Reconciler_Guarantees
  imports Example_Runs
begin

text \<open>
  What a reconcile and a finalization guarantee on any cluster that keeps the contract of the
  KubeClient, including runs in which calls fail. The lemmas are proved in the contract's locale;
  the properties state them for \<open>Reconcile\<close> and \<open>Finalize\<close> with the contract as a hypothesis, and
  are applied to the runs of \<open>Example_Runs\<close>.
\<close>

lemma DefaultSpec_views [simp]:
  "source_of (DefaultSpec env spec) = source_of spec" "source_key (DefaultSpec env spec) = source_key spec"
  "prunes (DefaultSpec env spec) = prunes spec" "desired_data (DefaultSpec env spec) = desired_data spec"
  "sp_source_ref (DefaultSpec env spec) = sp_source_ref spec"
  "sp_conflict_policy (DefaultSpec env spec) = ConflictSkip \<longleftrightarrow> sp_conflict_policy spec = ConflictSkip"
  by (auto simp: source_of_def source_key_def prunes_def desired_data_def fun_eq_iff DefaultSpec_fields
      constant_defs split: option.splits)

text \<open>
  A settled cluster: every target has an up-to-date copy, or a foreign ConfigMap that the policy
  says to keep, and no other namespace has a managed copy.
\<close>

definition settled :: "config_propagation_spec \<Rightarrow> go_map \<Rightarrow> string set \<Rightarrow>
    (string \<times> string \<Rightarrow> config_map option) \<Rightarrow> bool" where
  "settled spec eff targets c \<longleftrightarrow>
     (\<forall>ns \<in> targets. \<exists>cm. c (ns, ref_name (sp_source_ref spec)) = Some cm \<and>
        (sp_conflict_policy spec = ConflictSkip \<and> \<not> marked (source_of spec) cm \<or>
         in_sync (source_of spec) (HashData eff) cm)) \<and>
     (\<forall>ns cm. ns \<notin> targets \<longrightarrow> c (ns, ref_name (sp_source_ref spec)) = Some cm \<longrightarrow>
        \<not> managed_copy (source_of spec) cm)"

context kube_contract
begin

section \<open>Every run\<close>

lemma impl_keeps:
  assumes "reconcile_impl client key spec s = (res, s')"
    "snd k \<noteq> ref_name (sp_source_ref spec) \<or>
     sp_conflict_policy spec = ConflictSkip \<and> cmaps s k = Some old \<and> \<not> marked (source_of spec) old"
  shows "cmaps s' k = cmaps s k"
  by (rule impl_invariant [OF assms(1), where P = "\<lambda>c. c k = cmaps s k"])
    (use assms(2) managed_copy_marked in \<open>cases k, auto\<close>)+

text \<open>The namespaces written by the loop are the planned ones; the rest is clean-up.\<close>

lemma impl_spread:
  assumes "reconcile_impl client key spec s = (res, s')" "is_rolling spec"
  shows "\<exists>planned. length planned \<le> desired_batch spec \<and>
    (\<forall>k. cmaps s' k \<noteq> cmaps s k \<longrightarrow> fst k \<in> set planned \<or>
       (\<exists>nss old. listed_targets client spec (rc_world s) = Some nss \<and> fst k \<notin> set nss \<and> cmaps s k = Some old \<and>
          managed_copy (source_of spec) old))"
  using assms(1)
proof (cases rule: impl_cases)
  case early
  then show ?thesis by (intro exI [of _ "[]"]) simp
next
  case (stopped src listed planned s3 out err)
  have "cmaps s' k = cmaps s k" if "fst k \<notin> set planned" for k
    using sync_loop_frame [OF stopped(6), of k] that stopped(5) by (cases k) auto
  then show ?thesis using stopped(8) assms(2) by (intro exI [of _ planned]) auto
next
  case (swept src listed planned s3 out s4 s5 e)
  have written: "cmaps s5 k = cmaps s k" if "fst k \<notin> set planned" for k
    using sync_loop_frame [OF swept(6), of k] that swept(5,7) by (cases k) auto
  have "fst k \<in> set planned \<or> (\<exists>nss old. listed_targets client spec (rc_world s) = Some nss \<and> fst k \<notin> set nss \<and> cmaps s k = Some old \<and>
      managed_copy (source_of spec) old)" if "cmaps s' k \<noteq> cmaps s k" for k
  proof (cases "fst k \<in> set planned")
    case False
    have "\<not> (snd k \<noteq> ref_name (sp_source_ref spec) \<or> fst k \<in> set (sort listed) \<or>
        (\<forall>cm. cmaps s5 k = Some cm \<longrightarrow> \<not> managed_copy (source_of spec) cm))"
      using cleanup_deselected_frame [OF swept(8), of k] that written [OF False] by auto
    then show ?thesis using swept(2) written [OF False] by auto
  qed simp
  then show ?thesis using swept(9) assms(2) by (intro exI [of _ planned]) auto
qed

section \<open>Successful runs\<close>

lemma impl_success:
  assumes "reconcile_impl client key spec s = (Inr r, s')"
  obtains src listed where "cmaps s (source_key spec) = Some src" "listed_targets client spec (rc_world s) = Some listed"
    "distinct (rr_planned r)" "set (rr_planned r) \<subseteq> set listed" "is_immediate spec \<longrightarrow> set (rr_planned r) = set listed"
    "rr_total_targets r = length listed"
    "\<And>ns. ns \<in> set (rr_planned r) \<Longrightarrow> ns \<notin> oos_namespace ` set (rr_out_of_sync r) \<Longrightarrow>
      synced (source_of spec) (desired_data spec src) (HashData (desired_data spec src))
        (cmaps s (ns, ref_name (sp_source_ref spec))) (cmaps s' (ns, ref_name (sp_source_ref spec)))"
    "\<And>ns. ns \<in> set (rr_planned r) \<Longrightarrow> ns \<in> oos_namespace ` set (rr_out_of_sync r) \<Longrightarrow>
      sp_conflict_policy spec = ConflictSkip \<and>
      (\<exists>cm. cmaps s (ns, ref_name (sp_source_ref spec)) = Some cm \<and> \<not> marked (source_of spec) cm)"
    "\<And>ns cm. ns \<notin> set listed \<Longrightarrow> cmaps s (ns, ref_name (sp_source_ref spec)) = Some cm \<Longrightarrow>
      managed_copy (source_of spec) cm \<Longrightarrow>
      cleaned (prunes spec) (Some cm) (cmaps s' (ns, ref_name (sp_source_ref spec)))"
    "\<And>ns new. ns \<notin> set listed \<Longrightarrow> cmaps s' (ns, ref_name (sp_source_ref spec)) = Some new \<Longrightarrow>
      \<not> managed_copy (source_of spec) new"
  using assms
proof (cases rule: impl_cases)
  case (swept src listed planned s3 out s4 s5 e)
  note r = swept(11) [OF refl]
  have cl: "cleanup_deselected client key spec (sort listed) s5 = (None, s')" using swept(8) r by simp
  let ?n = "ref_name (sp_source_ref spec)"
  from sync_loop_success [OF swept(6) source_of_nonempty swept(3)]
  obtain wrt skip where ws: "so_completed out = wrt" "so_out_of_sync out = map conflict_item skip"
      "set wrt \<union> set skip = set planned"
      "\<forall>ns \<in> set wrt. synced (source_of spec) (desired_data spec src) (HashData (desired_data spec src))
         (cmaps s3 (ns, ?n)) (cmaps s4 (ns, ?n))"
      "\<forall>ns \<in> set skip. \<exists>cm. cmaps s3 (ns, ?n) = Some cm \<and> \<not> marked (source_of spec) cm \<and>
         cmaps s4 (ns, ?n) = Some cm \<and> sp_conflict_policy spec = ConflictSkip"
    unfolding synced_def sync_outcome.simps append_Nil by blast
  have "set wrt \<inter> set skip = {}"
    using ws(4,5) swept(5) by (auto simp: synced_def in_sync_def) (metis option.inject)
  then have parts: "set skip \<subseteq> oos_namespace ` set (rr_out_of_sync r)"
      "set wrt \<inter> oos_namespace ` set (rr_out_of_sync r) = {}"
    using r by (auto simp: ws image_image)
  have final: "cmaps s' (ns, ?n) = cmaps s4 (ns, ?n)" if "ns \<in> set listed" for ns
    using cleanup_deselected_frame [OF cl, of "(ns, ?n)"] that swept(7) by simp
  have kept: "cmaps s5 (ns, ?n) = cmaps s (ns, ?n)" if "ns \<notin> set listed" for ns
    using sync_loop_frame [OF swept(6), of "(ns, ?n)"] that swept(4,5,7) by auto
  show thesis
  proof (rule that [OF swept(1,2)])
    show "distinct (rr_planned r)" "set (rr_planned r) \<subseteq> set listed"
      "is_immediate spec \<longrightarrow> set (rr_planned r) = set listed" "rr_total_targets r = length listed"
      using r swept(3,4,10) by simp_all
  next
    fix ns assume "ns \<in> set (rr_planned r)" "ns \<notin> oos_namespace ` set (rr_out_of_sync r)"
    then have "ns \<in> set wrt" "ns \<in> set listed" using parts ws(3) r swept(4) by auto
    then show "synced (source_of spec) (desired_data spec src) (HashData (desired_data spec src))
        (cmaps s (ns, ?n)) (cmaps s' (ns, ?n))"
      using ws(4) swept(5) final by auto
  next
    fix ns assume "ns \<in> set (rr_planned r)" "ns \<in> oos_namespace ` set (rr_out_of_sync r)"
    then have "ns \<in> set skip" using parts ws(3) r by auto
    then show "sp_conflict_policy spec = ConflictSkip \<and>
        (\<exists>cm. cmaps s (ns, ?n) = Some cm \<and> \<not> marked (source_of spec) cm)"
      using ws(5) swept(5) by auto
  next
    fix ns cm assume "ns \<notin> set listed" "cmaps s (ns, ?n) = Some cm" "managed_copy (source_of spec) cm"
    then show "cleaned (prunes spec) (Some cm) (cmaps s' (ns, ?n))"
      using cleanup_deselected_success [OF cl, of ns cm] kept by simp
  next
    fix ns new assume "ns \<notin> set listed" "cmaps s' (ns, ?n) = Some new"
    then show "\<not> managed_copy (source_of spec) new"
      using cleanup_deselected_complete [OF cl, of ns new] by simp
  qed
qed simp_all

section \<open>Settled clusters\<close>

lemma impl_settled_no_change:
  assumes run: "reconcile_impl client key spec s = (res, s')"
    and st: "\<And>nss src. listed_targets client spec (rc_world s) = Some nss \<Longrightarrow> cmaps s (source_key spec) = Some src \<Longrightarrow>
      settled spec (desired_data spec src) (set nss) (cmaps s)"
    and source: "cmaps s (source_key spec) \<noteq> None"
  shows "cmaps s' = cmaps s"
proof (rule impl_invariant [OF run, where P = "\<lambda>c. c = cmaps s"])
  fix c ns cm src nss
  assume a: "c = cmaps s" "cmaps s (source_key spec) = Some src"
    "listed_targets client spec (rc_world s) = Some nss" "ns \<in> set nss"
    "\<forall>old. c (ns, ref_name (sp_source_ref spec)) = Some old \<longrightarrow>
       (marked (source_of spec) old \<or> sp_conflict_policy spec \<noteq> ConflictSkip) \<and>
       \<not> in_sync (source_of spec) (HashData (desired_data spec src)) old"
  obtain old where "cmaps s (ns, ref_name (sp_source_ref spec)) = Some old"
      "sp_conflict_policy spec = ConflictSkip \<and> \<not> marked (source_of spec) old \<or>
       in_sync (source_of spec) (HashData (desired_data spec src)) old"
    using st [OF a(3,2)] a(4) unfolding settled_def by blast
  with a(1,5) show "c((ns, ref_name (sp_source_ref spec)) \<mapsto> cm) = cmaps s" by auto
qed (use st source in \<open>auto simp: settled_def\<close>)

end

section \<open>Properties\<close>

lemma listed_targets_default [simp]: "listed_targets client (DefaultSpec env spec) = listed_targets client spec"
  by (rule ext) (simp only: listed_targets_def DefaultSpec_fields)

text \<open>C10. The result of a successful reconcile accounts for every target. With the targets the
  selector listed: the total is their number, every one of them is either counted as completed
  or reported out of sync exactly once, it is reported as a conflict exactly if it was planned in
  this round, and the round plans at most a batch (rolling) or every target in name order.\<close>

theorem reconcile_accounts_for_every_target:
  assumes "kube_contract client cluster"
    and "Reconcile env client elapsed key (Some spec) s = ((Inr r, sp'), s')"
  shows "\<exists>listed done. listed_targets client spec (rc_world s) = Some listed \<and> distinct listed \<and>
    accounts_for (sort listed) done r \<and>
    rr_completed_count r + length (rr_out_of_sync r) = length listed \<and>
    (if is_rolling (DefaultSpec env spec) then length (rr_planned r) \<le> desired_batch (DefaultSpec env spec)
     else rr_planned r = sort listed)"
  using assms(2)
proof (cases rule: ReconcileE)
  case (reconciled r1 s1)
  have "\<exists>listed done. listed_targets client (DefaultSpec env spec) (rc_world s) = Some listed \<and> distinct listed \<and>
      accounts_for (sort listed) done r1 \<and>
      (if is_rolling (DefaultSpec env spec) then length (rr_planned r1) \<le> desired_batch (DefaultSpec env spec)
       else rr_planned r1 = sort listed)"
    by (rule impl_accounts [OF reconciled(2) DefaultSpec_complete [OF reconciled(1)]])
      (use kube_contract.list_namespaces [OF assms(1)] in blast)
  then obtain listed dn where
    l: "listed_targets client spec (rc_world s) = Some listed" "distinct listed" "accounts_for (sort listed) dn r1"
      "if is_rolling (DefaultSpec env spec) then length (rr_planned r1) \<le> desired_batch (DefaultSpec env spec)
       else rr_planned r1 = sort listed"
    by auto
  have "rr_completed_count r1 + length (rr_out_of_sync r1) = length listed"
    using accounts_for_count [OF l(3)] l(2,3) by (simp add: accounts_for_def)
  with l reconciled(3) show ?thesis by blast
qed simp_all

theorem reconcile_accounts_for_every_target_witness:
  "\<exists>listed done r. listed_targets mem_client (ex_immediate ConflictSkip True) ex_world = Some listed \<and>
     accounts_for (sort listed) done r \<and> rr_out_of_sync r = [conflict_item ''n2''] \<and>
     rr_completed_count r + 1 = length listed"
proof -
  obtain s1 where "reconcile_impl mem_client ex_key (ex_immediate ConflictSkip True) (NewReconciler ex_world) =
     (Inr \<lparr>rr_planned = [''n1'', ''n2''], rr_total_targets = 2, rr_completed_count = 1,
        rr_out_of_sync = [conflict_item ''n2'']\<rparr>, s1)" using ex_run_skip by blast
  from reconcile_accounts_for_every_target [OF mem_client_contract ex_Reconcile [OF this]]
  show ?thesis by fastforce
qed

text \<open>C4. Foreign ConfigMaps are safe. Whatever a reconcile runs into, it leaves alone every
  ConfigMap that does not have the source's name and, with conflictPolicy skip, every ConfigMap
  of that name that carries neither the managed label nor this source's annotation.\<close>

theorem reconcile_keeps_foreign:
  assumes "kube_contract client cluster"
    and "Reconcile env client elapsed key (Some spec) s = ((res, sp'), s')"
    and "snd k \<noteq> ref_name (sp_source_ref spec) \<or>
      sp_conflict_policy spec = ConflictSkip \<and> cluster (rc_world s) k = Some old \<and> \<not> marked (source_of spec) old"
  shows "cluster (rc_world s') k = cluster (rc_world s) k"
  using assms(2)
proof (cases rule: ReconcileE)
  case (failed err s1)
  then show ?thesis
    using kube_contract.impl_keeps [OF assms(1) failed(2), of k old] assms(3) by simp
next
  case (reconciled r s1)
  then show ?thesis
    using kube_contract.impl_keeps [OF assms(1) reconciled(2), of k old] assms(3) by simp
qed simp

theorem reconcile_keeps_foreign_witness:
  "mem_store (rc_world (snd (Reconcile ex_env mem_client 0 ex_key (Some (ex_immediate ConflictSkip True))
     (NewReconciler (ex_world\<lparr>mw_faults := [None, None, None, Some ''lost'']\<rparr>))))) (''n2'', ''cfg'') = Some ex_foreign"
proof -
  have stored: "mem_store (ex_world\<lparr>mw_faults := [None, None, None, Some ''lost'']\<rparr>) (''n2'', ''cfg'') = Some ex_foreign"
    by (simp add: mem_store_def stored_objects_def cm_content_def cm_at_def stored_map_def ex_defs)
  have foreign: "\<not> marked (source_of (ex_immediate ConflictSkip True)) ex_foreign"
    by (simp add: marked_def source_of_def source_id_def ex_foreign_def)
  let ?s = "NewReconciler (ex_world\<lparr>mw_faults := [None, None, None, Some ''lost'']\<rparr>)"
  obtain res sp' s' where run: "Reconcile ex_env mem_client 0 ex_key (Some (ex_immediate ConflictSkip True)) ?s =
      ((res, sp'), s')" by (metis surj_pair)
  from reconcile_keeps_foreign [OF mem_client_contract this, of "(''n2'', ''cfg'')" ex_foreign]
  show ?thesis using stored foreign by (simp add: run)
qed

text \<open>C2. A successful reconcile brings the planned targets up to date. Every namespace it planned
  and does not report has a ConfigMap that carries the controller's marks and the hash of the
  desired data, and that is either untouched because it already did or an exact copy of the
  desired data with exactly the managed label, the source annotation and the hash annotation;
  a planned namespace it reports holds a foreign ConfigMap that conflictPolicy skip keeps.\<close>

theorem reconcile_syncs_planned:
  assumes "kube_contract client cluster"
    and "Reconcile env client elapsed key (Some spec) s = ((Inr r, sp'), s')"
  shows "\<exists>src. cluster (rc_world s) (source_key spec) = Some src \<and>
    (\<forall>ns \<in> set (rr_planned r).
       if ns \<in> oos_namespace ` set (rr_out_of_sync r) then
         sp_conflict_policy spec = ConflictSkip \<and>
         (\<exists>cm. cluster (rc_world s) (ns, ref_name (sp_source_ref spec)) = Some cm \<and> \<not> marked (source_of spec) cm)
       else synced (source_of spec) (desired_data spec src) (HashData (desired_data spec src))
         (cluster (rc_world s) (ns, ref_name (sp_source_ref spec)))
         (cluster (rc_world s') (ns, ref_name (sp_source_ref spec))))"
  using assms(2)
proof (cases rule: ReconcileE)
  case (reconciled r1 s1)
  show ?thesis
    using kube_contract.impl_success [OF assms(1) reconciled(2)]
  proof cases
    case (1 src listed)
    then show ?thesis using reconciled(3,4) by (intro exI [of _ src]) auto
  qed
qed simp_all

theorem reconcile_syncs_planned_witness:
  "\<exists>new. synced ''src/cfg'' ex_data ex_hash None new \<and>
     new = mem_store (rc_world (snd (Reconcile ex_env mem_client 0 ex_key (Some (ex_immediate ConflictSkip True))
       (NewReconciler ex_world)))) (''n1'', ''cfg'')"
proof -
  obtain s1 where "reconcile_impl mem_client ex_key (ex_immediate ConflictSkip True) (NewReconciler ex_world) =
     (Inr \<lparr>rr_planned = [''n1'', ''n2''], rr_total_targets = 2, rr_completed_count = 1,
        rr_out_of_sync = [conflict_item ''n2'']\<rparr>, s1)" using ex_run_skip by blast
  note run = ex_Reconcile [OF this, of ex_env 0]
  have src: "mem_store ex_world (''src'', ''cfg'') = Some ex_source"
    by (simp add: mem_store_def stored_objects_def cm_content_def cm_at_def stored_map_def ex_defs)
  have eff: "desired_data (ex_immediate ConflictSkip True) ex_source = ex_data"
    by (simp add: desired_data_def compute_effective_def ex_source_def)
  have none: "mem_store ex_world (''n1'', ''cfg'') = None"
    by (simp add: mem_store_def ex_defs)
  from reconcile_syncs_planned [OF mem_client_contract run] show ?thesis
    by (simp add: run source_key_def src eff none source_of_def source_id_def)
qed

text \<open>C3. A successful reconcile leaves no managed copy outside the selection. In every namespace
  the selector does not list, a copy managed for this source is deleted with prune on; with
  prune off it stays with its data, binary data and other metadata, without the three marks; and
  afterwards no such namespace has a managed copy of this source.\<close>

theorem reconcile_cleans_deselected:
  assumes "kube_contract client cluster"
    and "Reconcile env client elapsed key (Some spec) s = ((Inr r, sp'), s')"
  shows "\<exists>listed. listed_targets client spec (rc_world s) = Some listed \<and>
    (\<forall>ns. ns \<notin> set listed \<longrightarrow>
       (\<forall>cm. cluster (rc_world s) (ns, ref_name (sp_source_ref spec)) = Some cm \<longrightarrow> managed_copy (source_of spec) cm \<longrightarrow>
          cleaned (prunes spec) (Some cm) (cluster (rc_world s') (ns, ref_name (sp_source_ref spec)))) \<and>
       (\<forall>new. cluster (rc_world s') (ns, ref_name (sp_source_ref spec)) = Some new \<longrightarrow>
          \<not> managed_copy (source_of spec) new))"
  using assms(2)
proof (cases rule: ReconcileE)
  case (reconciled r1 s1)
  show ?thesis
    using kube_contract.impl_success [OF assms(1) reconciled(2)]
  proof cases
    case (1 src listed)
    then show ?thesis using reconciled(3,4) by (intro exI [of _ listed]) simp
  qed
qed simp_all

lemma ex_stale_stored: "\<exists>cm. mem_store ex_world (''old'', ''cfg'') = Some cm \<and> managed_copy ''src/cfg'' cm \<and>
    go_get (cm_data cm) ''k'' = ''u''"
  by (simp add: mem_store_def stored_objects_def ex_defs managed_copy_def managed_labels_def
      managed_annotations_def go_get_def)

theorem reconcile_cleans_deselected_witness:
  "\<exists>cm. mem_store (rc_world (snd (Reconcile ex_env mem_client 0 ex_key (Some (ex_immediate ConflictSkip False))
       (NewReconciler ex_world)))) (''old'', ''cfg'') = Some cm \<and>
     \<not> managed_copy ''src/cfg'' cm \<and> go_get (cm_data cm) ''k'' = ''u''"
proof -
  obtain s1 where "reconcile_impl mem_client ex_key (ex_immediate ConflictSkip False) (NewReconciler ex_world) =
     (Inr \<lparr>rr_planned = [''n1'', ''n2''], rr_total_targets = 2, rr_completed_count = 1,
        rr_out_of_sync = [conflict_item ''n2'']\<rparr>, s1)" using ex_run_detach by blast
  note run = ex_Reconcile [OF this, of ex_env 0]
  have listed: "listed_targets mem_client (ex_immediate ConflictSkip False) ex_world = Some [''n1'', ''n2'']"
    by (rule ex_listed) (simp_all add: ex_world_def)
  obtain old where old: "mem_store ex_world (''old'', ''cfg'') = Some old" "managed_copy ''src/cfg'' old"
    "go_get (cm_data old) ''k'' = ''u''" using ex_stale_stored by blast
  have "\<forall>ns. ns \<notin> {''n1'', ''n2''} \<longrightarrow>
      (\<forall>cm. mem_store ex_world (ns, ''cfg'') = Some cm \<longrightarrow> managed_copy ''src/cfg'' cm \<longrightarrow>
         cleaned False (Some cm) (mem_store (rc_world s1) (ns, ''cfg''))) \<and>
      (\<forall>new. mem_store (rc_world s1) (ns, ''cfg'') = Some new \<longrightarrow> \<not> managed_copy ''src/cfg'' new)"
    using reconcile_cleans_deselected [OF mem_client_contract run]
    by (simp add: listed source_of_def source_id_def prunes_def)
  note facts = spec [OF this, of "''old''", simplified]
  have "cleaned False (Some old) (mem_store (rc_world s1) (''old'', ''cfg''))"
    using facts old(1,2) by blast
  then obtain new where "mem_store (rc_world s1) (''old'', ''cfg'') = Some new" "detached_from old new"
    by (auto simp: cleaned_def)
  moreover have "\<not> managed_copy ''src/cfg'' new" using facts calculation(1) by blast
  moreover have "rc_world (snd (Reconcile ex_env mem_client 0 ex_key (Some (ex_immediate ConflictSkip False))
      (NewReconciler ex_world))) = rc_world s1" by (simp add: run)
  moreover have "go_get (cm_data new) ''k'' = ''u''"
    using old(3) calculation(2) by (simp add: detached_from_def go_get_def)
  ultimately show ?thesis by auto
qed

text \<open>C8. Finalization releases every copy. When Finalize returns no error, every copy managed for
  the source, in any namespace, has been deleted (prune on) or stripped of the marks with its data
  kept (prune off), nothing in the cluster carries the marks of this source under its name any
  more, and no other ConfigMap has changed.\<close>

theorem finalize_releases_every_copy:
  assumes "kube_contract client cluster"
    and "Finalize env client key (Some spec) s = ((None, sp'), s')"
  shows "(\<forall>ns cm. cluster (rc_world s) (ns, ref_name (sp_source_ref spec)) = Some cm \<longrightarrow>
      managed_copy (source_of spec) cm \<longrightarrow>
      cleaned (prunes spec) (Some cm) (cluster (rc_world s') (ns, ref_name (sp_source_ref spec)))) \<and>
    (\<forall>ns new. cluster (rc_world s') (ns, ref_name (sp_source_ref spec)) = Some new \<longrightarrow>
      \<not> managed_copy (source_of spec) new) \<and>
    (\<forall>k. snd k \<noteq> ref_name (sp_source_ref spec) \<or>
       (\<forall>cm. cluster (rc_world s) k = Some cm \<longrightarrow> \<not> managed_copy (source_of spec) cm) \<longrightarrow>
       cluster (rc_world s') k = cluster (rc_world s) k)"
proof -
  have cl: "cleanup_deselected client key (DefaultSpec env spec) [] s = (None, s')"
    using assms(2) by (auto simp: Finalize_def Let_def split: option.splits prod.splits)
  show ?thesis
    using kube_contract.cleanup_deselected_success [OF assms(1) cl]
      kube_contract.cleanup_deselected_complete [OF assms(1) cl]
      kube_contract.cleanup_deselected_frame [OF assms(1) cl]
    by simp
qed

theorem finalize_releases_every_copy_witness:
  "mem_store (rc_world (snd (Finalize ex_env mem_client ex_key (Some (ex_immediate ConflictSkip True))
     (NewReconciler ex_world)))) (''old'', ''cfg'') = None"
proof -
  obtain s1 where "cleanup_deselected mem_client ex_key (ex_immediate ConflictSkip True) [] (NewReconciler ex_world) =
     (None, s1)" using ex_finalize by blast
  note run = ex_Finalize [OF this, of ex_env]
  obtain old where old: "mem_store ex_world (''old'', ''cfg'') = Some old" "managed_copy ''src/cfg'' old"
    using ex_stale_stored by blast
  have "cleaned True (Some old) (mem_store (rc_world s1) (''old'', ''cfg''))"
    using finalize_releases_every_copy [OF mem_client_contract run] old
    by (simp add: source_of_def source_id_def prunes_def)
  then show ?thesis by (simp add: run cleaned_def)
qed

text \<open>C5. A rolling reconcile never spreads further than a batch. However it ends, the namespaces in
  which any ConfigMap has changed are at most a batch of planned ones and namespaces that the
  selector did not list and that held a managed copy.\<close>

theorem rolling_reconcile_blast_radius:
  assumes "kube_contract client cluster"
    and "Reconcile env client elapsed key (Some spec) s = ((res, sp'), s')"
    and "is_rolling (DefaultSpec env spec)"
  shows "\<exists>planned. length planned \<le> desired_batch (DefaultSpec env spec) \<and>
    (\<forall>k. cluster (rc_world s') k \<noteq> cluster (rc_world s) k \<longrightarrow>
       fst k \<in> set planned \<or>
       (\<exists>listed old. listed_targets client spec (rc_world s) = Some listed \<and> fst k \<notin> set listed \<and>
          cluster (rc_world s) k = Some old \<and> managed_copy (source_of spec) old))"
  using assms(2)
proof (cases rule: ReconcileE)
  case (rejected err)
  then show ?thesis by (intro exI [of _ "[]"]) simp
next
  case (failed err s1)
  then show ?thesis
    using kube_contract.impl_spread [OF assms(1) failed(2) assms(3)] by simp
next
  case (reconciled r s1)
  then show ?thesis
    using kube_contract.impl_spread [OF assms(1) reconciled(2) assms(3)] by simp
qed

text \<open>A batch of one, whatever the calls return.\<close>

definition ex_rolling :: config_propagation_spec where
  "ex_rolling = ex_spec\<lparr>sp_strategy := Some \<lparr>us_type = StrategyRolling, us_batch_size = Some 1\<rparr>\<rparr>"

lemma ex_rolling_default:
  "is_rolling (DefaultSpec ex_env ex_rolling)" "desired_batch (DefaultSpec ex_env ex_rolling) = 1"
  by (simp_all add: is_rolling_def desired_batch_def DefaultSpec_fields ex_rolling_def effective_batch_def)

theorem rolling_reconcile_blast_radius_witness:
  "\<exists>planned. length planned \<le> 1 \<and> (\<forall>k. mem_store (rc_world (snd (Reconcile ex_env mem_client 0 ex_key
       (Some ex_rolling) (NewReconciler ex_world)))) k \<noteq> mem_store ex_world k \<longrightarrow>
     fst k \<in> set planned \<or> (\<exists>old. mem_store ex_world k = Some old \<and> managed_copy (source_of ex_rolling) old))"
proof -
  obtain res sp' s' where run: "Reconcile ex_env mem_client 0 ex_key (Some ex_rolling) (NewReconciler ex_world) =
      ((res, sp'), s')" by (metis surj_pair)
  from rolling_reconcile_blast_radius [OF mem_client_contract run ex_rolling_default(1)]
  show ?thesis by (simp add: run ex_rolling_default(2)) blast
qed

text \<open>C7. A settled cluster stays as it is. After a successful immediate reconcile, a reconcile of the
  same spec from any state with the same ConfigMaps writes nothing, however it ends, provided the
  selector lists the same namespaces and the first one did not overwrite its own source.\<close>

theorem second_reconcile_writes_nothing:
  assumes "kube_contract client cluster"
    and "Reconcile env client elapsed key (Some spec) s = ((Inr r, sp1), s1)"
    and "is_immediate (DefaultSpec env spec)"
    and "cluster (rc_world s1) (source_key spec) = cluster (rc_world s) (source_key spec)"
    and "cluster (rc_world s2) = cluster (rc_world s1)"
    and "\<And>nss. listed_targets client spec (rc_world s2) = Some nss \<Longrightarrow>
      \<exists>listed. listed_targets client spec (rc_world s) = Some listed \<and> set listed = set nss"
    and "Reconcile env client elapsed2 key2 (Some spec) s2 = ((res, sp2), s3)"
  shows "cluster (rc_world s3) = cluster (rc_world s2)"
proof -
  let ?spec = "DefaultSpec env spec"
  from assms(2) obtain s1' where first: "reconcile_impl client key ?spec s = (Inr r, s1')" "rc_world s1' = rc_world s1"
    by (cases rule: ReconcileE) auto
  have same: "cluster (rc_world s3') = cluster (rc_world s2)"
    if run2: "reconcile_impl client key2 ?spec s2 = (res2, s3')" for res2 s3'
    using kube_contract.impl_success [OF assms(1) first(1)]
  proof cases
    case (1 src listed)
    have src: "cluster (rc_world s2) (source_key ?spec) = Some src" using 1(1) assms(4,5) by simp
    have targets: "\<exists>cm. cluster (rc_world s2) (ns, ref_name (sp_source_ref ?spec)) = Some cm \<and>
        (sp_conflict_policy ?spec = ConflictSkip \<and> \<not> marked (source_of ?spec) cm \<or>
         in_sync (source_of ?spec) (HashData (desired_data ?spec src)) cm)" if "ns \<in> set listed" for ns
    proof -
      have p: "ns \<in> set (rr_planned r)" using that 1(5) assms(3) by simp
      show ?thesis
      proof (cases "ns \<in> oos_namespace ` set (rr_out_of_sync r)")
        case True
        have kept: "cluster (rc_world s2) (ns, ref_name (sp_source_ref ?spec)) =
            cluster (rc_world s) (ns, ref_name (sp_source_ref ?spec))"
          using kube_contract.impl_keeps [OF assms(1) first(1)] 1(8) [OF p True] first(2) assms(5) by auto
        with 1(8) [OF p True] show ?thesis by auto
      next
        case False
        with 1(7) [OF p False] first(2) assms(5) show ?thesis by (auto simp: synced_def)
      qed
    qed
    have "settled ?spec (desired_data ?spec src) (set nss) (cluster (rc_world s2))"
      if "listed_targets client ?spec (rc_world s2) = Some nss" for nss
      using that assms(5,6) targets 1(2,10) first(2) by (auto simp: settled_def)
    then show ?thesis
      using kube_contract.impl_settled_no_change [OF assms(1) run2] src by auto
  qed
  from assms(7) show ?thesis
    by (cases rule: ReconcileE) (auto dest: same)
qed

lemma ex_immediate_is_immediate: "is_immediate (DefaultSpec ex_env (ex_immediate ConflictSkip prune))"
  by (simp add: is_immediate_def ex_immediate_complete)

theorem second_reconcile_writes_nothing_witness:
  "\<exists>s1 s3. Reconcile ex_env mem_client 0 ex_key (Some (ex_immediate ConflictSkip True)) (NewReconciler ex_world)
       = ((Inr \<lparr>rr_planned = [''n1'', ''n2''], rr_total_targets = 2, rr_completed_count = 1,
           rr_out_of_sync = [conflict_item ''n2'']\<rparr>, Some (ex_immediate ConflictSkip True)), s1) \<and>
     s3 = snd (Reconcile ex_env mem_client 0 ex_key (Some (ex_immediate ConflictSkip True)) s1) \<and>
     mem_store (rc_world s3) = mem_store (rc_world s1)"
proof -
  let ?spec = "ex_immediate ConflictSkip True"
  obtain s1 where impl: "reconcile_impl mem_client ex_key ?spec (NewReconciler ex_world) =
     (Inr \<lparr>rr_planned = [''n1'', ''n2''], rr_total_targets = 2, rr_completed_count = 1,
        rr_out_of_sync = [conflict_item ''n2'']\<rparr>, s1)"
    and world: "mw_objects (rc_world s1) = fmdrop (''old'', ''cfg'')
       (fmupd (''n1'', ''cfg'') (ex_copy ''n1'') (mw_objects ex_world))"
      "mw_namespaces (rc_world s1) = mw_namespaces ex_world" "mw_faults (rc_world s1) = []"
    using ex_run_skip by blast
  note run1 = ex_Reconcile [OF impl, of ex_env 0, simplified]
  let ?s1 = "emit (ObserveReconcileDuration 0) (emit (ObserveTargets 2 1) s1)"
  obtain res sp2 s3 where run2: "Reconcile ex_env mem_client 0 ex_key (Some ?spec) ?s1 = ((res, sp2), s3)"
    by (metis surj_pair)
  have listed: "listed_targets mem_client ?spec ex_world = Some [''n1'', ''n2'']"
    "listed_targets mem_client ?spec (rc_world s1) = Some [''n1'', ''n2'']"
    by (rule ex_listed; simp add: ex_world_def world)+
  have source: "mem_store (rc_world s1) (source_key ?spec) = mem_store ex_world (source_key ?spec)"
    by (simp add: source_key_def mem_store_def stored_objects_def world ex_world_def)
  have "mem_store (rc_world s3) = mem_store (rc_world ?s1)"
    by (rule second_reconcile_writes_nothing [OF mem_client_contract run1 ex_immediate_is_immediate _ _ _ run2])
      (use source listed in auto)
  then show ?thesis using run1 run2 by auto
qed

end
