(* ===== verification/Rolling_Runs.thy ===== *)
theory Rolling_Runs
  imports Reconciler_Guarantees
begin

text \<open>
  Several reconciles of one resource in a row. A rolling rollout is a sequence of successful
  reconciles between which others may change the cluster, except for the copies of the targets;
  it reaches every target and leaves each with its copy. The planner's record of the finished
  namespaces is the only memory between two reconciles, so the proof relates it to the cluster.
\<close>

section \<open>The planner across one reconcile\<close>

lemma impl_rolling_progress:
  assumes ok: "reconcile_impl client key spec s = (Inr r, s')"
    and rolling: "is_rolling spec" and cs: "complete_spec spec"
  obtains d w1 listed written where
    "GetSourceConfigMap client (ref_namespace (sp_source_ref spec)) (ref_name (sp_source_ref spec)) (rc_world s) = (Inr d, w1)"
    "listed_targets client spec (rc_world s) = Some listed"
    "rr_planned r = take (desired_batch spec) (filter (\<lambda>m. m \<notin> rollout_progress (rc_planner s) (namespaced_name_of key)
       (HashData (compute_effective d (sp_data_keys spec)))) (sort listed))"
    "rollout_progress (rc_planner s') (namespaced_name_of key) (HashData (compute_effective d (sp_data_keys spec))) =
       (rollout_progress (rc_planner s) (namespaced_name_of key)
          (HashData (compute_effective d (sp_data_keys spec))) \<inter> set listed) \<union> written"
    "written \<subseteq> set (rr_planned r)" "sp_conflict_policy spec \<noteq> ConflictSkip \<longrightarrow> written = set (rr_planned r)"
    "distinct listed \<longrightarrow> accounts_for (sort listed) (rollout_progress (rc_planner s') (namespaced_name_of key)
       (HashData (compute_effective d (sp_data_keys spec)))) r"
  using ok
proof (cases rule: reconcile_impl_okE)
  case (1 src s1 selector listed s2 st planned n s3 summary s4 cnt oos s5)
  let ?id = "namespaced_name_of key" and ?h = "HashData (compute_effective src (sp_data_keys spec))"
  have planner2: "rc_planner s2 = rc_planner s"
    using run_callD [OF 1(1)] run_callD [OF 1(3) [unfolded list_targets_def]] by simp
  obtain b where b: "us_batch_size st = Some b" "us_type st = StrategyRolling"
    using cs rolling 1(4) by (auto simp: complete_spec_def is_rolling_def)
  have batch: "desired_batch spec = effective_batch b" using 1(4) b by (simp add: desired_batch_def)
  obtain p3 where p3: "plan ?id ?h StrategyRolling b (sort listed) (rc_planner s) = ((planned, n), p3)"
      "rc_planner s3 = p3"
    using 1(5) b planner2 by (auto simp: plan_targets_def split: prod.splits)
  note pl = plan_rolling [of StrategyRolling ?id ?h b "sort listed" "rc_planner s", unfolded p3 prod.sel]
  obtain wrt skip where wrt: "so_completed summary = wrt" "mset wrt + mset skip = mset planned"
      "sp_conflict_policy spec \<noteq> ConflictSkip \<longrightarrow> skip = []"
    using sync_targets_divides [OF 1(6)] by metis
  have sub: "set wrt \<union> set skip = set planned"
    using mset_eq_setD [of "wrt @ skip" planned] wrt(2) by simp
  have planner4: "rc_planner s4 = p3"
    using sync_targets_planner [OF 1(6)] p3 by (simp add: same_planner_def)
  have planner5: "rc_planner s5 = snd (mark_completed ?id ?h wrt p3)"
    using 1(7) b planner4 wrt by (auto simp: account_targets_def Let_def namespaced_name_of_alt split: prod.splits)
  have planner': "rc_planner s' = rc_planner s5"
    using cleanup_deselected_planner [OF 1(8)] by (simp add: same_planner_def)
  show thesis
  proof (rule that [OF run_callD(1) [OF 1(1)] listed_targetsI [OF 1(1,2,3)]])
    show "rr_planned r = take (desired_batch spec) (filter (\<lambda>m. m \<notin> rollout_progress (rc_planner s) ?id ?h) (sort listed))"
      using pl(1) 1(9) batch by simp
    show "rollout_progress (rc_planner s') ?id ?h = (rollout_progress (rc_planner s) ?id ?h \<inter> set listed) \<union> set wrt"
      using pl(3) [of ?id ?h] by (simp add: planner' planner5 ro.mark_progress_same)
    show "set wrt \<subseteq> set (rr_planned r)" "sp_conflict_policy spec \<noteq> ConflictSkip \<longrightarrow> set wrt = set (rr_planned r)"
      using 1(9) sub wrt(3) by auto
    show "distinct listed \<longrightarrow> accounts_for (sort listed) (rollout_progress (rc_planner s') ?id ?h) r"
      using rolling_accounts(1) [OF _ 1(5) [unfolded b option.case] 1(6) 1(7) [unfolded b]] 1(9)
      by (simp add: planner')
  qed
qed

context kube_contract
begin

lemma listed_targets_distinct: "listed_targets client spec w = Some listed \<Longrightarrow> distinct listed"
  using list_namespaces by (auto simp: listed_targets_def split: prod.splits sum.splits option.splits)

lemma impl_success_keeps:
  assumes "reconcile_impl client key spec s = (Inr r, s')"
    and "listed_targets client spec (rc_world s) = Some listed" "ns \<in> set listed" "ns \<notin> set (rr_planned r)"
  shows "cmaps s' (ns, ref_name (sp_source_ref spec)) = cmaps s (ns, ref_name (sp_source_ref spec))"
  using assms(1)
proof (cases rule: impl_cases)
  case (swept src listed' planned s3 out s4 s5 e)
  have "ns \<notin> set planned" using swept(11) [OF refl] assms(4) by simp
  then have "cmaps s5 (ns, ref_name (sp_source_ref spec)) = cmaps s (ns, ref_name (sp_source_ref spec))"
    using sync_loop_frame [OF swept(6), of "(ns, ref_name (sp_source_ref spec))"] swept(5,7) by auto
  then show ?thesis
    using cleanup_deselected_frame [OF swept(8), of "(ns, ref_name (sp_source_ref spec))"] assms(2,3) swept(2) by simp
qed simp_all

text \<open>One successful round: what is planned, what the planner remembers, what becomes of the copies.\<close>

lemma impl_rolling_memory:
  assumes ok: "reconcile_impl client key spec s = (Inr r, s')"
    and rolling: "is_rolling spec" "complete_spec spec"
    and src: "cmaps s (source_key spec) = Some src" "desired_data spec src = data"
    and listed: "listed_targets client spec (rc_world s) = Some listed"
  defines "P \<equiv> rollout_progress (rc_planner s) (namespaced_name_of key) (HashData data)"
    and "P' \<equiv> rollout_progress (rc_planner s') (namespaced_name_of key) (HashData data)"
  obtains written where
    "rr_planned r = take (desired_batch spec) (filter (\<lambda>m. m \<notin> P) (sort listed))"
    "P' = (P \<inter> set listed) \<union> written" "written \<subseteq> set (rr_planned r)"
    "sp_conflict_policy spec \<noteq> ConflictSkip \<longrightarrow> written = set (rr_planned r)"
    "accounts_for (sort listed) P' r"
proof (rule impl_rolling_progress [OF ok rolling])
  fix d w1 l' written
  assume d: "GetSourceConfigMap client (ref_namespace (sp_source_ref spec)) (ref_name (sp_source_ref spec)) (rc_world s) = (Inr d, w1)"
    and l': "listed_targets client spec (rc_world s) = Some l'"
    and pr: "rr_planned r = take (desired_batch spec) (filter (\<lambda>m. m \<notin> rollout_progress (rc_planner s) (namespaced_name_of key)
       (HashData (compute_effective d (sp_data_keys spec)))) (sort l'))"
    "rollout_progress (rc_planner s') (namespaced_name_of key) (HashData (compute_effective d (sp_data_keys spec))) =
       (rollout_progress (rc_planner s) (namespaced_name_of key)
          (HashData (compute_effective d (sp_data_keys spec))) \<inter> set l') \<union> written"
    "written \<subseteq> set (rr_planned r)" "sp_conflict_policy spec \<noteq> ConflictSkip \<longrightarrow> written = set (rr_planned r)"
    and acc: "distinct l' \<longrightarrow> accounts_for (sort l') (rollout_progress (rc_planner s') (namespaced_name_of key)
       (HashData (compute_effective d (sp_data_keys spec)))) r"
  have "l' = listed" using l' listed by simp
  have "compute_effective d (sp_data_keys spec) = data"
  proof -
    have "go_lookup d = go_lookup (cm_data src)" using get_source [OF d] src by (auto simp: source_key_def)
    from compute_effective_cong [OF this] src show ?thesis by (simp add: desired_data_def)
  qed
  note pr = pr [unfolded this \<open>l' = listed\<close>, folded P_def P'_def]
    and acc = acc [unfolded this \<open>l' = listed\<close>, rule_format, OF listed_targets_distinct [OF listed], folded P'_def]
  show thesis by (rule that [OF pr acc])
qed

lemma impl_rolling_round:
  assumes ok: "reconcile_impl client key spec s = (Inr r, s')"
    and rolling: "is_rolling spec" "complete_spec spec" "sp_conflict_policy spec \<noteq> ConflictSkip"
    and src: "cmaps s (source_key spec) = Some src" "desired_data spec src = data"
    and listed: "listed_targets client spec (rc_world s) = Some listed"
  defines "P \<equiv> rollout_progress (rc_planner s) (namespaced_name_of key) (HashData data)"
    and "P' \<equiv> rollout_progress (rc_planner s') (namespaced_name_of key) (HashData data)"
    and "n \<equiv> ref_name (sp_source_ref spec)"
  shows "rr_planned r = take (desired_batch spec) (filter (\<lambda>m. m \<notin> P) (sort listed))"
    and "P' = (P \<inter> set listed) \<union> set (rr_planned r)"
    and "ns \<in> set (rr_planned r) \<Longrightarrow> synced (source_of spec) data (HashData data) (cmaps s (ns, n)) (cmaps s' (ns, n))"
    and "ns \<in> set listed \<Longrightarrow> ns \<notin> set (rr_planned r) \<Longrightarrow> cmaps s' (ns, n) = cmaps s (ns, n)"
    and "accounts_for (sort listed) P' r"
proof -
  obtain written where m: "rr_planned r = take (desired_batch spec) (filter (\<lambda>m. m \<notin> P) (sort listed))"
    "P' = (P \<inter> set listed) \<union> written" "written = set (rr_planned r)" "accounts_for (sort listed) P' r"
    using impl_rolling_memory [OF ok rolling(1,2) src listed] rolling(3) unfolding P_def P'_def by metis
  show "rr_planned r = take (desired_batch spec) (filter (\<lambda>m. m \<notin> P) (sort listed))"
    "P' = (P \<inter> set listed) \<union> set (rr_planned r)" "accounts_for (sort listed) P' r" using m by simp_all
  show "cmaps s' (ns, n) = cmaps s (ns, n)" if "ns \<in> set listed" "ns \<notin> set (rr_planned r)"
    unfolding n_def by (rule impl_success_keeps [OF ok listed that])
  show "synced (source_of spec) data (HashData data) (cmaps s (ns, n)) (cmaps s' (ns, n))" if "ns \<in> set (rr_planned r)"
    using impl_success [OF ok]
  proof cases
    case (1 src' listed')
    have "ns \<notin> oos_namespace ` set (rr_out_of_sync r)" using 1(8) [OF that] rolling(3) by blast
    from 1(7) [OF that this] show ?thesis using 1(1) src by (simp add: n_def)
  qed
qed

end

section \<open>A rolling rollout\<close>

text \<open>
  \<open>n\<close> successful reconciles of one resource from the state \<open>s0\<close>, each of which finds the same
  desired data and the same set of targets, with the result of the last one. In between, other
  reconciles and other clients do what they like, except that they leave the ConfigMaps of the
  source's name in the target namespaces and the planner's entry for the resource as they are.
\<close>

inductive rollout_run :: "(string \<Rightarrow> string) \<Rightarrow> 'w kube_client \<Rightarrow> ('w \<Rightarrow> string \<times> string \<rightharpoonup> config_map) \<Rightarrow>
    reconcile_key \<Rightarrow> config_propagation_spec \<Rightarrow> go_map \<Rightarrow> string set \<Rightarrow> 'w reconciler \<Rightarrow> nat \<Rightarrow>
    rollout_result option \<Rightarrow> 'w reconciler \<Rightarrow> bool"
  for env client cluster key spec data targets s0 where
  Begin: "rollout_run env client cluster key spec data targets s0 0 None s0"
| Round: "rollout_run env client cluster key spec data targets s0 n res s \<Longrightarrow>
    Reconcile env client elapsed key (Some spec) s = ((Inr r, sp), s') \<Longrightarrow>
    cluster (rc_world s) (source_key spec) = Some src \<Longrightarrow> desired_data spec src = data \<Longrightarrow>
    listed_targets client spec (rc_world s) = Some listed \<Longrightarrow> set listed = targets \<Longrightarrow>
    rollout_run env client cluster key spec data targets s0 (Suc n) (Some r) s'"
| Others: "rollout_run env client cluster key spec data targets s0 n res s \<Longrightarrow>
    rc_planner s' (namespaced_name_of key) = rc_planner s (namespaced_name_of key) \<Longrightarrow>
    (\<And>ns. ns \<in> targets \<Longrightarrow> cluster (rc_world s') (ns, ref_name (sp_source_ref spec)) =
       cluster (rc_world s) (ns, ref_name (sp_source_ref spec))) \<Longrightarrow>
    rollout_run env client cluster key spec data targets s0 n res s'"

lemma rollout_progress_cong:
  "p i = p' i \<Longrightarrow> rollout_progress p i h = rollout_progress p' i h"
  by (simp add: rollout_progress_def)

text \<open>A batch shrinks the pending targets by its size.\<close>

lemma pending_shrinks:
  assumes "distinct ts"
  shows "card (set ts - (P \<inter> set ts \<union> set (take b (filter (\<lambda>m. m \<notin> P) ts)))) = card (set ts - P) - b"
proof -
  let ?f = "filter (\<lambda>m. m \<notin> P) ts"
  have d: "distinct ?f" using assms by simp
  have "set ts - (P \<inter> set ts \<union> set (take b ?f)) = set ?f - set (take b ?f)" by auto
  also have "\<dots> = set (drop b ?f)"
  proof -
    have "set ?f = set (take b ?f) \<union> set (drop b ?f)" by (metis append_take_drop_id set_append)
    then show ?thesis using set_take_disj_set_drop_if_distinct [OF d, of b b] by blast
  qed
  finally have "card (set ts - (P \<inter> set ts \<union> set (take b ?f))) = length ?f - b"
    using d by (simp add: distinct_card)
  moreover have "length ?f = card (set ts - P)"
    using distinct_card [OF d] by (metis set_diff_eq set_filter)
  ultimately show ?thesis by simp
qed

definition rollout_inv :: "('w \<Rightarrow> string \<times> string \<rightharpoonup> config_map) \<Rightarrow> namespaced_name \<Rightarrow> config_propagation_spec \<Rightarrow>
    go_map \<Rightarrow> string set \<Rightarrow> nat \<Rightarrow> 'w reconciler \<Rightarrow> nat \<Rightarrow> rollout_result option \<Rightarrow> 'w reconciler \<Rightarrow> bool" where
  "rollout_inv cluster i spec data targets batch s0 n res s \<longleftrightarrow>
     (let done = rollout_progress (rc_planner s) i (HashData data); name = ref_name (sp_source_ref spec)
      in card (targets - done) \<le> card targets - n * batch \<and>
        (\<forall>ns \<in> targets. if ns \<in> done
           then synced (source_of spec) data (HashData data) (cluster (rc_world s0) (ns, name)) (cluster (rc_world s) (ns, name))
           else cluster (rc_world s) (ns, name) = cluster (rc_world s0) (ns, name)) \<and>
        (0 < n \<longrightarrow> (\<exists>r. res = Some r \<and> rr_total_targets r = card targets \<and>
           rr_completed_count r = card (targets \<inter> done) \<and>
           rr_completed_count r + length (rr_out_of_sync r) = card targets)))"

lemma rollout_inv_cong:
  "rc_planner s' = rc_planner s \<Longrightarrow> rc_world s' = rc_world s \<Longrightarrow>
    rollout_inv cluster i spec data targets batch s0 n res s' = rollout_inv cluster i spec data targets batch s0 n res s"
  by (simp only: rollout_inv_def)

lemma rollout_inv_round:
  assumes kc: "kube_contract client cluster"
    and inv: "rollout_inv cluster (namespaced_name_of key) spec data (set listed) (desired_batch spec) s0 n res s"
    and ok: "reconcile_impl client key spec s = (Inr r, s')"
    and rolling: "is_rolling spec" "complete_spec spec" "sp_conflict_policy spec \<noteq> ConflictSkip"
    and src: "cluster (rc_world s) (source_key spec) = Some src" "desired_data spec src = data"
    and listed: "listed_targets client spec (rc_world s) = Some listed"
  shows "rollout_inv cluster (namespaced_name_of key) spec data (set listed) (desired_batch spec) s0 (Suc n) (Some r) s'"
proof -
  let ?T = "set listed" and ?name = "ref_name (sp_source_ref spec)"
  let ?P = "rollout_progress (rc_planner s) (namespaced_name_of key) (HashData data)"
  let ?P' = "rollout_progress (rc_planner s') (namespaced_name_of key) (HashData data)"
  note round = kube_contract.impl_rolling_round [OF kc ok rolling src listed]
  have dist: "distinct listed" by (rule kube_contract.listed_targets_distinct [OF kc listed])
  have "card (?T - ?P') = card (?T - ?P) - desired_batch spec"
    using pending_shrinks [of "sort listed" ?P "desired_batch spec"] dist round(1,2) by simp
  moreover have "card (?T - ?P) \<le> card ?T - n * desired_batch spec"
    using inv by (simp add: rollout_inv_def Let_def)
  ultimately have pending: "card (?T - ?P') \<le> card ?T - Suc n * desired_batch spec" by simp
  have copies: "if ns \<in> ?P'
       then synced (source_of spec) data (HashData data) (cluster (rc_world s0) (ns, ?name)) (cluster (rc_world s') (ns, ?name))
       else cluster (rc_world s') (ns, ?name) = cluster (rc_world s0) (ns, ?name)" if ns: "ns \<in> ?T" for ns
  proof -
    have before: "if ns \<in> ?P
       then synced (source_of spec) data (HashData data) (cluster (rc_world s0) (ns, ?name)) (cluster (rc_world s) (ns, ?name))
       else cluster (rc_world s) (ns, ?name) = cluster (rc_world s0) (ns, ?name)"
      using inv ns by (simp add: rollout_inv_def Let_def)
    show ?thesis
    proof (cases "ns \<in> set (rr_planned r)")
      case True
      then have "ns \<notin> ?P" "ns \<in> ?P'" using round(1,2) by (auto dest: in_set_takeD)
      with before round(3) [OF True] show ?thesis by simp
    next
      case False
      with before round(4) [OF ns False] round(2) ns show ?thesis by auto
    qed
  qed
  have sub: "?P' \<subseteq> ?T" using round(1,2) by (auto dest: in_set_takeD)
  have "rr_total_targets r = card ?T" "rr_completed_count r = card (?T \<inter> ?P')"
    "rr_completed_count r + length (rr_out_of_sync r) = card ?T"
    using accounts_for_count [OF round(5)] round(5) dist sub distinct_card [OF dist]
    by (simp_all add: accounts_for_def Int_absorb1)
  with pending copies show ?thesis by (simp add: rollout_inv_def Let_def)
qed

lemma rollout_run_inv:
  assumes kc: "kube_contract client cluster"
    and run: "rollout_run env client cluster key spec data targets s0 n res s"
    and rolling: "is_rolling (DefaultSpec env spec)" "sp_conflict_policy spec \<noteq> ConflictSkip"
    and sound: "\<And>ns. ns \<in> rollout_progress (rc_planner s0) (namespaced_name_of key) (HashData data) \<Longrightarrow>
      \<exists>cm. cluster (rc_world s0) (ns, ref_name (sp_source_ref spec)) = Some cm \<and>
        in_sync (source_of spec) (HashData data) cm"
  shows "rollout_inv cluster (namespaced_name_of key) (DefaultSpec env spec) data targets
    (desired_batch (DefaultSpec env spec)) s0 n res s"
  using run
proof (induction rule: rollout_run.induct)
  case Begin
  have "card (targets - rollout_progress p i h) \<le> card targets" for p i h
    by (cases "finite targets") (simp_all add: card_mono Diff_infinite_finite)
  moreover have "synced (source_of spec) data (HashData data) (cluster (rc_world s0) (ns, ref_name (sp_source_ref spec)))
      (cluster (rc_world s0) (ns, ref_name (sp_source_ref spec)))"
    if "ns \<in> rollout_progress (rc_planner s0) (namespaced_name_of key) (HashData data)" for ns
    using sound [OF that] by (auto simp: synced_def)
  ultimately show ?case by (simp add: rollout_inv_def Let_def)
next
  case (Round n res s elapsed r sp s' src listed)
  from Round.hyps(2) show ?case
  proof (cases rule: ReconcileE)
    case (reconciled r1 s1)
    have "rollout_inv cluster (namespaced_name_of key) (DefaultSpec env spec) data (set listed)
        (desired_batch (DefaultSpec env spec)) s0 (Suc n) (Some r1) s1"
      by (rule rollout_inv_round [OF kc _ reconciled(2) rolling(1) DefaultSpec_complete [OF reconciled(1)]])
        (use Round rolling in simp_all)
    moreover have "rc_planner s' = rc_planner s1" "rc_world s' = rc_world s1" using reconciled(4) by simp_all
    ultimately show ?thesis using reconciled(3) Round.hyps(6) by (simp add: rollout_inv_cong [of s' s1])
  qed simp_all
next
  case (Others n res s s')
  have "rollout_progress (rc_planner s') (namespaced_name_of key) (HashData data) =
      rollout_progress (rc_planner s) (namespaced_name_of key) (HashData data)"
    by (rule rollout_progress_cong) (rule Others.hyps(2))
  with Others.hyps(3) Others.IH show ?case
    by (simp add: rollout_inv_def Let_def cong: if_cong)
qed

section \<open>Two rounds on an example cluster\<close>

text \<open>The source and two namespaces without a copy, in batches of one.\<close>

definition wave_world :: mem_world where
  "wave_world = ex_world\<lparr>mw_objects := fmupd (''src'', ''cfg'') ex_source fmempty\<rparr>"

definition ex_waves :: config_propagation_spec where
  "ex_waves = ex_spec\<lparr>sp_strategy := Some \<lparr>us_type = StrategyRolling, us_batch_size = Some 1\<rparr>,
     sp_conflict_policy := ConflictOverwrite, sp_prune := Some True\<rparr>"

lemma ex_waves_fields [simp]:
  "sp_source_ref ex_waves = \<lparr>ref_namespace = ''src'', ref_name = ''cfg''\<rparr>"
  "sp_namespace_selector ex_waves = Some \<lparr>ls_match_labels = None, ls_match_expressions = []\<rparr>"
  "sp_data_keys ex_waves = []"
  "sp_strategy ex_waves = Some \<lparr>us_type = StrategyRolling, us_batch_size = Some 1\<rparr>"
  "sp_conflict_policy ex_waves = ConflictOverwrite" "sp_prune ex_waves = Some True"
  "sp_resync_period_seconds ex_waves = None"
  by (simp_all add: ex_waves_def ex_spec_def)

lemma ex_waves_complete: "DefaultSpec env ex_waves = ex_waves" "ValidateSpec (Some ex_waves) = None"
  by (simp_all add: DefaultSpec_def ex_waves_def Let_def ValidateSpec_valid valid_spec_def ex_spec_def constant_defs)

lemma ex_waves_rolling: "is_rolling ex_waves" "desired_batch ex_waves = 1"
  by (simp_all add: is_rolling_def desired_batch_def effective_batch_def)

lemmas wave_eval = run_eval record_eval plan_def ensure_state_locked_def mark_completed_def
  completed_namespaces_def namespaced_name_of_def int32_of_len_def

lemma ffilter_finsert [simp]:
  "ffilter P {||} = {||}" "ffilter P (finsert x A) = (if P x then finsert x (ffilter P A) else ffilter P A)"
  by auto

lemma ex_wave1:
  "\<exists>s' r. reconcile_impl mem_client ex_key ex_waves (NewReconciler wave_world) = (Inr r, s') \<and>
     mw_objects (rc_world s') = fmupd (''n1'', ''cfg'') (ex_copy ''n1'') (mw_objects wave_world) \<and>
     mw_namespaces (rc_world s') = mw_namespaces wave_world \<and> mw_faults (rc_world s') = [] \<and>
     rc_planner s' = [namespaced_name_of ex_key \<mapsto> \<lparr>rs_hash = ex_hash, rs_completed = {|''n1''|}\<rparr>]"
  by (simp add: reconcile_impl_def wave_eval ex_defs wave_world_def StrategyRolling_def StrategyImmediate_def
      NewRolloutPlanner_def)

lemma ex_wave2:
  assumes "mw_objects (rc_world s) = fmupd (''n1'', ''cfg'') (ex_copy ''n1'') (mw_objects wave_world)"
    and "mw_namespaces (rc_world s) = mw_namespaces wave_world" "mw_faults (rc_world s) = []"
    and "rc_planner s = [namespaced_name_of ex_key \<mapsto> \<lparr>rs_hash = ex_hash, rs_completed = {|''n1''|}\<rparr>]"
  shows "\<exists>s' r. reconcile_impl mem_client ex_key ex_waves s = (Inr r, s')"
  using assms
  by (simp add: reconcile_impl_def wave_eval ex_defs wave_world_def StrategyRolling_def StrategyImmediate_def)

lemma ex_waves_listed:
  assumes "fmlookup (mw_objects w) (''src'', ''cfg'') = Some cm"
    "mw_namespaces w = mw_namespaces wave_world" "mw_faults w = []"
  shows "listed_targets mem_client ex_waves w = Some [''n1'', ''n2'']"
  using assms by (simp add: listed_targets_def run_eval ex_defs wave_world_def)

lemma ex_waves_source:
  assumes "fmlookup (mw_objects w) (''src'', ''cfg'') = Some ex_source"
  shows "\<exists>src. mem_store w (source_key ex_waves) = Some src \<and> desired_data ex_waves src = ex_data"
  using assms
  by (simp add: mem_store_def stored_objects_def source_key_def desired_data_def ex_source_def cm_content_def
      stored_map_def compute_effective_def cm_at_def)

lemma ex_Reconcile_waves:
  assumes "reconcile_impl mem_client ex_key ex_waves s = (Inr r, s1)"
  shows "Reconcile env mem_client elapsed ex_key (Some ex_waves) s =
    ((Inr r, Some ex_waves), emit (ObserveReconcileDuration elapsed)
       (emit (ObserveTargets (rr_total_targets r) (length (rr_out_of_sync r))) s1))"
  using assms by (simp add: Reconcile_def Let_def ex_waves_complete)

lemma ex_waves_run:
  "\<exists>r s. rollout_run ex_env mem_client mem_store ex_key ex_waves ex_data {''n1'', ''n2''}
     (NewReconciler wave_world) 2 (Some r) s"
proof -
  let ?run = "rollout_run ex_env mem_client mem_store ex_key ex_waves ex_data {''n1'', ''n2''} (NewReconciler wave_world)"
  have source: "fmlookup (mw_objects wave_world) (''src'', ''cfg'') = Some ex_source" by (simp add: wave_world_def)
  obtain s1 r1 where one: "reconcile_impl mem_client ex_key ex_waves (NewReconciler wave_world) = (Inr r1, s1)"
      "mw_objects (rc_world s1) = fmupd (''n1'', ''cfg'') (ex_copy ''n1'') (mw_objects wave_world)"
      "mw_namespaces (rc_world s1) = mw_namespaces wave_world" "mw_faults (rc_world s1) = []"
      "rc_planner s1 = [namespaced_name_of ex_key \<mapsto> \<lparr>rs_hash = ex_hash, rs_completed = {|''n1''|}\<rparr>]"
    using ex_wave1 by blast
  obtain src where src: "mem_store wave_world (source_key ex_waves) = Some src" "desired_data ex_waves src = ex_data"
    using ex_waves_source [OF source] by blast
  let ?s1 = "emit (ObserveReconcileDuration 0) (emit (ObserveTargets (rr_total_targets r1) (length (rr_out_of_sync r1))) s1)"
  have run1: "?run (Suc 0) (Some r1) ?s1"
    by (rule rollout_run.Round [OF rollout_run.Begin ex_Reconcile_waves [OF one(1)], where src = src and listed = "[''n1'', ''n2'']"])
      (use src ex_waves_listed [OF source] in \<open>simp_all add: wave_world_def ex_world_def\<close>)
  obtain s2 r2 where two: "reconcile_impl mem_client ex_key ex_waves ?s1 = (Inr r2, s2)"
    using ex_wave2 [of ?s1] one by auto
  have source1: "fmlookup (mw_objects (rc_world s1)) (''src'', ''cfg'') = Some ex_source"
    using source by (simp add: one)
  obtain src1 where src1: "mem_store (rc_world s1) (source_key ex_waves) = Some src1" "desired_data ex_waves src1 = ex_data"
    using ex_waves_source [OF source1] by blast
  have "?run (Suc (Suc 0)) (Some r2) (emit (ObserveReconcileDuration 0)
      (emit (ObserveTargets (rr_total_targets r2) (length (rr_out_of_sync r2))) s2))"
    by (rule rollout_run.Round [OF run1 ex_Reconcile_waves [OF two], where src = src1 and listed = "[''n1'', ''n2'']"])
      (use src1 ex_waves_listed [OF source1] one in simp_all)
  then show ?thesis by (auto simp: numeral_2_eq_2)
qed

section \<open>Properties\<close>

text \<open>C6. A rolling rollout reaches every target. Let a resource be reconciled successfully \<open>n\<close> times
  with the same desired data and targets, conflictPolicy overwrite, and a planner that only
  remembers namespaces that are up to date. Then at least \<open>n\<close> batches of targets (or all of them)
  have an up-to-date copy that is either untouched or exactly the desired data; and once \<open>n\<close>
  batches cover the targets, all of them do, and the last reconcile counted all of them as
  completed and reported none out of sync.\<close>

theorem rolling_reconciles_converge:
  assumes "kube_contract client cluster"
    and "is_rolling (DefaultSpec env spec)" and "sp_conflict_policy spec \<noteq> ConflictSkip"
    and "rollout_run env client cluster key spec data targets s0 n res s"
    and "\<And>ns. ns \<in> rollout_progress (rc_planner s0) (namespaced_name_of key) (HashData data) \<Longrightarrow>
      \<exists>cm. cluster (rc_world s0) (ns, ref_name (sp_source_ref spec)) = Some cm \<and>
        in_sync (source_of spec) (HashData data) cm"
    and "finite targets"
  shows "\<exists>reached \<subseteq> targets. min (card targets) (n * desired_batch (DefaultSpec env spec)) \<le> card reached \<and>
      (\<forall>ns \<in> reached. synced (source_of spec) data (HashData data)
         (cluster (rc_world s0) (ns, ref_name (sp_source_ref spec))) (cluster (rc_world s) (ns, ref_name (sp_source_ref spec)))) \<and>
      (card targets \<le> n * desired_batch (DefaultSpec env spec) \<and> 0 < n \<longrightarrow>
         reached = targets \<and>
         (\<exists>r. res = Some r \<and> rr_completed_count r = card targets \<and> rr_total_targets r = card targets \<and>
            rr_out_of_sync r = []))"
proof -
  let ?done = "rollout_progress (rc_planner s) (namespaced_name_of key) (HashData data)"
  note inv = rollout_run_inv [OF assms(1,4,2,3,5), unfolded rollout_inv_def Let_def DefaultSpec_views]
  have split: "card targets = card (targets \<inter> ?done) + card (targets - ?done)"
    using assms(6) by (rule card_Int_Diff)
  show ?thesis
  proof (intro exI [of _ "targets \<inter> ?done"] conjI impI)
    show "min (card targets) (n * desired_batch (DefaultSpec env spec)) \<le> card (targets \<inter> ?done)"
      using inv split by linarith
  next
    assume a: "card targets \<le> n * desired_batch (DefaultSpec env spec) \<and> 0 < n"
    then have "card (targets - ?done) = 0" using inv by simp
    then show "targets \<inter> ?done = targets" using assms(6) by auto
    then show "\<exists>r. res = Some r \<and> rr_completed_count r = card targets \<and> rr_total_targets r = card targets \<and>
        rr_out_of_sync r = []"
      using inv a by auto
  qed (use inv in auto)
qed

theorem rolling_reconciles_converge_witness:
  "\<exists>r s. rollout_run ex_env mem_client mem_store ex_key ex_waves ex_data {''n1'', ''n2''} (NewReconciler wave_world) 2 (Some r) s \<and>
     rr_completed_count r = 2 \<and> rr_out_of_sync r = [] \<and>
     (\<forall>ns \<in> {''n1'', ''n2''}. \<exists>cm. mem_store (rc_world s) (ns, ''cfg'') = Some cm \<and> in_sync ''src/cfg'' ex_hash cm)"
proof -
  obtain r s where run: "rollout_run ex_env mem_client mem_store ex_key ex_waves ex_data {''n1'', ''n2''}
      (NewReconciler wave_world) 2 (Some r) s"
    using ex_waves_run by blast
  have rolling: "is_rolling (DefaultSpec ex_env ex_waves)" "desired_batch (DefaultSpec ex_env ex_waves) = 1"
    "sp_conflict_policy ex_waves \<noteq> ConflictSkip" "source_of ex_waves = ''src/cfg''"
    by (simp_all add: ex_waves_complete ex_waves_rolling constant_defs source_of_def source_id_def)
  have "rollout_progress (rc_planner (NewReconciler wave_world)) i h = {}" for i h
    by (simp add: NewReconciler_def NewRolloutPlanner_def rollout_progress_def)
  with rolling_reconciles_converge [OF mem_client_contract rolling(1,3) run] rolling(2,4)
  have "rr_completed_count r = 2" "rr_out_of_sync r = []"
    "\<forall>ns \<in> {''n1'', ''n2''}. \<exists>cm. mem_store (rc_world s) (ns, ''cfg'') = Some cm \<and> in_sync ''src/cfg'' ex_hash cm"
    by (auto simp: synced_def)
  with run show ?thesis by blast
qed

end
