(* ===== verification/Known_Gaps.thy ===== *)
theory Known_Gaps
  imports Rolling_Runs
begin

text \<open>
  Behaviour of the reconciler that its documentation does not announce, proved of the code as it
  is: the planner outlives the resource it plans for, a copy is judged by its hash annotation
  alone, conflicts at the front of a rolling rollout block it, and a source in a selected
  namespace is overwritten by its own copy.
\<close>

section \<open>A rolling round that finds everything completed\<close>

lemma accounts_for_none_left:
  assumes "accounts_for targets done r" "rr_out_of_sync r = []"
  shows "done = set targets"
  using assms by (simp add: accounts_for_def)

lemma accounts_for_all_done:
  assumes "accounts_for targets (set targets) r" "distinct targets"
  shows "rr_out_of_sync r = []" "rr_completed_count r = rr_total_targets r"
  using accounts_for_count [OF assms] assms distinct_card [of targets] by (simp_all add: accounts_for_def)

lemma Finalize_planner:
  "Finalize env client key spec s = (x, s') \<Longrightarrow> rc_planner s' = rc_planner s"
  by (auto simp: Finalize_def Let_def same_planner_def split: option.splits prod.splits
      dest!: cleanup_deselected_planner)

text \<open>C14. A resource that is deleted and created again is taken for rolled out. On a cluster that
  keeps the contract, let a rolling reconcile of a spec whose conflict policy is not skip succeed
  with nothing left out of sync, let the finalization of the resource succeed after it, and let the
  same process then reconcile a resource with the same key and the identical spec, while the source
  holds the same desired data and the selector lists the same targets as the first time. If that
  last reconcile succeeds, then it has planned nothing, counted every target as completed and
  reported none out of sync, it has left the ConfigMap of that name in every target as it was, and
  none of these is a managed copy of the source.\<close>

theorem recreated_resource_gets_no_copies:
  assumes "kube_contract client cluster"
    and "is_rolling (DefaultSpec env spec)" and "sp_conflict_policy spec \<noteq> ConflictSkip"
    and "Reconcile env client elapsed0 key (Some spec) s0 = ((Inr r0, sp0), s1)" and "rr_out_of_sync r0 = []"
    and "Finalize env client key (Some spec) s1 = ((None, sp1), s2)"
    and "Reconcile env client elapsed2 key (Some spec) s2 = ((Inr r, sp2), s3)"
    and "listed_targets client spec (rc_world s0) = Some listed" "listed_targets client spec (rc_world s2) = Some listed"
    and "cluster (rc_world s0) (source_key spec) = Some src0" "cluster (rc_world s2) (source_key spec) = Some src2"
    and "desired_data spec src0 = desired_data spec src2"
  shows "rr_planned r = [] \<and> rr_completed_count r = length listed \<and> rr_out_of_sync r = [] \<and>
    (\<forall>ns \<in> set listed.
       cluster (rc_world s3) (ns, ref_name (sp_source_ref spec)) = cluster (rc_world s2) (ns, ref_name (sp_source_ref spec)) \<and>
       (\<forall>cm. cluster (rc_world s3) (ns, ref_name (sp_source_ref spec)) = Some cm \<longrightarrow> \<not> managed_copy (source_of spec) cm))"
proof -
  let ?spec = "DefaultSpec env spec" and ?name = "ref_name (sp_source_ref spec)"
  let ?data = "desired_data spec src2"
  obtain t1 where first: "reconcile_impl client key ?spec s0 = (Inr r0, t1)" "rc_planner s1 = rc_planner t1"
      "complete_spec ?spec"
    using assms(4) by (cases rule: ReconcileE) (auto intro: DefaultSpec_complete)
  obtain t3 where second: "reconcile_impl client key ?spec s2 = (Inr r, t3)" "rc_world s3 = rc_world t3"
    using assms(7) by (cases rule: ReconcileE) auto
  have policy: "sp_conflict_policy ?spec \<noteq> ConflictSkip" using assms(3) by simp
  note round1 = kube_contract.impl_rolling_round [OF assms(1) first(1) assms(2) first(3) policy, of src0 ?data listed,
      unfolded listed_targets_default DefaultSpec_views, OF assms(10,12,8)]
  note round2 = kube_contract.impl_rolling_round [OF assms(1) second(1) assms(2) first(3) policy, of src2 ?data listed,
      unfolded listed_targets_default DefaultSpec_views, OF assms(11) refl assms(9)]
  have dist: "distinct listed" by (rule kube_contract.listed_targets_distinct [OF assms(1,8)])
  have "rc_planner s2 = rc_planner t1" using Finalize_planner [OF assms(6)] first(2) by simp
  then have all: "rollout_progress (rc_planner s2) (namespaced_name_of key) (HashData ?data) = set listed"
    using accounts_for_none_left [OF round1(5) assms(5)] by simp
  have planned: "rr_planned r = []" using round2(1) by (simp add: all)
  have acc: "accounts_for (sort listed) (set (sort listed)) r" using round2(2,5) by (simp add: all planned)
  note result = accounts_for_all_done [OF acc]
  have kept: "cluster (rc_world s3) (ns, ?name) = cluster (rc_world s2) (ns, ?name)" if "ns \<in> set listed" for ns
    using round2(4) [OF that] by (simp add: planned second(2))
  have "\<not> managed_copy (source_of spec) cm" if "cluster (rc_world s2) (ns, ?name) = Some cm" for ns cm
  proof -
    have cl: "cleanup_deselected client key ?spec [] s1 = (None, s2)"
      using assms(6) by (auto simp: Finalize_def Let_def split: option.splits prod.splits)
    show ?thesis using kube_contract.cleanup_deselected_complete [OF assms(1) cl, of ns cm] that by simp
  qed
  with kept planned result acc dist show ?thesis by (auto simp: accounts_for_def)
qed

text \<open>One batch covers the two targets of the example cluster.\<close>

definition ex_once :: config_propagation_spec where
  "ex_once = ex_waves\<lparr>sp_strategy := Some \<lparr>us_type = StrategyRolling, us_batch_size = Some 5\<rparr>\<rparr>"

lemma ex_once_fields [simp]:
  "sp_source_ref ex_once = \<lparr>ref_namespace = ''src'', ref_name = ''cfg''\<rparr>"
  "sp_namespace_selector ex_once = Some \<lparr>ls_match_labels = None, ls_match_expressions = []\<rparr>"
  "sp_data_keys ex_once = []"
  "sp_strategy ex_once = Some \<lparr>us_type = StrategyRolling, us_batch_size = Some 5\<rparr>"
  "sp_conflict_policy ex_once = ConflictOverwrite" "sp_prune ex_once = Some True"
  "sp_resync_period_seconds ex_once = None"
  by (simp_all add: ex_once_def)

lemma ex_once_complete: "DefaultSpec env ex_once = ex_once" "ValidateSpec (Some ex_once) = None"
  by (simp_all add: DefaultSpec_def Let_def ValidateSpec_valid valid_spec_def ex_once_def ex_waves_def ex_spec_def constant_defs)

lemma ex_once_rolling: "is_rolling ex_once"
  by (simp add: is_rolling_def)

abbreviation "ex_done \<equiv> [namespaced_name_of ex_key \<mapsto> \<lparr>rs_hash = ex_hash, rs_completed = {|''n1'', ''n2''|}\<rparr>]"

lemma ex_once_first:
  "\<exists>s' r. reconcile_impl mem_client ex_key ex_once (NewReconciler wave_world) = (Inr r, s') \<and> rr_out_of_sync r = [] \<and>
     mw_objects (rc_world s') = fmupd (''n2'', ''cfg'') (ex_copy ''n2'')
       (fmupd (''n1'', ''cfg'') (ex_copy ''n1'') (mw_objects wave_world)) \<and>
     mw_namespaces (rc_world s') = mw_namespaces wave_world \<and> mw_faults (rc_world s') = [] \<and> rc_planner s' = ex_done"
  by (simp add: reconcile_impl_def wave_eval ex_defs wave_world_def StrategyRolling_def StrategyImmediate_def
      NewRolloutPlanner_def)

lemma ex_once_finalize:
  assumes "mw_objects (rc_world s) = fmupd (''n2'', ''cfg'') (ex_copy ''n2'')
       (fmupd (''n1'', ''cfg'') (ex_copy ''n1'') (mw_objects wave_world))"
    and "mw_namespaces (rc_world s) = mw_namespaces wave_world" "mw_faults (rc_world s) = []"
  shows "\<exists>s'. cleanup_deselected mem_client ex_key ex_once [] s = (None, s') \<and>
     mw_objects (rc_world s') = mw_objects wave_world \<and>
     mw_namespaces (rc_world s') = mw_namespaces wave_world \<and> mw_faults (rc_world s') = []"
  using assms by (simp add: wave_eval ex_defs wave_world_def)

lemma ex_once_again:
  assumes "mw_objects (rc_world s) = mw_objects wave_world"
    and "mw_namespaces (rc_world s) = mw_namespaces wave_world" "mw_faults (rc_world s) = []" "rc_planner s = ex_done"
  shows "\<exists>s' r. reconcile_impl mem_client ex_key ex_once s = (Inr r, s')"
  using assms by (simp add: reconcile_impl_def wave_eval ex_defs wave_world_def StrategyRolling_def StrategyImmediate_def)

lemma ex_once_listed:
  assumes "mw_objects w = mw_objects wave_world" "mw_namespaces w = mw_namespaces wave_world" "mw_faults w = []"
  shows "listed_targets mem_client ex_once w = Some [''n1'', ''n2'']"
  using assms by (simp add: listed_targets_def run_eval ex_defs wave_world_def)

lemma ex_Reconcile_once:
  assumes "reconcile_impl mem_client ex_key ex_once s = (Inr r, s1)"
  shows "Reconcile env mem_client elapsed ex_key (Some ex_once) s =
    ((Inr r, Some ex_once), emit (ObserveReconcileDuration elapsed)
       (emit (ObserveTargets (rr_total_targets r) (length (rr_out_of_sync r))) s1))"
  using assms by (simp add: Reconcile_def Let_def ex_once_complete)

theorem recreated_resource_gets_no_copies_witness:
  "\<exists>s1 s2 r s3. s1 = snd (Reconcile ex_env mem_client 0 ex_key (Some ex_once) (NewReconciler wave_world)) \<and>
     s2 = snd (Finalize ex_env mem_client ex_key (Some ex_once) s1) \<and>
     Reconcile ex_env mem_client 0 ex_key (Some ex_once) s2 = ((Inr r, Some ex_once), s3) \<and>
     rr_planned r = [] \<and> rr_completed_count r = 2 \<and> rr_out_of_sync r = []"
proof -
  obtain t1 r0 where one: "reconcile_impl mem_client ex_key ex_once (NewReconciler wave_world) = (Inr r0, t1)"
      "rr_out_of_sync r0 = []"
      "mw_objects (rc_world t1) = fmupd (''n2'', ''cfg'') (ex_copy ''n2'')
         (fmupd (''n1'', ''cfg'') (ex_copy ''n1'') (mw_objects wave_world))"
      "mw_namespaces (rc_world t1) = mw_namespaces wave_world" "mw_faults (rc_world t1) = []" "rc_planner t1 = ex_done"
    using ex_once_first by blast
  note run1 = ex_Reconcile_once [OF one(1), of ex_env 0]
  let ?s1 = "emit (ObserveReconcileDuration 0) (emit (ObserveTargets (rr_total_targets r0) (length (rr_out_of_sync r0))) t1)"
  obtain s2 where fin: "cleanup_deselected mem_client ex_key ex_once [] ?s1 = (None, s2)"
      "mw_objects (rc_world s2) = mw_objects wave_world"
      "mw_namespaces (rc_world s2) = mw_namespaces wave_world" "mw_faults (rc_world s2) = []"
    using ex_once_finalize [of ?s1] one by auto
  have run2: "Finalize ex_env mem_client ex_key (Some ex_once) ?s1 = ((None, Some ex_once), s2)"
    by (simp add: Finalize_def Let_def ex_once_complete fin(1))
  have planner: "rc_planner s2 = ex_done" using Finalize_planner [OF run2] one(6) by simp
  obtain t3 r where two: "reconcile_impl mem_client ex_key ex_once s2 = (Inr r, t3)"
    using ex_once_again [OF fin(2-4) planner] by blast
  note run3 = ex_Reconcile_once [OF two, of ex_env 0]
  have world: "mw_objects wave_world = mw_objects wave_world" "mw_faults wave_world = []"
    by (simp_all add: wave_world_def ex_world_def)
  have listed: "listed_targets mem_client ex_once (rc_world (NewReconciler wave_world)) = Some [''n1'', ''n2'']"
    "listed_targets mem_client ex_once (rc_world s2) = Some [''n1'', ''n2'']"
    using ex_once_listed [OF world(1) refl world(2)] ex_once_listed [OF fin(2-4)] by simp_all
  have key: "source_key ex_once = (''src'', ''cfg'')" by (simp add: source_key_def)
  obtain src where src: "mem_store (rc_world (NewReconciler wave_world)) (source_key ex_once) = Some src"
    by (simp add: key mem_store_def stored_objects_def wave_world_def)
  have src2: "mem_store (rc_world s2) (source_key ex_once) = Some src"
    using src fin(2) by (simp add: mem_store_def)
  have rolling: "is_rolling (DefaultSpec ex_env ex_once)" "sp_conflict_policy ex_once \<noteq> ConflictSkip"
    by (simp_all add: ex_once_complete ex_once_rolling constant_defs)
  from recreated_resource_gets_no_copies [OF mem_client_contract rolling run1 one(2) run2 run3 listed src src2 refl]
  have "rr_planned r = []" "rr_completed_count r = 2" "rr_out_of_sync r = []" by simp_all
  then show ?thesis using run3 by (simp add: run1 run2)
qed

text \<open>C15. A copy is judged by its marks alone. If a target's ConfigMap is marked as managed and its hash
  annotation is the hash of the desired data, a successful reconcile leaves it exactly as it is,
  whatever its data, and an immediate one counts it as completed.\<close>

theorem drifted_copy_is_left_alone:
  assumes "kube_contract client cluster"
    and "Reconcile env client elapsed key (Some spec) s = ((Inr r, sp'), s')"
    and "cluster (rc_world s) (source_key spec) = Some src"
    and "listed_targets client spec (rc_world s) = Some listed" and "ns \<in> set listed"
    and "cluster (rc_world s) (ns, ref_name (sp_source_ref spec)) = Some cm"
    and "in_sync (source_of spec) (HashData (desired_data spec src)) cm"
  shows "cluster (rc_world s') (ns, ref_name (sp_source_ref spec)) = Some cm \<and>
    (is_immediate (DefaultSpec env spec) \<longrightarrow> ns \<notin> oos_namespace ` set (rr_out_of_sync r))"
  using assms(2)
proof (cases rule: ReconcileE)
  case (reconciled r1 s1)
  let ?n = "ref_name (sp_source_ref spec)"
  have "cluster (rc_world s1) (ns, ?n) = Some cm"
    by (rule kube_contract.impl_invariant [OF assms(1) reconciled(2), where P = "\<lambda>c. c (ns, ?n) = Some cm"])
      (use assms(3-7) in auto)
  moreover have "ns \<notin> oos_namespace ` set (rr_out_of_sync r)" if im: "is_immediate (DefaultSpec env spec)"
    using kube_contract.impl_success [OF assms(1) reconciled(2)]
  proof cases
    case (1 src' listed')
    have p: "ns \<in> set (rr_planned r1)" using 1(5) 1(2) im assms(4,5) by simp
    show ?thesis
    proof
      assume "ns \<in> oos_namespace ` set (rr_out_of_sync r)"
      then have "ns \<in> oos_namespace ` set (rr_out_of_sync r1)" using reconciled(3) by simp
      from 1(8) [OF p this] assms(6,7) show False by (auto simp: in_sync_def)
    qed
  qed
  ultimately show ?thesis using reconciled(4) by simp
qed simp_all

text \<open>The copy in \<open>n1\<close> was edited after it had been written.\<close>

definition ex_drift :: mem_world where
  "ex_drift = ex_world\<lparr>mw_objects := fmupd (''n1'', ''cfg'') (ex_copy ''n1''\<lparr>cm_data := Some (fmupd ''k'' ''edited'' fmempty)\<rparr>)
     (mw_objects ex_world)\<rparr>"

lemma ex_drift_run:
  "\<exists>s' r. reconcile_impl mem_client ex_key (ex_immediate ConflictSkip True) (NewReconciler ex_drift) = (Inr r, s')"
  by (simp add: reconcile_impl_def run_eval record_eval ex_defs ex_drift_def)

theorem drifted_copy_is_left_alone_witness:
  "\<exists>r sp' s' cm. Reconcile ex_env mem_client 0 ex_key (Some (ex_immediate ConflictSkip True)) (NewReconciler ex_drift) =
       ((Inr r, sp'), s') \<and>
     mem_store (rc_world s') (''n1'', ''cfg'') = Some cm \<and> go_get (cm_data cm) ''k'' = ''edited'' \<and>
     ''n1'' \<notin> oos_namespace ` set (rr_out_of_sync r)"
proof -
  let ?spec = "ex_immediate ConflictSkip True"
  obtain t1 r where "reconcile_impl mem_client ex_key ?spec (NewReconciler ex_drift) = (Inr r, t1)"
    using ex_drift_run by blast
  note run = ex_Reconcile [OF this, of ex_env 0, simplified]
  have src: "mem_store (rc_world (NewReconciler ex_drift)) (source_key ?spec) = Some ex_source"
    by (simp add: mem_store_def stored_objects_def cm_content_def cm_at_def stored_map_def ex_defs ex_drift_def source_key_def)
  have eff: "desired_data ?spec ex_source = ex_data"
    by (simp add: desired_data_def compute_effective_def ex_source_def)
  have listed: "listed_targets mem_client ?spec (rc_world (NewReconciler ex_drift)) = Some [''n1'', ''n2'']"
    unfolding rc_world_NewReconciler
    by (rule ex_listed) (simp_all add: ex_drift_def ex_world_def)
  obtain cm where cm: "mem_store (rc_world (NewReconciler ex_drift)) (''n1'', ''cfg'') = Some cm"
      "go_get (cm_data cm) ''k'' = ''edited''" "in_sync ''src/cfg'' ex_hash cm"
    by (simp add: mem_store_def stored_objects_def cm_content_def cm_at_def stored_map_def ex_defs ex_drift_def
        in_sync_def marked_def managed_labels_def managed_annotations_def go_get_Some)
  have "source_of ?spec = ''src/cfg''" by (simp add: source_of_def source_id_def)
  with drifted_copy_is_left_alone [OF mem_client_contract run src listed, of "''n1''" cm] cm eff ex_immediate_is_immediate
  show ?thesis using run by auto
qed

section \<open>Conflicts at the front of a rolling rollout\<close>

context kube_contract
begin

lemma impl_blocked_round:
  assumes ok: "reconcile_impl client key spec s = (Inr r, s')"
    and rolling: "is_rolling spec" "complete_spec spec" and policy: "sp_conflict_policy spec = ConflictSkip"
    and src: "cmaps s (source_key spec) = Some src" "desired_data spec src = data"
    and listed: "listed_targets client spec (rc_world s) = Some listed"
  defines "P \<equiv> rollout_progress (rc_planner s) (namespaced_name_of key) (HashData data)"
    and "n \<equiv> ref_name (sp_source_ref spec)"
  assumes blocked: "\<And>ns. ns \<in> set (take (desired_batch spec) (filter (\<lambda>m. m \<notin> P) (sort listed))) \<Longrightarrow>
      \<exists>cm. cmaps s (ns, n) = Some cm \<and> \<not> marked (source_of spec) cm"
  shows "rr_planned r = take (desired_batch spec) (filter (\<lambda>m. m \<notin> P) (sort listed))"
    and "rollout_progress (rc_planner s') (namespaced_name_of key) (HashData data) = P \<inter> set listed"
    and "rr_completed_count r = card (P \<inter> set listed)"
    and "ns \<in> set listed \<Longrightarrow> cmaps s' (ns, n) = cmaps s (ns, n)"
proof -
  let ?P' = "rollout_progress (rc_planner s') (namespaced_name_of key) (HashData data)"
  obtain written where m: "rr_planned r = take (desired_batch spec) (filter (\<lambda>m. m \<notin> P) (sort listed))"
    "?P' = (P \<inter> set listed) \<union> written" "written \<subseteq> set (rr_planned r)" "accounts_for (sort listed) ?P' r"
    using impl_rolling_memory [OF ok rolling src listed] unfolding P_def by metis
  show "rr_planned r = take (desired_batch spec) (filter (\<lambda>m. m \<notin> P) (sort listed))" by (rule m(1))
  have foreign: "\<exists>cm. cmaps s (ns, n) = Some cm \<and> \<not> marked (source_of spec) cm" if "ns \<in> set (rr_planned r)" for ns
    using blocked [of ns] that m(1) by simp
  have kept: "cmaps s' (ns, n) = cmaps s (ns, n)" if p: "ns \<in> set (rr_planned r)" for ns
    using foreign [OF p] impl_keeps [OF ok, of "(ns, n)"] policy by (auto simp: n_def)
  have "ns \<notin> ?P'" if p: "ns \<in> set (rr_planned r)" for ns
  proof -
    have "ns \<in> oos_namespace ` set (rr_out_of_sync r)"
      using impl_success [OF ok]
    proof cases
      case (1 src' listed')
      show ?thesis
      proof (rule ccontr)
        assume "ns \<notin> oos_namespace ` set (rr_out_of_sync r)"
        from 1(7) [OF p this] foreign [OF p] kept [OF p] show False
          by (auto simp: synced_def in_sync_def n_def)
      qed
    qed
    with m(4) show ?thesis by (auto simp: accounts_for_def)
  qed
  with m(2,3) have none: "written = {}" by auto
  then show "?P' = P \<inter> set listed" using m(2) by simp
  then show "rr_completed_count r = card (P \<inter> set listed)" using m(4) by (simp add: accounts_for_def)
  show "cmaps s' (ns, n) = cmaps s (ns, n)" if "ns \<in> set listed"
    using kept [of ns] impl_success_keeps [OF ok listed that] by (auto simp: n_def)
qed

end

lemma filter_progress_cong:
  "P \<inter> set ts = Q \<inter> set ts \<Longrightarrow> filter (\<lambda>m. m \<notin> P) ts = filter (\<lambda>m. m \<notin> Q) ts"
  by (rule filter_cong) auto

lemma sort_listed: "distinct listed \<Longrightarrow> sort listed = sorted_list_of_set (set listed)"
  by (simp add: sorted_list_of_set_sort_remdups distinct_remdups_id)

text \<open>C16. Conflicts at the front block a rolling rollout. On a cluster that keeps the contract, take a
  rolling spec with conflictPolicy skip and any number of
  successful reconciles of one spec that each find the same desired data and the same set of
  targets, and between which others may change anything except the planner's entry for the
  resource and the ConfigMaps of the source's name in the target namespaces. If at the start the
  first batch of the targets that are not completed holds foreign ConfigMaps, then, however many
  reconciles there are, no ConfigMap of that name in a target has changed at the end, and the last
  of them has planned just this first batch again, with the completed count the rollout began with:
  the targets after the first batch are not reached as long as data and targets stay the same.\<close>

theorem conflicts_block_rollout:
  assumes "kube_contract client cluster"
    and "is_rolling (DefaultSpec env spec)" and "sp_conflict_policy spec = ConflictSkip"
    and "rollout_run env client cluster key spec data targets s0 n res s"
    and "waiting = take (desired_batch (DefaultSpec env spec))
      (filter (\<lambda>m. m \<notin> rollout_progress (rc_planner s0) (namespaced_name_of key) (HashData data)) (sorted_list_of_set targets))"
    and "\<And>ns. ns \<in> set waiting \<Longrightarrow>
      \<exists>cm. cluster (rc_world s0) (ns, ref_name (sp_source_ref spec)) = Some cm \<and> \<not> marked (source_of spec) cm"
  shows "(\<forall>ns \<in> targets. cluster (rc_world s) (ns, ref_name (sp_source_ref spec)) =
      cluster (rc_world s0) (ns, ref_name (sp_source_ref spec))) \<and>
    (0 < n \<longrightarrow> (\<exists>r. res = Some r \<and> rr_planned r = waiting \<and> rr_completed_count r =
       card (rollout_progress (rc_planner s0) (namespaced_name_of key) (HashData data) \<inter> targets)))"
proof -
  let ?P = "\<lambda>s. rollout_progress (rc_planner s) (namespaced_name_of key) (HashData data)"
  let ?name = "ref_name (sp_source_ref spec)"
  have "?P s \<inter> targets = ?P s0 \<inter> targets \<and>
      (\<forall>ns \<in> targets. cluster (rc_world s) (ns, ?name) = cluster (rc_world s0) (ns, ?name)) \<and>
      (0 < n \<longrightarrow> (\<exists>r. res = Some r \<and> rr_planned r = waiting \<and> rr_completed_count r = card (?P s0 \<inter> targets)))"
    using assms(4)
  proof (induction rule: rollout_run.induct)
    case Begin
    then show ?case by simp
  next
    case (Round n res s elapsed r sp s' src listed)
    have policy: "sp_conflict_policy (DefaultSpec env spec) = ConflictSkip" using assms(3) by simp
    from Round.hyps(2) show ?case
    proof (cases rule: ReconcileE)
      case (reconciled r1 s1)
      have dist: "distinct listed" by (rule kube_contract.listed_targets_distinct [OF assms(1) Round.hyps(5)])
      have front: "take (desired_batch (DefaultSpec env spec)) (filter (\<lambda>m. m \<notin> ?P s) (sort listed)) = waiting"
      proof -
        have "?P s \<inter> set (sort listed) = ?P s0 \<inter> set (sort listed)" using Round.IH Round.hyps(6) by simp
        from filter_progress_cong [OF this] show ?thesis
          by (simp only: assms(5) sort_listed [OF dist] Round.hyps(6))
      qed
      have sub: "set waiting \<subseteq> targets"
        using Round.hyps(6) front by (auto dest: in_set_takeD)
      have foreign: "\<exists>cm. cluster (rc_world s) (ns, ?name) = Some cm \<and> \<not> marked (source_of spec) cm"
        if "ns \<in> set waiting" for ns
        using assms(6) [OF that] Round.IH sub that by auto
      note round = kube_contract.impl_blocked_round [OF assms(1) reconciled(2) assms(2)
          DefaultSpec_complete [OF reconciled(1)] policy, of src data listed,
          unfolded listed_targets_default DefaultSpec_views front, OF Round.hyps(3,4,5) foreign]
      have "?P s1 \<inter> targets = ?P s0 \<inter> targets"
        using round(2) Round.hyps(6) Round.IH by auto
      moreover have "rr_completed_count r1 = card (?P s0 \<inter> targets)"
        using round(3) Round.hyps(6) Round.IH by simp
      ultimately show ?thesis
        using round(1,4) Round.IH Round.hyps(6) reconciled(3,4) by auto
    qed simp_all
  next
    case (Others n res s s')
    have "?P s' = ?P s" by (rule rollout_progress_cong) (rule Others.hyps(2))
    with Others.hyps(3) Others.IH show ?case by simp
  qed
  then show ?thesis by blast
qed

text \<open>A foreign ConfigMap in the first of two namespaces, in batches of one.\<close>

definition ex_blocked :: config_propagation_spec where
  "ex_blocked = ex_waves\<lparr>sp_conflict_policy := ConflictSkip\<rparr>"

definition blocked_world :: mem_world where
  "blocked_world = ex_world\<lparr>mw_objects := fmupd (''src'', ''cfg'') ex_source
     (fmupd (''n1'', ''cfg'') (ex_foreign\<lparr>cm_namespace := ''n1''\<rparr>) fmempty)\<rparr>"

lemma ex_blocked_fields [simp]:
  "sp_source_ref ex_blocked = \<lparr>ref_namespace = ''src'', ref_name = ''cfg''\<rparr>"
  "sp_namespace_selector ex_blocked = Some \<lparr>ls_match_labels = None, ls_match_expressions = []\<rparr>"
  "sp_data_keys ex_blocked = []"
  "sp_strategy ex_blocked = Some \<lparr>us_type = StrategyRolling, us_batch_size = Some 1\<rparr>"
  "sp_conflict_policy ex_blocked = ConflictSkip" "sp_prune ex_blocked = Some True"
  by (simp_all add: ex_blocked_def)

lemma ex_blocked_complete: "DefaultSpec env ex_blocked = ex_blocked" "ValidateSpec (Some ex_blocked) = None"
  by (simp_all add: DefaultSpec_def Let_def ValidateSpec_valid valid_spec_def ex_blocked_def ex_waves_def ex_spec_def constant_defs)

lemma ex_blocked_run:
  "\<exists>s' r. reconcile_impl mem_client ex_key ex_blocked (NewReconciler blocked_world) = (Inr r, s')"
  by (simp add: reconcile_impl_def wave_eval ex_defs blocked_world_def StrategyRolling_def StrategyImmediate_def
      NewRolloutPlanner_def)

theorem conflicts_block_rollout_witness:
  "\<exists>r s. rollout_run ex_env mem_client mem_store ex_key ex_blocked ex_data {''n1'', ''n2''} (NewReconciler blocked_world) 1 (Some r) s \<and>
     rr_planned r = [''n1''] \<and> rr_completed_count r = 0 \<and> mem_store (rc_world s) (''n2'', ''cfg'') = None"
proof -
  let ?s0 = "NewReconciler blocked_world"
  obtain t r where impl: "reconcile_impl mem_client ex_key ex_blocked ?s0 = (Inr r, t)" using ex_blocked_run by blast
  let ?s1 = "emit (ObserveReconcileDuration 0) (emit (ObserveTargets (rr_total_targets r) (length (rr_out_of_sync r))) t)"
  have run1: "Reconcile ex_env mem_client 0 ex_key (Some ex_blocked) ?s0 = ((Inr r, Some ex_blocked), ?s1)"
    by (simp add: Reconcile_def Let_def ex_blocked_complete impl)
  have src: "mem_store (rc_world ?s0) (source_key ex_blocked) = Some ex_source" "desired_data ex_blocked ex_source = ex_data"
    by (simp_all add: mem_store_def stored_objects_def cm_content_def cm_at_def stored_map_def ex_defs blocked_world_def
        source_key_def desired_data_def compute_effective_def)
  have listed: "listed_targets mem_client ex_blocked (rc_world ?s0) = Some [''n1'', ''n2'']"
    by (simp add: listed_targets_def run_eval ex_defs blocked_world_def)
  have run: "rollout_run ex_env mem_client mem_store ex_key ex_blocked ex_data {''n1'', ''n2''} ?s0 (Suc 0) (Some r) ?s1"
    by (rule rollout_run.Round [OF rollout_run.Begin run1, where src = ex_source and listed = "[''n1'', ''n2'']"])
      (use src listed in simp_all)
  have none: "rollout_progress (rc_planner ?s0) i h = {}" for i h
    by (simp add: NewReconciler_def NewRolloutPlanner_def rollout_progress_def)
  have rolling: "is_rolling (DefaultSpec ex_env ex_blocked)" "desired_batch (DefaultSpec ex_env ex_blocked) = 1"
    by (simp_all add: ex_blocked_complete is_rolling_def desired_batch_def effective_batch_def)
  have n1: "\<exists>cm. mem_store (rc_world ?s0) (''n1'', ''cfg'') = Some cm \<and> \<not> marked ''src/cfg'' cm"
    and n2: "mem_store (rc_world ?s0) (''n2'', ''cfg'') = None"
    by (simp_all add: mem_store_def stored_objects_def cm_content_def cm_at_def stored_map_def ex_defs blocked_world_def
        marked_def go_get_def)
  have first: "[''n1''] = take (desired_batch (DefaultSpec ex_env ex_blocked))
      (filter (\<lambda>m. m \<notin> rollout_progress (rc_planner ?s0) (namespaced_name_of ex_key) (HashData ex_data))
        (sorted_list_of_set {''n1'', ''n2''}))"
    by (simp add: none rolling)
  have "source_of ex_blocked = ''src/cfg''" by (simp add: source_of_def source_id_def)
  with conflicts_block_rollout [OF mem_client_contract rolling(1) _ run first] n1 n2
  have "mem_store (rc_world ?s1) (''n2'', ''cfg'') = None" "rr_planned r = [''n1'']" "rr_completed_count r = 0"
    by (simp_all add: none)
  with run show ?thesis unfolding One_nat_def by blast
qed

section \<open>A source among its targets\<close>

text \<open>C17. A source in a selected namespace is lost. With conflictPolicy overwrite, a successful
  immediate reconcile replaces an unmanaged source in one of the target namespaces by a copy of
  the selected keys, marked as managed, and a finalization with prune on then deletes it.\<close>

theorem selected_source_is_lost:
  assumes "kube_contract client cluster"
    and "is_immediate (DefaultSpec env spec)" and "sp_conflict_policy spec \<noteq> ConflictSkip" and "prunes spec"
    and "Reconcile env client elapsed key (Some spec) s = ((Inr r, sp), s1)"
    and "listed_targets client spec (rc_world s) = Some listed" and "ref_namespace (sp_source_ref spec) \<in> set listed"
    and "cluster (rc_world s) (source_key spec) = Some src" and "\<not> marked (source_of spec) src"
    and "Finalize env client key (Some spec) s1 = ((None, sp1), s2)"
  shows "(\<exists>new. cluster (rc_world s1) (source_key spec) = Some new \<and>
      fresh_copy (source_of spec) (desired_data spec src) (HashData (desired_data spec src)) new) \<and>
    cluster (rc_world s2) (source_key spec) = None"
proof -
  let ?spec = "DefaultSpec env spec" and ?ns = "ref_namespace (sp_source_ref spec)"
  have "\<exists>new. cluster (rc_world s1) (source_key spec) = Some new \<and>
      fresh_copy (source_of spec) (desired_data spec src) (HashData (desired_data spec src)) new"
    using assms(5)
  proof (cases rule: ReconcileE)
    case (reconciled r1 t1)
    show ?thesis
      using kube_contract.impl_success [OF assms(1) reconciled(2)]
    proof cases
      case (1 src' listed')
      have p: "?ns \<in> set (rr_planned r1)" using 1(2,5) assms(2,6,7) by simp
      have "?ns \<notin> oos_namespace ` set (rr_out_of_sync r1)" using 1(8) [OF p] assms(3) by auto
      from 1(7) [OF p this] 1(1) assms(8,9) reconciled(4) show ?thesis
        by (auto simp: synced_def in_sync_def source_key_def)
    qed
  qed simp_all
  then obtain new where new: "cluster (rc_world s1) (source_key spec) = Some new"
      "fresh_copy (source_of spec) (desired_data spec src) (HashData (desired_data spec src)) new" by blast
  have cl: "cleanup_deselected client key ?spec [] s1 = (None, s2)"
    using assms(10) by (auto simp: Finalize_def Let_def split: option.splits prod.splits)
  have "cleaned (prunes spec) (Some new) (cluster (rc_world s2) (source_key spec))"
    using kube_contract.cleanup_deselected_success [OF assms(1) cl, of ?ns new] new(1) fresh_copy_in_sync(2) [OF new(2)]
    by (simp add: source_key_def)
  with new assms(4) show ?thesis by (auto simp: cleaned_def)
qed

text \<open>The namespace of the source is selected too.\<close>

definition selected_world :: mem_world where
  "selected_world = ex_world\<lparr>mw_objects := fmupd (''src'', ''cfg'') ex_source fmempty,
     mw_namespaces := fmupd ''src'' None fmempty\<rparr>"

lemma selected_run:
  "\<exists>s' r. reconcile_impl mem_client ex_key (ex_immediate ConflictOverwrite True) (NewReconciler selected_world) = (Inr r, s') \<and>
     mw_objects (rc_world s') = fmupd (''src'', ''cfg'') (ex_copy ''src'') fmempty \<and> mw_faults (rc_world s') = []"
  by (simp add: reconcile_impl_def run_eval record_eval ex_defs selected_world_def)

lemma selected_finalize:
  assumes "mw_objects (rc_world s) = fmupd (''src'', ''cfg'') (ex_copy ''src'') fmempty" "mw_faults (rc_world s) = []"
  shows "\<exists>s'. cleanup_deselected mem_client ex_key (ex_immediate ConflictOverwrite True) [] s = (None, s')"
  using assms by (simp add: run_eval record_eval ex_defs)

theorem selected_source_is_lost_witness:
  "\<exists>s1. s1 = snd (Reconcile ex_env mem_client 0 ex_key (Some (ex_immediate ConflictOverwrite True)) (NewReconciler selected_world)) \<and>
     mem_store selected_world (''src'', ''cfg'') \<noteq> None \<and>
     mem_store (rc_world (snd (Finalize ex_env mem_client ex_key (Some (ex_immediate ConflictOverwrite True)) s1))) (''src'', ''cfg'') = None"
proof -
  let ?spec = "ex_immediate ConflictOverwrite True"
  obtain t1 r where impl: "reconcile_impl mem_client ex_key ?spec (NewReconciler selected_world) = (Inr r, t1)"
      "mw_objects (rc_world t1) = fmupd (''src'', ''cfg'') (ex_copy ''src'') fmempty" "mw_faults (rc_world t1) = []"
    using selected_run by blast
  note run1 = ex_Reconcile [OF impl(1), of ex_env 0, simplified]
  let ?s1 = "emit (ObserveReconcileDuration 0) (emit (ObserveTargets (rr_total_targets r) (length (rr_out_of_sync r))) t1)"
  obtain s2 where fin: "cleanup_deselected mem_client ex_key ?spec [] ?s1 = (None, s2)"
    using selected_finalize [of ?s1] impl by auto
  note run2 = ex_Finalize [OF fin, of ex_env, simplified]
  have im: "is_immediate (DefaultSpec ex_env ?spec)" "sp_conflict_policy ?spec \<noteq> ConflictSkip" "prunes ?spec"
    by (simp_all add: is_immediate_def ex_immediate_complete prunes_def constant_defs)
  have listed: "listed_targets mem_client ?spec (rc_world (NewReconciler selected_world)) = Some [''src'']"
    by (simp add: listed_targets_def run_eval ex_defs selected_world_def)
  have src: "mem_store (rc_world (NewReconciler selected_world)) (source_key ?spec) = Some ex_source"
    by (simp add: mem_store_def stored_objects_def cm_content_def cm_at_def stored_map_def ex_defs selected_world_def source_key_def)
  have foreign: "\<not> marked (source_of ?spec) ex_source"
    by (simp add: marked_def ex_source_def go_get_def source_of_def source_id_def)
  from selected_source_is_lost [OF mem_client_contract im run1 listed _ src foreign run2]
  show ?thesis using src run1 run2 by (simp add: source_key_def)
qed

end
