(* ===== verification/Runtime_Controller.thy ===== *)
theory Runtime_Controller
  imports Reconciler_Guarantees Status
begin

text \<open>
  The controller-runtime side, \<open>pkg/controllers/configpropagation/runtime_controller.go\<close>: the life
  of one request, from reading the resource to writing its status. Three libraries are
  parameters: the API client for the resource (the record \<open>cr_client\<close>, whose calls act on the same
  world as the KubeClient), the finalizer helpers of controller-runtime (\<open>finalizer_lib\<close>, with
  their documented laws in the locale \<open>finalizer_contract\<close>), and the clock.
\<close>

section \<open>The libraries\<close>

text \<open>
  \<open>Update\<close> and the status \<open>Patch\<close> (given the base and the changed object) replace the caller's object
  by the server's answer, which is their result.
\<close>

record 'w cr_client =
  cr_get :: "namespaced_name \<Rightarrow> ('w, config_propagation) call"
  cr_update :: "config_propagation \<Rightarrow> ('w, config_propagation) call"
  cr_patch_status :: "config_propagation \<Rightarrow> config_propagation \<Rightarrow> ('w, config_propagation) call"

record finalizer_lib =
  ContainsFinalizer :: "string list \<Rightarrow> string \<Rightarrow> bool"
  AddFinalizer :: "string list \<Rightarrow> string \<Rightarrow> string list"
  RemoveFinalizer :: "string list \<Rightarrow> string \<Rightarrow> string list"

locale finalizer_contract =
  fixes flib :: finalizer_lib
  assumes contains_finalizer: "ContainsFinalizer flib fs f \<longleftrightarrow> f \<in> set fs"
    and add_finalizer: "set (AddFinalizer flib fs f) = insert f (set fs)"
    and remove_finalizer: "set (RemoveFinalizer flib fs f) = set fs - {f}"
begin

lemma added: "ContainsFinalizer flib (AddFinalizer flib fs f) f"
  by (simp add: contains_finalizer add_finalizer)

lemma removed: "\<not> ContainsFinalizer flib (RemoveFinalizer flib fs f) f"
  by (simp add: contains_finalizer remove_finalizer)

lemma others_kept: "g \<noteq> f \<Longrightarrow> ContainsFinalizer flib (RemoveFinalizer flib fs f) g = ContainsFinalizer flib fs g"
  by (simp add: contains_finalizer remove_finalizer)

end

text \<open>The helpers as controller-runtime documents them.\<close>

definition list_finalizers :: finalizer_lib where
  "list_finalizers = \<lparr>ContainsFinalizer = (\<lambda>fs f. f \<in> set fs),
     AddFinalizer = (\<lambda>fs f. if f \<in> set fs then fs else fs @ [f]),
     RemoveFinalizer = (\<lambda>fs f. filter (\<lambda>g. g \<noteq> f) fs)\<rparr>"

interpretation list_fin: finalizer_contract list_finalizers
  by unfold_locales (auto simp: list_finalizers_def)

section \<open>Reconcile of the runtime controller\<close>

record ctrl_result =
  Requeue :: bool
  RequeueAfter :: int

definition no_requeue :: ctrl_result where
  "no_requeue = \<lparr>Requeue = False, RequeueAfter = 0\<rparr>"

text \<open>The duration in nanoseconds; an \<open>int32\<close> of seconds fits the 64-bit \<open>time.Duration\<close>.\<close>

definition requeue_after :: "config_propagation_spec \<Rightarrow> int" where
  "requeue_after spec =
     (case sp_resync_period_seconds spec of
        None \<Rightarrow> 0
      | Some r \<Rightarrow> if sint r > 0 then sint r * 1000000000 else 0)"

text \<open>From the core reconcile to the end of the request.\<close>

definition run_reconcile :: "(string \<Rightarrow> string) \<Rightarrow> string \<Rightarrow> int \<Rightarrow> 'w kube_client \<Rightarrow> 'w cr_client \<Rightarrow>
    namespaced_name \<Rightarrow> config_propagation \<Rightarrow> 'w reconciler \<Rightarrow> (ctrl_result \<times> go_error option) \<times> 'w reconciler" where
  "run_reconcile env now elapsed client crc request cp s =
     (case Reconcile env client elapsed \<lparr>key_namespace = nn_namespace request, key_name = nn_name request\<rparr>
         (Some (cp_spec cp)) s of
        ((res, spec1), s1) \<Rightarrow>
          let cp1 = (case spec1 of None \<Rightarrow> cp | Some sp \<Rightarrow> cp\<lparr>cp_spec := sp\<rparr>)
          in case res of
            Inl err \<Rightarrow>
              (case run_call (cr_patch_status crc cp1 (ApplyErrorStatus now (Some err) cp1)) s1 of
                 (Inl patchErr, s2) \<Rightarrow>
                   if is_conflict patchErr then ((\<lparr>Requeue = True, RequeueAfter = 0\<rparr>, Some err), s2)
                   else ((no_requeue, Some err), s2)
               | (Inr _, s2) \<Rightarrow> ((no_requeue, Some err), s2))
          | Inr result \<Rightarrow>
              (case run_call (cr_patch_status crc cp1 (ApplyRolloutStatus now result cp1)) s1 of
                 (Inl err, s2) \<Rightarrow>
                   if is_conflict err then ((\<lparr>Requeue = True, RequeueAfter = 0\<rparr>, None), s2)
                   else ((no_requeue, Some (Wrapped ''update status'' err)), s2)
               | (Inr cp2, s2) \<Rightarrow>
                   if requeue_after (cp_spec cp2) > 0 then
                     ((\<lparr>Requeue = False, RequeueAfter = requeue_after (cp_spec cp2)\<rparr>, None), s2)
                   else ((no_requeue, None), s2)))"

definition ReconcileRequest :: "(string \<Rightarrow> string) \<Rightarrow> string \<Rightarrow> int \<Rightarrow> finalizer_lib \<Rightarrow> 'w kube_client \<Rightarrow>
    'w cr_client \<Rightarrow> namespaced_name \<Rightarrow> 'w reconciler \<Rightarrow> (ctrl_result \<times> go_error option) \<times> 'w reconciler" where
  "ReconcileRequest env now elapsed flib client crc request s =
     (case run_call (cr_get crc request) s of
        (Inl err, s1) \<Rightarrow> if is_not_found err then ((no_requeue, None), s1) else ((no_requeue, Some err), s1)
      | (Inr cp, s1) \<Rightarrow>
          if cp_deletion_timestamp cp = None then
            (if \<not> ContainsFinalizer flib (cp_finalizers cp) Finalizer then
               (case run_call (cr_update crc (cp\<lparr>cp_finalizers := AddFinalizer flib (cp_finalizers cp) Finalizer\<rparr>)) s1 of
                  (Inl err, s2) \<Rightarrow> ((no_requeue, Some err), s2)
                | (Inr cp1, s2) \<Rightarrow> run_reconcile env now elapsed client crc request cp1 s2)
             else run_reconcile env now elapsed client crc request cp s1)
          else if ContainsFinalizer flib (cp_finalizers cp) Finalizer then
            (case Finalize env client \<lparr>key_namespace = cp_namespace cp, key_name = cp_name cp\<rparr>
                (Some (cp_spec cp)) s1 of
               ((Some err, spec1), s2) \<Rightarrow> ((no_requeue, Some err), s2)
             | ((None, spec1), s2) \<Rightarrow>
                 let cp1 = (case spec1 of None \<Rightarrow> cp | Some sp \<Rightarrow> cp\<lparr>cp_spec := sp\<rparr>)
                 in case run_call (cr_update crc
                     (cp1\<lparr>cp_finalizers := RemoveFinalizer flib (cp_finalizers cp1) Finalizer\<rparr>)) s2 of
                   (Inl err, s3) \<Rightarrow> ((no_requeue, Some err), s3)
                 | (Inr _, s3) \<Rightarrow> ((no_requeue, None), s3))
          else ((no_requeue, None), s1))"

end
