(* ===== verification/Lifecycle.thy ===== *)
theory Lifecycle
  imports Runtime_Controller
begin

text \<open>
  The life of the resources and their copies as a state machine. The states are those reachable
  by requests to the runtime controller, failing or not, interleaved with users who create, edit
  and delete resources; the invariant is that no copy is ever orphaned: as long as a ConfigMap
  carries a source's marks, some resource for that source exists and holds the finalizer. The
  contract of the whole system, the locale \<open>system_contract\<close>, joins those of the KubeClient and of
  the finalizer helpers and adds the API server's for the resources.
\<close>

section \<open>Calls that stay within a relation\<close>

definition client_within :: "'w kube_client \<Rightarrow> ('w \<Rightarrow> 'w \<Rightarrow> bool) \<Rightarrow> bool" where
  "client_within client R \<longleftrightarrow>
     (\<forall>a b w r w'. GetSourceConfigMap client a b w = (r, w') \<longrightarrow> R w w') \<and>
     (\<forall>a b w r w'. ListNamespacesBySelector client a b w = (r, w') \<longrightarrow> R w w') \<and>
     (\<forall>a b c d e w r w'. UpsertConfigMap client a b c d e w = (r, w') \<longrightarrow> R w w') \<and>
     (\<forall>a b w r w'. GetTargetConfigMap client a b w = (r, w') \<longrightarrow> R w w') \<and>
     (\<forall>a b w r w'. ListManagedTargetNamespaces client a b w = (r, w') \<longrightarrow> R w w') \<and>
     (\<forall>a b w r w'. DeleteConfigMap client a b w = (r, w') \<longrightarrow> R w w') \<and>
     (\<forall>a b c d w r w'. UpdateConfigMapMetadata client a b c d w = (r, w') \<longrightarrow> R w w')"

locale confined_client =
  fixes client :: "'w kube_client" and R :: "'w \<Rightarrow> 'w \<Rightarrow> bool"
  assumes within: "client_within client R"
    and R_refl: "R w w"
    and R_trans: "R u v \<Longrightarrow> R v w \<Longrightarrow> R u w"
begin

lemma calls:
  "GetSourceConfigMap client a b w = (rs, w') \<Longrightarrow> R w w'"
  "ListNamespacesBySelector client ml reqs w = (rl, w') \<Longrightarrow> R w w'"
  "UpsertConfigMap client a b d l an w = (ru, w') \<Longrightarrow> R w w'"
  "GetTargetConfigMap client a b w = (rt, w') \<Longrightarrow> R w w'"
  "ListManagedTargetNamespaces client a b w = (rm, w') \<Longrightarrow> R w w'"
  "DeleteConfigMap client a b w = (rd, w') \<Longrightarrow> R w w'"
  "UpdateConfigMapMetadata client a b l an w = (rx, w') \<Longrightarrow> R w w'"
proof -
  note w = within [unfolded client_within_def]
  show "GetSourceConfigMap client a b w = (rs, w') \<Longrightarrow> R w w'" using w by meson
  show "ListNamespacesBySelector client ml reqs w = (rl, w') \<Longrightarrow> R w w'" using w by meson
  show "UpsertConfigMap client a b d l an w = (ru, w') \<Longrightarrow> R w w'" using w by meson
  show "GetTargetConfigMap client a b w = (rt, w') \<Longrightarrow> R w w'" using w by meson
  show "ListManagedTargetNamespaces client a b w = (rm, w') \<Longrightarrow> R w w'" using w by meson
  show "DeleteConfigMap client a b w = (rd, w') \<Longrightarrow> R w w'" using w by meson
  show "UpdateConfigMapMetadata client a b l an w = (rx, w') \<Longrightarrow> R w w'" using w by meson
qed

lemma sync_target_within:
  "sync_target client key name eff h source policy ns out s = ((out', e), s') \<Longrightarrow> R (rc_world s) (rc_world s')"
  by (cases rule: sync_targetE [of client key name eff h source policy ns out s out' e s'])
    (auto dest: calls intro: R_trans)

lemma sync_loop_within:
  "sync_loop client key name eff h source policy nss out s = (oe, s') \<Longrightarrow> R (rc_world s) (rc_world s')"
proof (induction nss arbitrary: out s)
  case (Cons ns nss)
  obtain o1 e1 s1 where t: "sync_target client key name eff h source policy ns out s = ((o1, e1), s1)"
    by (metis surj_pair)
  note r = sync_target_within [OF t]
  show ?case
  proof (cases e1)
    case None
    with Cons.prems t have "sync_loop client key name eff h source policy nss o1 s1 = (oe, s')" by simp
    from R_trans [OF r Cons.IH [OF this]] show ?thesis .
  next
    case (Some x)
    with Cons.prems t r show ?thesis by simp
  qed
qed (simp add: R_refl)

lemma cleanup_target_within:
  "cleanup_target client key name prune ns s = (e, s') \<Longrightarrow> R (rc_world s) (rc_world s')"
  by (cases rule: cleanup_targetE [of client key name prune ns s e s'])
    (auto dest: calls intro: R_trans)

lemma cleanup_loop_within:
  "cleanup_loop client key name prune sel nss s = (e, s') \<Longrightarrow> R (rc_world s) (rc_world s')"
proof (induction nss arbitrary: s)
  case (Cons ns nss)
  obtain e1 s1 where t: "cleanup_target client key name prune ns s = (e1, s1)" by fastforce
  note r = cleanup_target_within [OF t]
  show ?case
  proof (cases "ns \<in> sel")
    case True
    with Cons show ?thesis by simp
  next
    case False
    show ?thesis
    proof (cases e1)
      case None
      with Cons.prems t False have "cleanup_loop client key name prune sel nss s1 = (e, s')" by simp
      from R_trans [OF r Cons.IH [OF this]] show ?thesis .
    next
      case (Some x)
      with Cons.prems t r False show ?thesis by simp
    qed
  qed
qed (simp add: R_refl)

lemma cleanup_deselected_within:
  assumes "cleanup_deselected client key spec sel s = (e, s')"
  shows "R (rc_world s) (rc_world s')"
proof -
  obtain r s1 where l: "run_call (ListManagedTargetNamespaces client
      (source_id (ref_namespace (sp_source_ref spec)) (ref_name (sp_source_ref spec)))
      (ref_name (sp_source_ref spec))) s = (r, s1)" by fastforce
  note r1 = calls(5) [OF run_callD(1) [OF l]]
  show ?thesis
  proof (cases r)
    case (Inl err)
    with assms l r1 show ?thesis by (auto simp: cleanup_deselected_def Let_def record_error_logged)
  next
    case (Inr nss)
    with assms l have "cleanup_loop client key (ref_name (sp_source_ref spec))
        (case sp_prune spec of None \<Rightarrow> True | Some b \<Rightarrow> b) (set sel) nss s1 = (e, s')"
      by (simp add: cleanup_deselected_def Let_def)
    from R_trans [OF r1 cleanup_loop_within [OF this]] show ?thesis .
  qed
qed

lemma reconcile_impl_within:
  assumes "reconcile_impl client key spec s = (res, s')"
  shows "R (rc_world s) (rc_world s')"
proof -
  let ?ns = "ref_namespace (sp_source_ref spec)" and ?n = "ref_name (sp_source_ref spec)"
  obtain rs s1 where src: "run_call (GetSourceConfigMap client ?ns ?n) s = (rs, s1)" by fastforce
  note r1 = calls(1) [OF run_callD(1) [OF src]]
  show ?thesis
  proof (cases "\<exists>d selector. rs = Inr d \<and> sp_namespace_selector spec = Some selector")
    case False
    with assms src r1 show ?thesis
      by (auto simp: reconcile_impl_def Let_def record_error_logged split: sum.splits option.splits)
  next
    case True
    then obtain d selector where rs: "rs = Inr d" and sel: "sp_namespace_selector spec = Some selector" by blast
    obtain rl s2 where lst: "list_targets client selector s1 = (rl, s2)" by fastforce
    note r2 = R_trans [OF r1 calls(2) [OF run_callD(1) [OF lst [unfolded list_targets_def]]]]
    show ?thesis
    proof (cases "\<exists>listed st. rl = Inr listed \<and> sp_strategy spec = Some st")
      case False
      with assms src rs sel lst r2 show ?thesis
        by (auto simp: reconcile_impl_def Let_def record_error_logged split: sum.splits option.splits)
    next
      case True
      then obtain listed st where rl: "rl = Inr listed" and st: "sp_strategy spec = Some st" by blast
      let ?eff = "compute_effective d (sp_data_keys spec)"
      obtain planned n s3 where pl: "plan_targets key (HashData ?eff) (sort listed) (us_type st)
          (case us_batch_size st of None \<Rightarrow> 5 | Some b \<Rightarrow> b) s2 = ((planned, n), s3)" by (metis surj_pair)
      obtain summary oe s4 where sy: "sync_targets client key planned ?n ?eff (HashData ?eff) ?ns
          (sp_conflict_policy spec) s3 = ((summary, oe), s4)" by (metis surj_pair)
      have r4: "R (rc_world s) (rc_world s4)"
        using R_trans [OF r2] sync_loop_within [OF sy [unfolded sync_targets_def]]
          plan_targets_planned(3) [OF pl] by simp
      obtain acc s5 where ac: "account_targets key (us_type st) (HashData ?eff) (sort listed) summary s4 = (acc, s5)"
        by fastforce
      obtain e s6 where cl: "cleanup_deselected client key spec (sort listed) s5 = (e, s6)" by fastforce
      have r6: "R (rc_world s) (rc_world s6)"
        using R_trans [OF r4] cleanup_deselected_within [OF cl] account_targets_world [OF ac] by simp
      have "s' = s4 \<or> s' = s6"
        using assms by (auto simp: reconcile_impl_def Let_def src rs sel lst rl st pl sy ac cl
            split: option.splits prod.splits)
      with r4 r6 show ?thesis by blast
    qed
  qed
qed

lemma Reconcile_within:
  "Reconcile env client elapsed key (Some spec) s = ((res, sp'), s') \<Longrightarrow> R (rc_world s) (rc_world s')"
  by (cases rule: ReconcileE [of env client elapsed key spec s res sp' s'])
    (auto dest: reconcile_impl_within simp: R_refl)

lemma Finalize_within:
  "Finalize env client key (Some spec) s = ((e, sp'), s') \<Longrightarrow> R (rc_world s) (rc_world s')"
  by (auto simp: Finalize_def Let_def R_refl dest: cleanup_deselected_within split: option.splits prod.splits)

end

section \<open>Where marks come from\<close>

context kube_contract
begin

text \<open>A copy managed for some source after a run was so before, or is of the run's own source.\<close>

lemma impl_provenance:
  assumes "reconcile_impl client key spec s = (res, s')"
    "cmaps s' (ns, n) = Some cm" "managed_copy src cm"
  shows "(\<exists>old. cmaps s (ns, n) = Some old \<and> managed_copy src old) \<or>
    src = source_of spec \<and> n = ref_name (sp_source_ref spec)"
proof -
  let ?ok = "\<lambda>c. \<forall>cm. c (ns, n) = Some cm \<and> managed_copy src cm \<longrightarrow>
    (\<exists>old. cmaps s (ns, n) = Some old \<and> managed_copy src old) \<or> src = source_of spec \<and> n = ref_name (sp_source_ref spec)"
  have fresh: "src = source_of spec" if "fresh_copy (source_of spec) eff h cm" "managed_copy src cm" for eff h cm
    using that by (simp add: fresh_copy_def written_as_def managed_copy_def managed_annotations_def go_get_def)
  have detached: "\<not> managed_copy src new" if "detached_from old new" for old new
    using that by (simp add: detached_from_def managed_copy_def go_get_def)
  have "?ok (cmaps s')"
    by (rule impl_invariant [OF assms(1), where P = ?ok]) (use fresh detached in auto)
  then show ?thesis using assms(2,3) by blast
qed

lemma cleanup_provenance:
  assumes "cleanup_deselected client key spec sel s = (e, s')"
    "cmaps s' (ns, n) = Some cm" "managed_copy src cm"
  shows "\<exists>old. cmaps s (ns, n) = Some old \<and> managed_copy src old"
proof -
  let ?ok = "\<lambda>c. \<forall>cm. c (ns, n) = Some cm \<and> managed_copy src cm \<longrightarrow>
    (\<exists>old. cmaps s (ns, n) = Some old \<and> managed_copy src old)"
  have detached: "\<not> managed_copy src new" if "detached_from old new" for old new
    using that by (simp add: detached_from_def managed_copy_def go_get_def)
  have "?ok (cmaps s')"
    by (rule cleanup_deselected_invariant [OF assms(1), where P = ?ok]) (use detached in auto)
  then show ?thesis using assms(2,3) by blast
qed

end

section \<open>The system\<close>

definition cp_id :: "config_propagation \<Rightarrow> namespaced_name" where
  "cp_id cp = \<lparr>nn_namespace = cp_namespace cp, nn_name = cp_name cp\<rparr>"

text \<open>What an update must keep of the object it is given; the server may fill in defaults.\<close>

definition same_ownership :: "config_propagation \<Rightarrow> config_propagation \<Rightarrow> bool" where
  "same_ownership cp cp' \<longleftrightarrow> sp_source_ref (cp_spec cp') = sp_source_ref (cp_spec cp) \<and>
     set (cp_finalizers cp') = set (cp_finalizers cp)"

text \<open>
  The contract of the whole: KubeClient, finalizer helpers, and an API server on which the
  KubeClient's calls leave the resources alone and the other way round, a read returns what is
  stored, an update stores the object or, once it is marked as deleted and holds no finalizer,
  removes it, and a status patch changes nothing but the status. A failed update or patch may
  have taken effect.
\<close>

locale system_contract = kube_contract client cluster + finalizer_contract flib
  for client :: "'w kube_client" and cluster :: "'w \<Rightarrow> string \<times> string \<rightharpoonup> config_map" and flib :: finalizer_lib +
  fixes crc :: "'w cr_client" and crs :: "'w \<Rightarrow> namespaced_name \<rightharpoonup> config_propagation"
  assumes client_keeps_crs: "client_within client (\<lambda>w w'. crs w' = crs w)"
    and cr_get: "cr_get crc i w = (rg, w') \<Longrightarrow> cluster w' = cluster w \<and> crs w' = crs w \<and>
      (\<forall>cp. rg = Inr cp \<longrightarrow> crs w i = Some cp \<and> cp_id cp = i)"
    and cr_update: "cr_update crc cp w = (ru, w') \<Longrightarrow> cluster w' = cluster w \<and>
      ((\<exists>e. ru = Inl e) \<and> crs w' = crs w \<or>
       cp_finalizers cp = [] \<and> cp_deletion_timestamp cp \<noteq> None \<and> crs w' = (crs w)(cp_id cp := None) \<or>
       (\<exists>cp'. same_ownership cp cp' \<and> crs w' = (crs w)(cp_id cp \<mapsto> cp') \<and> (\<forall>x. ru = Inr x \<longrightarrow> x = cp')))"
    and cr_patch: "cr_patch_status crc base changed w = (rp, w') \<Longrightarrow> cluster w' = cluster w \<and>
      (crs w' = crs w \<or> (\<exists>old new. crs w (cp_id base) = Some old \<and> same_ownership old new \<and>
         crs w' = (crs w)(cp_id base \<mapsto> new)))"

sublocale system_contract \<subseteq> confined_client client "\<lambda>w w'. crs w' = crs w"
  by unfold_locales (simp_all add: client_keeps_crs)

text \<open>
  Reachable states. A request is any request, whatever its calls return; users may create
  resources, edit their specs but not the source reference, and delete them; the controller
  may be restarted, which empties its queue and its planner.
\<close>

inductive lifecycle :: "(string \<Rightarrow> string) \<Rightarrow> finalizer_lib \<Rightarrow> 'w kube_client \<Rightarrow> 'w cr_client \<Rightarrow>
    ('w \<Rightarrow> string \<times> string \<rightharpoonup> config_map) \<Rightarrow> ('w \<Rightarrow> namespaced_name \<rightharpoonup> config_propagation) \<Rightarrow> 'w reconciler \<Rightarrow> bool"
  for env flib client crc cluster crs where
  Start: "(\<And>k cm src. cluster (rc_world s) k = Some cm \<Longrightarrow> \<not> managed_copy src cm) \<Longrightarrow>
    lifecycle env flib client crc cluster crs s"
| Request: "lifecycle env flib client crc cluster crs s \<Longrightarrow>
    ReconcileRequest env now elapsed flib client crc request s = (outcome, s') \<Longrightarrow>
    lifecycle env flib client crc cluster crs s'"
| Create: "lifecycle env flib client crc cluster crs s \<Longrightarrow> crs (rc_world s) (cp_id cp) = None \<Longrightarrow>
    crs w' = (crs (rc_world s))(cp_id cp \<mapsto> cp) \<Longrightarrow> cluster w' = cluster (rc_world s) \<Longrightarrow>
    lifecycle env flib client crc cluster crs (s\<lparr>rc_world := w'\<rparr>)"
| Edit: "lifecycle env flib client crc cluster crs s \<Longrightarrow> crs (rc_world s) i = Some cp \<Longrightarrow>
    sp_source_ref spec = sp_source_ref (cp_spec cp) \<Longrightarrow>
    crs w' = (crs (rc_world s))(i \<mapsto> cp\<lparr>cp_spec := spec\<rparr>) \<Longrightarrow> cluster w' = cluster (rc_world s) \<Longrightarrow>
    lifecycle env flib client crc cluster crs (s\<lparr>rc_world := w'\<rparr>)"
| Delete: "lifecycle env flib client crc cluster crs s \<Longrightarrow> crs (rc_world s) i = Some cp \<Longrightarrow>
    crs w' = (crs (rc_world s))(i := if cp_finalizers cp = [] then None
      else Some (cp\<lparr>cp_deletion_timestamp := Some t\<rparr>)) \<Longrightarrow> cluster w' = cluster (rc_world s) \<Longrightarrow>
    lifecycle env flib client crc cluster crs (s\<lparr>rc_world := w'\<rparr>)"
| Restart: "lifecycle env flib client crc cluster crs s \<Longrightarrow>
    lifecycle env flib client crc cluster crs (s\<lparr>rc_queue := NewWorkQueue, rc_planner := NewRolloutPlanner\<rparr>)"

section \<open>No copy is orphaned\<close>

text \<open>A resource that owns the copies of a source under a name, and the invariant.\<close>

definition owns :: "string \<Rightarrow> string \<Rightarrow> config_propagation \<Rightarrow> bool" where
  "owns src n cp \<longleftrightarrow> Finalizer \<in> set (cp_finalizers cp) \<and> source_of (cp_spec cp) = src \<and>
     ref_name (sp_source_ref (cp_spec cp)) = n"

definition all_owned :: "(string \<times> string \<rightharpoonup> config_map) \<Rightarrow> (namespaced_name \<rightharpoonup> config_propagation) \<Rightarrow> bool" where
  "all_owned c rs \<longleftrightarrow> (\<forall>ns n cm src. c (ns, n) = Some cm \<and> managed_copy src cm \<longrightarrow>
     (\<exists>i cp. rs i = Some cp \<and> owns src n cp))"

lemma owns_cong: "same_ownership cp cp' \<Longrightarrow> owns src n cp' = owns src n cp"
  by (simp add: owns_def same_ownership_def source_of_def)

lemma owns_finalizers: "owns src n cp \<Longrightarrow> cp_finalizers cp \<noteq> []"
  by (auto simp: owns_def)

lemma all_owned_keep:
  assumes "all_owned c rs" "\<And>i cp src n. rs i = Some cp \<Longrightarrow> owns src n cp \<Longrightarrow> \<exists>cp'. rs' i = Some cp' \<and> owns src n cp'"
  shows "all_owned c rs'"
  using assms unfolding all_owned_def by blast

lemma all_owned_upd:
  assumes "all_owned c rs" "\<And>cp src n. rs i = Some cp \<Longrightarrow> owns src n cp \<Longrightarrow> owns src n new"
  shows "all_owned c (rs(i \<mapsto> new))"
  by (rule all_owned_keep [OF assms(1)]) (use assms(2) in \<open>auto split: if_splits\<close>)

context system_contract
begin

lemma Reconcile_owned:
  assumes "Reconcile env client elapsed key (Some (cp_spec cp)) s = ((res, sp'), s')"
    and owned: "all_owned (cmaps s) (crs (rc_world s))"
    and owner: "crs (rc_world s) i = Some cp0" "owns (source_of (cp_spec cp)) (ref_name (sp_source_ref (cp_spec cp))) cp0"
  shows "all_owned (cmaps s') (crs (rc_world s'))"
proof -
  have crs': "crs (rc_world s') = crs (rc_world s)" using Reconcile_within [OF assms(1)] .
  have prov: "all_owned (cmaps s1) (crs (rc_world s))"
    if "reconcile_impl client key (DefaultSpec env (cp_spec cp)) s = (x, s1)" for x s1
    unfolding all_owned_def
  proof (intro allI impI)
    fix ns n cm src assume "cmaps s1 (ns, n) = Some cm \<and> managed_copy src cm"
    with impl_provenance [OF that, of ns n cm src] owned owner
    show "\<exists>i cp. crs (rc_world s) i = Some cp \<and> owns src n cp" unfolding all_owned_def by auto
  qed
  show ?thesis unfolding crs'
    using assms(1) by (cases rule: ReconcileE) (use owned prov in auto)
qed

lemma run_reconcile_owned:
  assumes "run_reconcile env now elapsed client crc i cp s = (out, s')"
    and "all_owned (cmaps s) (crs (rc_world s))" "crs (rc_world s) i = Some cp0"
    and "owns (source_of (cp_spec cp)) (ref_name (sp_source_ref (cp_spec cp))) cp0"
  shows "all_owned (cmaps s') (crs (rc_world s'))"
proof -
  obtain res sp1 s1 where rec: "Reconcile env client elapsed \<lparr>key_namespace = nn_namespace i, key_name = nn_name i\<rparr>
      (Some (cp_spec cp)) s = ((res, sp1), s1)" by (metis surj_pair)
  note o1 = Reconcile_owned [OF rec assms(2-4)]
  have patch: "all_owned (cmaps s2) (crs (rc_world s2))"
    if "run_call (cr_patch_status crc base changed) s1 = (r, s2)" for base changed r s2
    using cr_patch [OF run_callD(1) [OF that]] o1 owns_cong by (auto intro!: all_owned_upd)
  let ?cp1 = "case sp1 of None \<Rightarrow> cp | Some sp \<Rightarrow> cp\<lparr>cp_spec := sp\<rparr>"
  obtain r s2 where p: "run_call (cr_patch_status crc ?cp1 (case res of Inl err \<Rightarrow> ApplyErrorStatus now (Some err) ?cp1
      | Inr result \<Rightarrow> ApplyRolloutStatus now result ?cp1)) s1 = (r, s2)" by fastforce
  have "s' = s2"
    using assms(1) p by (cases res; cases r) (auto simp: run_reconcile_def rec Let_def split: if_splits)
  with patch [OF p] show ?thesis by simp
qed

text \<open>The status patch does not touch the copies.\<close>

lemma run_reconcile_cmaps:
  assumes "run_reconcile env now elapsed client crc i cp s = (out, s')"
    "Reconcile env client elapsed \<lparr>key_namespace = nn_namespace i, key_name = nn_name i\<rparr> (Some (cp_spec cp)) s
       = ((res, sp1), s1)"
  shows "cmaps s' = cmaps s1"
proof -
  let ?cp1 = "case sp1 of None \<Rightarrow> cp | Some sp \<Rightarrow> cp\<lparr>cp_spec := sp\<rparr>"
  obtain r s2 where p: "run_call (cr_patch_status crc ?cp1 (case res of Inl err \<Rightarrow> ApplyErrorStatus now (Some err) ?cp1
      | Inr result \<Rightarrow> ApplyRolloutStatus now result ?cp1)) s1 = (r, s2)" by fastforce
  have "s' = s2"
    using assms p by (cases res; cases r) (auto simp: run_reconcile_def Let_def split: if_splits)
  with cr_patch [OF run_callD(1) [OF p]] show ?thesis by simp
qed

text \<open>A finalized source has no copies left, so its resource may go.\<close>

lemma Finalize_owned:
  assumes "Finalize env client key (Some (cp_spec cp)) s = ((e, sp'), s')"
    and owned: "all_owned (cmaps s) (crs (rc_world s))"
  shows "all_owned (cmaps s') (crs (rc_world s'))" "crs (rc_world s') = crs (rc_world s)"
    "e = None \<Longrightarrow> managed_copy (source_of (cp_spec cp)) cm \<Longrightarrow>
       cmaps s' (ns, ref_name (sp_source_ref (cp_spec cp))) \<noteq> Some cm"
proof -
  show crs': "crs (rc_world s') = crs (rc_world s)" using Finalize_within [OF assms(1)] .
  have cases: "s' = s \<and> e \<noteq> None \<or> cleanup_deselected client key (DefaultSpec env (cp_spec cp)) [] s = (e, s')"
  proof (cases "ValidateSpec (Some (DefaultSpec env (cp_spec cp)))")
    case None
    with assms(1) show ?thesis by (simp add: Finalize_def Let_def split: prod.splits)
  next
    case (Some err)
    with assms(1) show ?thesis by (simp add: Finalize_def Let_def) blast
  qed
  then show "all_owned (cmaps s') (crs (rc_world s'))"
    unfolding crs' using owned cleanup_provenance unfolding all_owned_def by metis
  show "cmaps s' (ns, ref_name (sp_source_ref (cp_spec cp))) \<noteq> Some cm"
    if "e = None" "managed_copy (source_of (cp_spec cp)) cm"
    using cases that cleanup_deselected_complete [of key "DefaultSpec env (cp_spec cp)" "[]" s s' ns cm] by auto
qed

lemma request_releases:
  assumes req: "run_call (cr_get crc i) s0 = (Inr cp, s)" "ReconcileRequest env now elapsed flib client crc i s0 = (out, s')"
    and branch: "cp_deletion_timestamp cp \<noteq> None" "Finalizer \<in> set (cp_finalizers cp)"
    and owned: "all_owned (cmaps s) (crs (rc_world s))"
  shows "crs (rc_world s') = crs (rc_world s) \<or>
    (\<forall>ns cm. managed_copy (source_of (cp_spec cp)) cm \<longrightarrow>
       cmaps s' (ns, ref_name (sp_source_ref (cp_spec cp))) \<noteq> Some cm)"
proof -
  obtain e sp1 s2 where fin: "Finalize env client \<lparr>key_namespace = cp_namespace cp, key_name = cp_name cp\<rparr>
      (Some (cp_spec cp)) s = ((e, sp1), s2)" by (metis surj_pair)
  note f = Finalize_owned [OF fin owned]
  show ?thesis
  proof (cases e)
    case (Some err)
    with req branch contains_finalizer fin f(2) show ?thesis by (auto simp: ReconcileRequest_def)
  next
    case None
    let ?cp1 = "case sp1 of None \<Rightarrow> cp | Some sp \<Rightarrow> cp\<lparr>cp_spec := sp\<rparr>"
    obtain ru s3 where upd: "run_call (cr_update crc
        (?cp1\<lparr>cp_finalizers := RemoveFinalizer flib (cp_finalizers ?cp1) Finalizer\<rparr>)) s2 = (ru, s3)" by fastforce
    have "s' = s3"
      using req branch contains_finalizer fin None upd by (cases ru) (auto simp: ReconcileRequest_def Let_def)
    with cr_update [OF run_callD(1) [OF upd]] f(3) [OF None] show ?thesis by auto
  qed
qed

lemma remove_finalizer_owned:
  assumes owned: "all_owned (cmaps s) (crs (rc_world s))"
    and gone: "\<And>ns cm. managed_copy (source_of (cp_spec cp)) cm \<Longrightarrow>
      cmaps s (ns, ref_name (sp_source_ref (cp_spec cp))) \<noteq> Some cm"
    and stored: "crs (rc_world s) (cp_id cp) = Some cp0" "sp_source_ref (cp_spec cp0) = sp_source_ref (cp_spec cp)"
    and upd: "cluster w' = cmaps s" "crs w' = crs (rc_world s) \<or> (\<exists>x. crs w' = (crs (rc_world s))(cp_id cp := x))"
  shows "all_owned (cluster w') (crs w')"
  unfolding all_owned_def
proof (intro allI impI)
  fix ns n cm src assume a: "cluster w' (ns, n) = Some cm \<and> managed_copy src cm"
  with owned upd(1) obtain j cpj where j: "crs (rc_world s) j = Some cpj" "owns src n cpj"
    unfolding all_owned_def by metis
  have "j \<noteq> cp_id cp"
  proof
    assume "j = cp_id cp"
    with j stored have "source_of (cp_spec cp) = src" "ref_name (sp_source_ref (cp_spec cp)) = n"
      by (auto simp: owns_def source_of_def)
    with gone a upd(1) show False by auto
  qed
  with j upd(2) show "\<exists>i cp. crs w' i = Some cp \<and> owns src n cp" by (intro exI [of _ j] exI [of _ cpj]) auto
qed

text \<open>The three ways in which a request goes on once it has read the resource.\<close>

lemma request_add_owned:
  assumes req: "run_call (cr_get crc i) s0 = (Inr cp, s)" "ReconcileRequest env now elapsed flib client crc i s0 = (out, s')"
    and branch: "cp_deletion_timestamp cp = None" "Finalizer \<notin> set (cp_finalizers cp)"
    and cp: "crs (rc_world s) i = Some cp" "cp_id cp = i"
    and owned: "all_owned (cmaps s) (crs (rc_world s))"
  shows "all_owned (cmaps s') (crs (rc_world s'))"
proof -
  let ?new = "cp\<lparr>cp_finalizers := AddFinalizer flib (cp_finalizers cp) Finalizer\<rparr>"
  obtain ru s2 where upd: "run_call (cr_update crc ?new) s = (ru, s2)" by fastforce
  note u = cr_update [OF run_callD(1) [OF upd]]
  have id: "cp_id ?new = i" using cp(2) by (simp add: cp_id_def)
  have fin: "Finalizer \<in> set (cp_finalizers ?new)" by (simp add: add_finalizer)
  have stored: "crs (rc_world s2) = crs (rc_world s) \<and> (\<exists>e. ru = Inl e) \<or>
      (\<exists>cp'. same_ownership ?new cp' \<and> crs (rc_world s2) = (crs (rc_world s))(i \<mapsto> cp') \<and> (\<forall>x. ru = Inr x \<longrightarrow> x = cp'))"
    using u fin unfolding id by auto
  have no_owner: "\<not> owns src n cp" for src n using branch by (simp add: owns_def)
  have o2: "all_owned (cmaps s2) (crs (rc_world s2))"
    using stored u owned cp(1) no_owner by (auto intro!: all_owned_upd)
  show ?thesis
  proof (cases ru)
    case (Inl e)
    with req branch upd contains_finalizer o2 show ?thesis by (auto simp: ReconcileRequest_def)
  next
    case (Inr cp1)
    then have "crs (rc_world s2) i = Some cp1" "same_ownership ?new cp1" using stored by auto
    then have "owns (source_of (cp_spec cp1)) (ref_name (sp_source_ref (cp_spec cp1))) cp1"
      using fin by (simp add: owns_def same_ownership_def)
    moreover have "run_reconcile env now elapsed client crc i cp1 s2 = (out, s')"
      using req branch upd contains_finalizer Inr by (simp add: ReconcileRequest_def)
    ultimately show ?thesis
      using run_reconcile_owned o2 \<open>crs (rc_world s2) i = Some cp1\<close> by blast
  qed
qed

lemma request_finalize_owned:
  assumes req: "run_call (cr_get crc i) s0 = (Inr cp, s)" "ReconcileRequest env now elapsed flib client crc i s0 = (out, s')"
    and branch: "cp_deletion_timestamp cp \<noteq> None" "Finalizer \<in> set (cp_finalizers cp)"
    and cp: "crs (rc_world s) i = Some cp" "cp_id cp = i"
    and owned: "all_owned (cmaps s) (crs (rc_world s))"
  shows "all_owned (cmaps s') (crs (rc_world s'))"
proof -
  obtain e sp1 s2 where fin: "Finalize env client \<lparr>key_namespace = cp_namespace cp, key_name = cp_name cp\<rparr>
      (Some (cp_spec cp)) s = ((e, sp1), s2)" by (metis surj_pair)
  note f = Finalize_owned [OF fin owned]
  let ?cp1 = "case sp1 of None \<Rightarrow> cp | Some sp \<Rightarrow> cp\<lparr>cp_spec := sp\<rparr>"
  have ref: "sp_source_ref (cp_spec ?cp1) = sp_source_ref (cp_spec cp)"
    using fin by (auto simp: Finalize_def Let_def split: option.splits prod.splits)
  show ?thesis
  proof (cases e)
    case (Some err)
    with req branch contains_finalizer fin f(1) show ?thesis by (auto simp: ReconcileRequest_def)
  next
    case None
    let ?new = "?cp1\<lparr>cp_finalizers := RemoveFinalizer flib (cp_finalizers ?cp1) Finalizer\<rparr>"
    obtain ru s3 where upd: "run_call (cr_update crc ?new) s2 = (ru, s3)" by fastforce
    note u = cr_update [OF run_callD(1) [OF upd]]
    have id: "cp_id ?new = i" using cp(2) by (cases sp1) (simp_all add: cp_id_def)
    have "s' = s3"
      using req branch contains_finalizer fin None upd by (cases ru) (auto simp: ReconcileRequest_def Let_def)
    moreover have "all_owned (cmaps s3) (crs (rc_world s3))"
    proof (rule remove_finalizer_owned [where s = s2 and cp = ?new and cp0 = cp])
      show "crs (rc_world s2) (cp_id ?new) = Some cp" unfolding id f(2) by (rule cp(1))
      show "sp_source_ref (cp_spec cp) = sp_source_ref (cp_spec ?new)" using ref by simp
      show "cmaps s3 = cmaps s2" using u by blast
      show "crs (rc_world s3) = crs (rc_world s2) \<or> (\<exists>x. crs (rc_world s3) = (crs (rc_world s2))(cp_id ?new := x))"
        using u by blast
      show "cmaps s2 (ns, ref_name (sp_source_ref (cp_spec ?new))) \<noteq> Some cm"
        if "managed_copy (source_of (cp_spec ?new)) cm" for ns cm
        using f(3) [OF None, of cm ns] that ref by (simp add: source_of_def)
    qed (rule f(1))
    ultimately show ?thesis by simp
  qed
qed

lemma request_owned:
  assumes req: "ReconcileRequest env now elapsed flib client crc i s = (out, s')"
    and owned: "all_owned (cmaps s) (crs (rc_world s))"
  shows "all_owned (cmaps s') (crs (rc_world s'))"
proof -
  obtain rg s1 where get: "run_call (cr_get crc i) s = (rg, s1)" by fastforce
  note g = cr_get [OF run_callD(1) [OF get]]
  have o1: "all_owned (cmaps s1) (crs (rc_world s1))" using g owned by simp
  show ?thesis
  proof (cases rg)
    case (Inl err)
    with req get o1 show ?thesis by (auto simp: ReconcileRequest_def split: if_splits)
  next
    case (Inr cp)
    then have get': "run_call (cr_get crc i) s = (Inr cp, s1)" and cp: "crs (rc_world s1) i = Some cp" "cp_id cp = i"
      using g get by auto
    consider (add) "cp_deletion_timestamp cp = None" "Finalizer \<notin> set (cp_finalizers cp)"
      | (run) "cp_deletion_timestamp cp = None" "Finalizer \<in> set (cp_finalizers cp)"
      | (finalize) "cp_deletion_timestamp cp \<noteq> None" "Finalizer \<in> set (cp_finalizers cp)"
      | (released) "cp_deletion_timestamp cp \<noteq> None" "Finalizer \<notin> set (cp_finalizers cp)" by blast
    then show ?thesis
    proof cases
      case add
      show ?thesis by (rule request_add_owned [OF get' req add cp o1])
    next
      case run
      then have "run_reconcile env now elapsed client crc i cp s1 = (out, s')"
        using req get' contains_finalizer by (simp add: ReconcileRequest_def)
      then show ?thesis
        by (rule run_reconcile_owned [OF _ o1 cp(1)]) (use run in \<open>simp add: owns_def\<close>)
    next
      case finalize
      show ?thesis by (rule request_finalize_owned [OF get' req finalize cp o1])
    next
      case released
      with req get' contains_finalizer o1 show ?thesis by (simp add: ReconcileRequest_def)
    qed
  qed
qed

lemma lifecycle_owned:
  "lifecycle env flib client crc cluster crs s \<Longrightarrow> all_owned (cmaps s) (crs (rc_world s))"
proof (induction rule: lifecycle.induct)
  case (Start s)
  then show ?case by (auto simp: all_owned_def)
next
  case (Request s now elapsed request outcome s')
  then show ?case using request_owned by blast
next
  case (Create s cp w')
  then have "all_owned (cmaps s) ((crs (rc_world s))(cp_id cp \<mapsto> cp))" by (intro all_owned_upd) auto
  with Create(3,4) show ?case by (simp del: fun_upd_apply)
next
  case (Edit s i cp spec w')
  have "owns src n (cp\<lparr>cp_spec := spec\<rparr>) = owns src n cp" for src n
    using Edit(3) by (simp add: owns_def source_of_def)
  with Edit have "all_owned (cmaps s) ((crs (rc_world s))(i \<mapsto> cp\<lparr>cp_spec := spec\<rparr>))"
    by (intro all_owned_upd) auto
  with Edit(4,5) show ?case by (simp del: fun_upd_apply)
next
  case (Delete s i cp w' t)
  have "\<exists>cp'. crs w' j = Some cp' \<and> owns src n cp'" if "crs (rc_world s) j = Some cpj" "owns src n cpj" for j cpj src n
    using that Delete(2,3) owns_finalizers [OF that(2)] by (cases "j = i") (auto simp: owns_def)
  with Delete(5) have "all_owned (cmaps s) (crs w')" by (rule all_owned_keep)
  with Delete(4) show ?case by simp
next
  case (Restart s)
  then show ?case by simp
qed

end

end
