(* ===== verification/Mem_System.thy ===== *)
theory Mem_System
  imports Lifecycle
begin

text \<open>
  The in-memory cluster with a store of resources beside it: an instance of \<open>system_contract\<close>, on
  which the life cycle can be run.
\<close>

section \<open>A KubeClient beside other state\<close>

definition lift_call :: "('w, 'a) call \<Rightarrow> ('w \<times> 'v, 'a) call" where
  "lift_call f s = (case f (fst s) of (r, w) \<Rightarrow> (r, (w, snd s)))"

definition lift_client :: "'w kube_client \<Rightarrow> ('w \<times> 'v) kube_client" where
  "lift_client client =
     \<lparr>GetSourceConfigMap = (\<lambda>a b. lift_call (GetSourceConfigMap client a b)),
      ListNamespacesBySelector = (\<lambda>a b. lift_call (ListNamespacesBySelector client a b)),
      UpsertConfigMap = (\<lambda>a b c d e. lift_call (UpsertConfigMap client a b c d e)),
      GetTargetConfigMap = (\<lambda>a b. lift_call (GetTargetConfigMap client a b)),
      ListManagedTargetNamespaces = (\<lambda>a b. lift_call (ListManagedTargetNamespaces client a b)),
      DeleteConfigMap = (\<lambda>a b. lift_call (DeleteConfigMap client a b)),
      UpdateConfigMapMetadata = (\<lambda>a b c d. lift_call (UpdateConfigMapMetadata client a b c d))\<rparr>"

lemma lift_callD: "lift_call f s = (r, s') \<Longrightarrow> f (fst s) = (r, fst s') \<and> snd s' = snd s"
  by (auto simp: lift_call_def split: prod.splits)

lemma lift_contract:
  assumes "kube_contract client cluster"
  shows "kube_contract (lift_client client) (\<lambda>s. cluster (fst s))"
  by (rule kube_contract.intro; unfold lift_client_def kube_client.simps; drule lift_callD; elim conjE)
    (erule kube_contract.get_source [OF assms], erule kube_contract.list_namespaces [OF assms],
     erule kube_contract.get_target [OF assms], erule kube_contract.list_managed [OF assms],
     erule kube_contract.upsert [OF assms], erule kube_contract.delete [OF assms],
     erule kube_contract.update_metadata [OF assms])

lemma lift_within: "client_within (lift_client client) (\<lambda>s s'. f (snd s') = f (snd s))"
  unfolding client_within_def lift_client_def kube_client.simps by (auto dest: lift_callD)

section \<open>Resources in memory\<close>

type_synonym mem_system = "mem_world \<times> (namespaced_name \<rightharpoonup> config_propagation)"

definition cp_at :: "namespaced_name \<Rightarrow> config_propagation \<Rightarrow> config_propagation" where
  "cp_at i cp = cp\<lparr>cp_namespace := nn_namespace i, cp_name := nn_name i\<rparr>"

definition stored_crs :: "(namespaced_name \<rightharpoonup> config_propagation) \<Rightarrow> namespaced_name \<rightharpoonup> config_propagation" where
  "stored_crs v i = map_option (cp_at i) (v i)"

definition mem_crs :: "mem_system \<Rightarrow> namespaced_name \<rightharpoonup> config_propagation" where
  "mem_crs s = stored_crs (snd s)"

definition mem_crc :: "mem_system cr_client" where
  "mem_crc =
     \<lparr>cr_get = (\<lambda>i s. case snd s i of None \<Rightarrow> (Inl (not_found (nn_name i)), s) | Some cp \<Rightarrow> (Inr (cp_at i cp), s)),
      cr_update = (\<lambda>cp s.
        if snd s (cp_id cp) = None then (Inl (not_found (cp_name cp)), s)
        else if cp_finalizers cp = [] \<and> cp_deletion_timestamp cp \<noteq> None then
          (Inr cp, (fst s, (snd s)(cp_id cp := None)))
        else (Inr cp, (fst s, (snd s)(cp_id cp \<mapsto> cp)))),
      cr_patch_status = (\<lambda>base changed s.
        case snd s (cp_id base) of
          None \<Rightarrow> (Inl (not_found (cp_name base)), s)
        | Some old \<Rightarrow>
            let new = cp_at (cp_id base) (old\<lparr>cp_status := cp_status changed\<rparr>)
            in (Inr new, (fst s, (snd s)(cp_id base \<mapsto> new))))\<rparr>"

lemma cp_at_simps [simp]:
  "cp_id (cp_at i cp) = i" "cp_at i (cp_at i cp) = cp_at i cp" "cp_at (cp_id cp) cp = cp"
  "cp_spec (cp_at i cp) = cp_spec cp" "cp_finalizers (cp_at i cp) = cp_finalizers cp"
  by (simp_all add: cp_at_def cp_id_def)

lemma stored_crs_upd [simp]: "stored_crs (v(i := x)) = (stored_crs v)(i := map_option (cp_at i) x)"
  by (rule ext) (simp add: stored_crs_def)

interpretation sys: system_contract "lift_client mem_client" "\<lambda>s. mem_store (fst s)" list_finalizers mem_crc mem_crs
proof (intro system_contract.intro system_contract_axioms.intro lift_contract mem_client_contract
    list_fin.finalizer_contract_axioms)
  show "client_within (lift_client mem_client) (\<lambda>w w'. mem_crs w' = mem_crs w)"
    unfolding mem_crs_def by (rule lift_within)
next
  fix i w rg w' assume "cr_get mem_crc i w = (rg, w')"
  then show "mem_store (fst w') = mem_store (fst w) \<and> mem_crs w' = mem_crs w \<and>
      (\<forall>cp. rg = Inr cp \<longrightarrow> mem_crs w i = Some cp \<and> cp_id cp = i)"
    by (auto simp: mem_crc_def mem_crs_def stored_crs_def split: option.splits)
next
  fix cp w ru w' assume "cr_update mem_crc cp w = (ru, w')"
  then show "mem_store (fst w') = mem_store (fst w) \<and>
      ((\<exists>e. ru = Inl e) \<and> mem_crs w' = mem_crs w \<or>
       cp_finalizers cp = [] \<and> cp_deletion_timestamp cp \<noteq> None \<and> mem_crs w' = (mem_crs w)(cp_id cp := None) \<or>
       (\<exists>cp'. same_ownership cp cp' \<and> mem_crs w' = (mem_crs w)(cp_id cp \<mapsto> cp') \<and> (\<forall>x. ru = Inr x \<longrightarrow> x = cp')))"
    by (cases w) (auto simp: mem_crc_def mem_crs_def same_ownership_def split: if_splits)
next
  fix base changed w rp w' assume patch: "cr_patch_status mem_crc base changed w = (rp, w')"
  show "mem_store (fst w') = mem_store (fst w) \<and> (mem_crs w' = mem_crs w \<or>
      (\<exists>old new. mem_crs w (cp_id base) = Some old \<and> same_ownership old new \<and>
         mem_crs w' = (mem_crs w)(cp_id base \<mapsto> new)))"
  proof (cases "snd w (cp_id base)")
    case None
    with patch show ?thesis by (simp add: mem_crc_def)
  next
    case (Some old)
    let ?new = "cp_at (cp_id base) (old\<lparr>cp_status := cp_status changed\<rparr>)"
    have "mem_crs w (cp_id base) = Some (cp_at (cp_id base) old)" by (simp add: mem_crs_def stored_crs_def Some)
    moreover have "same_ownership (cp_at (cp_id base) old) ?new" by (simp add: same_ownership_def)
    moreover have "w' = (fst w, (snd w)(cp_id base \<mapsto> ?new))" using patch Some by (simp add: mem_crc_def Let_def)
    ultimately show ?thesis by (auto simp: mem_crs_def)
  qed
qed

section \<open>The invariant on any system\<close>

text \<open>C1. No copy is ever orphaned. In every state reachable from a cluster without managed copies
  by requests (each call of which may fail), by users who create, delete and edit resources
  without changing their source, and by restarts of the controller, a ConfigMap that carries a
  source's marks belongs to a resource that still exists, has that source and name, and holds
  the finalizer; so once the last resource for a source is gone, no copy is marked for it.\<close>

theorem no_orphaned_copies:
  assumes "system_contract client cluster flib crc crs"
    and "lifecycle env flib client crc cluster crs s"
    and "cluster (rc_world s) (ns, n) = Some cm" and "managed_copy src cm"
  shows "\<exists>i cp. crs (rc_world s) i = Some cp \<and> Finalizer \<in> set (cp_finalizers cp) \<and>
    source_of (cp_spec cp) = src \<and> ref_name (sp_source_ref (cp_spec cp)) = n"
  using system_contract.lifecycle_owned [OF assms(1,2)] assms(3,4)
  unfolding all_owned_def owns_def by blast

text \<open>A life: the resource is created and its first request copies the source.\<close>

definition ex_cp :: config_propagation where
  "ex_cp = (ex_resource (ex_immediate ConflictOverwrite True))\<lparr>cp_finalizers := [Finalizer]\<rparr>"

definition ex_system :: mem_system where
  "ex_system = (\<lparr>mw_objects = fmupd (''src'', ''cfg'') ex_source fmempty,
     mw_namespaces = fmupd ''n1'' None fmempty, mw_faults = []\<rparr>, [ex_cr \<mapsto> ex_cp])"

lemma lift_client_methods:
  "GetSourceConfigMap (lift_client c) a b = lift_call (GetSourceConfigMap c a b)"
  "ListNamespacesBySelector (lift_client c) ml reqs = lift_call (ListNamespacesBySelector c ml reqs)"
  "UpsertConfigMap (lift_client c) a b d l an = lift_call (UpsertConfigMap c a b d l an)"
  "GetTargetConfigMap (lift_client c) a b = lift_call (GetTargetConfigMap c a b)"
  "ListManagedTargetNamespaces (lift_client c) a b = lift_call (ListManagedTargetNamespaces c a b)"
  by (simp_all add: lift_client_def)

lemma ex_first_reconcile:
  "\<exists>r s'. reconcile_impl (lift_client mem_client) ex_key (ex_immediate ConflictOverwrite True)
       (NewReconciler ex_system) = (Inr r, s') \<and>
     fmlookup (mw_objects (fst (rc_world s'))) (''n1'', ''cfg'') = Some (ex_copy ''n1'')"
  by (simp add: reconcile_impl_def run_eval record_eval ex_defs ex_system_def lift_client_methods lift_call_def)

definition ex_deleted :: mem_system where
  "ex_deleted = (fst ex_system, [ex_cr \<mapsto> ex_cp\<lparr>cp_deletion_timestamp := Some ''t''\<rparr>])"

abbreviation mem_life :: "mem_system reconciler \<Rightarrow> bool" where
  "mem_life \<equiv> lifecycle ex_env list_finalizers (lift_client mem_client) mem_crc (\<lambda>s. mem_store (fst s)) mem_crs"

lemma ex_start:
  assumes "fst w = fst ex_system"
  shows "mem_life (NewReconciler w)"
proof (rule lifecycle.Start)
  fix k cm src assume "mem_store (fst (rc_world (NewReconciler w))) k = Some cm"
  then have "go_get (cm_labels cm) ManagedLabel = []"
    using assms by (auto simp: ex_system_def mem_store_def stored_objects_def ex_source_def go_get_def split: if_splits)
  then show "\<not> managed_copy src cm" by (simp add: managed_copy_def)
qed

lemma ex_key_of: "\<lparr>key_namespace = nn_namespace ex_cr, key_name = nn_name ex_cr\<rparr> = ex_key"
  by (simp add: ex_key_def)

lemma ex_first_request:
  "\<exists>s' cm. mem_life s' \<and> mem_store (fst (rc_world s')) (''n1'', ''cfg'') = Some cm \<and> managed_copy ''src/cfg'' cm"
proof -
  obtain r s1 where impl: "reconcile_impl (lift_client mem_client) ex_key (ex_immediate ConflictOverwrite True)
       (NewReconciler ex_system) = (Inr r, s1)"
    and copy: "fmlookup (mw_objects (fst (rc_world s1))) (''n1'', ''cfg'') = Some (ex_copy ''n1'')"
    using ex_first_reconcile by blast
  have get: "run_call (cr_get mem_crc ex_cr) (NewReconciler ex_system) = (Inr ex_cp, NewReconciler ex_system)"
    by (simp add: run_call_def mem_crc_def NewReconciler_def ex_system_def cp_at_def ex_cp_def ex_resource_def)
  obtain out s' where req: "ReconcileRequest ex_env ''now'' 0 list_finalizers (lift_client mem_client) mem_crc ex_cr
      (NewReconciler ex_system) = (out, s')" by (metis surj_pair)
  then have run: "run_reconcile ex_env ''now'' 0 (lift_client mem_client) mem_crc ex_cr ex_cp
      (NewReconciler ex_system) = (out, s')"
    by (simp add: ReconcileRequest_def get list_finalizers_def) (simp add: ex_cp_def ex_resource_def)
  obtain res sp1 s2 where rec: "Reconcile ex_env (lift_client mem_client) 0 ex_key (Some (cp_spec ex_cp))
      (NewReconciler ex_system) = ((res, sp1), s2)" by (metis surj_pair)
  then have "rc_world s2 = rc_world s1"
    by (auto simp: Reconcile_def Let_def ex_cp_def ex_resource_def ex_immediate_complete impl)
  then have "mem_store (fst (rc_world s')) = mem_store (fst (rc_world s1))"
    using sys.run_reconcile_cmaps [OF run] rec unfolding ex_key_of by simp
  then have "mem_store (fst (rc_world s')) (''n1'', ''cfg'') = Some (cm_content (cm_at (''n1'', ''cfg'') (ex_copy ''n1'')))"
    by (simp add: mem_store_def stored_objects_def copy)
  moreover have "managed_copy ''src/cfg'' (cm_content (cm_at (''n1'', ''cfg'') (ex_copy ''n1'')))"
    by (simp add: managed_copy_def ex_copy_def managed_labels_def managed_annotations_def go_get_def)
  ultimately show ?thesis using lifecycle.Request [OF ex_start [OF refl] req] by blast
qed

theorem no_orphaned_copies_witness:
  "\<exists>s cm i cp. mem_life s \<and> mem_store (fst (rc_world s)) (''n1'', ''cfg'') = Some cm \<and> managed_copy ''src/cfg'' cm \<and>
     mem_crs (rc_world s) i = Some cp \<and> Finalizer \<in> set (cp_finalizers cp) \<and> source_of (cp_spec cp) = ''src/cfg''"
proof -
  obtain s cm where s: "mem_life s" "mem_store (fst (rc_world s)) (''n1'', ''cfg'') = Some cm" "managed_copy ''src/cfg'' cm"
    using ex_first_request by blast
  from no_orphaned_copies [OF sys.system_contract_axioms s] s show ?thesis by blast
qed

text \<open>C9. The finalizer is held until the copies are gone. A request for a resource that is marked as
  deleted and holds the finalizer either leaves the resource as it is, or no ConfigMap in any
  namespace is marked for its source under its name when the request ends.\<close>

theorem deletion_waits_for_copies:
  assumes "system_contract client cluster flib crc crs"
    and "lifecycle env flib client crc cluster crs s"
    and "crs (rc_world s) i = Some cp" and "cp_deletion_timestamp cp \<noteq> None" and "Finalizer \<in> set (cp_finalizers cp)"
    and "ReconcileRequest env now elapsed flib client crc i s = (out, s')"
    and "crs (rc_world s') \<noteq> crs (rc_world s)"
    and "cluster (rc_world s') (ns, ref_name (sp_source_ref (cp_spec cp))) = Some cm"
  shows "\<not> managed_copy (source_of (cp_spec cp)) cm"
proof -
  obtain rg s1 where get: "run_call (cr_get crc i) s = (rg, s1)" by fastforce
  note g = system_contract.cr_get [OF assms(1) run_callD(1) [OF get]]
  note owned = system_contract.lifecycle_owned [OF assms(1,2)]
  show ?thesis
  proof (cases rg)
    case (Inl err)
    with assms(6,7) get g show ?thesis by (auto simp: ReconcileRequest_def split: if_splits)
  next
    case (Inr cp1)
    then have "cp1 = cp" using g assms(3) by simp
    with Inr get have get': "run_call (cr_get crc i) s = (Inr cp, s1)" by simp
    have "all_owned (cluster (rc_world s1)) (crs (rc_world s1))" using owned g by simp
    from system_contract.request_releases [OF assms(1) get' assms(6,4,5) this] g assms(7,8)
    show ?thesis by auto
  qed
qed

lemma ex_deletion:
  "\<exists>out s'. ReconcileRequest ex_env ''now'' 0 list_finalizers (lift_client mem_client) mem_crc ex_cr
       (NewReconciler ex_deleted) = (out, s') \<and> fst (rc_world s') = fst ex_system \<and> mem_crs (rc_world s') ex_cr = None"
  by (simp add: ReconcileRequest_def run_eval ex_deleted_def ex_system_def mem_crc_def cp_at_def ex_cp_def ex_resource_def
      list_finalizers_def Finalize_def ex_immediate_complete ex_defs lift_client_methods lift_call_def mem_crs_def
      stored_crs_def cp_id_def)

theorem deletion_waits_for_copies_witness:
  "\<exists>s' cm. mem_store (fst (rc_world s')) (''src'', ''cfg'') = Some cm \<and> \<not> managed_copy ''src/cfg'' cm \<and>
     snd (ReconcileRequest ex_env ''now'' 0 list_finalizers (lift_client mem_client) mem_crc ex_cr
       (NewReconciler ex_deleted)) = s'"
proof -
  obtain out s' where req: "ReconcileRequest ex_env ''now'' 0 list_finalizers (lift_client mem_client) mem_crc ex_cr
       (NewReconciler ex_deleted) = (out, s')"
    and after: "fst (rc_world s') = fst ex_system" "mem_crs (rc_world s') ex_cr = None"
    using ex_deletion by blast
  have cp: "mem_crs (rc_world (NewReconciler ex_deleted)) ex_cr = Some (ex_cp\<lparr>cp_deletion_timestamp := Some ''t''\<rparr>)"
    by (simp add: mem_crs_def stored_crs_def ex_deleted_def cp_at_def ex_cp_def ex_resource_def)
  obtain cm where cm: "mem_store (fst (rc_world s')) (''src'', ''cfg'') = Some cm"
    by (auto simp: after(1) ex_system_def mem_store_def stored_objects_def)
  have "mem_life (NewReconciler ex_deleted)" by (rule ex_start) (simp add: ex_deleted_def)
  from deletion_waits_for_copies [OF sys.system_contract_axioms this cp _ _ req, of "''src''" cm] after(2) cp cm
  have "\<not> managed_copy ''src/cfg'' cm"
    by (simp add: ex_cp_def ex_resource_def source_of_def source_id_def) force
  with cm req show ?thesis by auto
qed

end
