(* ===== verification/Go_Heap.thy ===== *)
theory Go_Heap
  imports Go_Prelude "HOL-Library.Monad_Syntax"
begin

text \<open>
  A store for the Go values that share memory: pointers, maps and slices. An address holds one
  cell; a pointer or a map is an address or nil, a slice is nil or a window of a backing array.
  \<open>fetch\<close> reads a cell at one of the types the store holds; reading at the wrong type or at an
  unused address has no value, which a Go program cannot do. The locale \<open>cell_type\<close> is what a type
  of cells promises; the copies of pointers and slices are proved correct in it once.
\<close>

section \<open>The store\<close>

type_synonym addr = nat

record 'c heap =
  h_cells :: "addr \<Rightarrow> 'c option"
  h_next :: addr

definition alloc :: "'c \<Rightarrow> 'c heap \<Rightarrow> addr \<times> 'c heap" where
  "alloc c h = (h_next h, \<lparr>h_cells = (h_cells h)(h_next h \<mapsto> c), h_next = Suc (h_next h)\<rparr>)"

definition store :: "addr \<Rightarrow> 'c \<Rightarrow> 'c heap \<Rightarrow> 'c heap" where
  "store a c h = h\<lparr>h_cells := (h_cells h)(a \<mapsto> c)\<rparr>"

definition fetch :: "('c \<Rightarrow> 'a option) \<Rightarrow> 'c heap \<Rightarrow> addr \<Rightarrow> 'a option" where
  "fetch prj h a = Option.bind (h_cells h a) prj"

text \<open>A slice: the backing array, the first index and the length. The capacity is not observed.\<close>

record slice =
  sl_array :: addr
  sl_offset :: nat
  sl_len :: nat

definition read_ptr :: "('c \<Rightarrow> 'a option) \<Rightarrow> 'c heap \<Rightarrow> addr option \<Rightarrow> 'a option option" where
  "read_ptr prj h p = (case p of None \<Rightarrow> Some None | Some a \<Rightarrow> map_option Some (fetch prj h a))"

definition read_slice :: "('c \<Rightarrow> 'a list option) \<Rightarrow> 'c heap \<Rightarrow> slice option \<Rightarrow> 'a list option" where
  "read_slice prj h sl = (case sl of None \<Rightarrow> Some []
     | Some s \<Rightarrow> do {
         xs \<leftarrow> fetch prj h (sl_array s);
         if sl_offset s + sl_len s \<le> length xs then Some (take (sl_len s) (drop (sl_offset s) xs)) else None })"

text \<open>\<open>x := *p; q = &x\<close> for a pointer that may be nil, and \<open>append([]T(nil), xs...)\<close>, which is nil if
  there is nothing to append.\<close>

definition copy_ptr :: "('a \<Rightarrow> 'c) \<Rightarrow> ('c \<Rightarrow> 'a option) \<Rightarrow> addr option \<Rightarrow> 'c heap \<Rightarrow> (addr option \<times> 'c heap) option" where
  "copy_ptr mk prj p h = (case p of None \<Rightarrow> Some (None, h)
     | Some a \<Rightarrow> do {
         x \<leftarrow> fetch prj h a;
         let (q, h1) = alloc (mk x) h;
         Some (Some q, h1) })"

definition append_nil :: "('a list \<Rightarrow> 'c) \<Rightarrow> 'a list \<Rightarrow> 'c heap \<Rightarrow> slice option \<times> 'c heap" where
  "append_nil mk xs h =
     (if xs = [] then (None, h)
      else let (a, h1) = alloc (mk xs) h in (Some \<lparr>sl_array = a, sl_offset = 0, sl_len = length xs\<rparr>, h1))"

definition copy_slice :: "('a list \<Rightarrow> 'c) \<Rightarrow> ('c \<Rightarrow> 'a list option) \<Rightarrow> slice option \<Rightarrow> 'c heap \<Rightarrow>
    (slice option \<times> 'c heap) option" where
  "copy_slice mk prj sl h = (case sl of None \<Rightarrow> Some (None, h)
     | Some s \<Rightarrow> map_option (\<lambda>xs. append_nil mk xs h) (read_slice prj h sl))"

section \<open>Growth and writes\<close>

text \<open>Only addresses below \<open>h_next\<close> are in use; an extension keeps the cells in use.\<close>

definition heap_ok :: "'c heap \<Rightarrow> bool" where
  "heap_ok h \<longleftrightarrow> (\<forall>a. h_cells h a \<noteq> None \<longrightarrow> a < h_next h)"

definition extends :: "'c heap \<Rightarrow> 'c heap \<Rightarrow> bool" where
  "extends h h' \<longleftrightarrow> heap_ok h' \<and> h_next h \<le> h_next h' \<and> (\<forall>a < h_next h. h_cells h' a = h_cells h a)"

lemma extends_refl: "heap_ok h \<Longrightarrow> extends h h"
  by (simp add: extends_def)

lemma extends_trans [trans]: "extends h1 h2 \<Longrightarrow> extends h2 h3 \<Longrightarrow> extends h1 h3"
  by (auto simp: extends_def)

lemma extends_ok: "extends h h' \<Longrightarrow> heap_ok h'"
  by (simp add: extends_def)

lemma extends_alloc: "heap_ok h \<Longrightarrow> alloc c h = (a, h') \<Longrightarrow> extends h h' \<and> a = h_next h \<and> h_next h' = Suc a"
  by (auto simp: alloc_def extends_def heap_ok_def less_Suc_eq)

lemma fetch_used: "heap_ok h \<Longrightarrow> fetch prj h a = Some x \<Longrightarrow> a < h_next h"
  by (auto simp: fetch_def heap_ok_def bind_eq_Some_conv)

lemma fetch_extends:
  "heap_ok h \<Longrightarrow> extends h h' \<Longrightarrow> fetch prj h a = Some x \<Longrightarrow> fetch prj h' a = Some x"
  using fetch_used [of h prj a x] by (simp add: fetch_def extends_def)

lemma fetch_store: "b \<noteq> a \<Longrightarrow> fetch prj (store a c h) b = fetch prj h b"
  by (simp add: fetch_def store_def)

lemma read_ptr_extends:
  "heap_ok h \<Longrightarrow> extends h h' \<Longrightarrow> read_ptr prj h p = Some v \<Longrightarrow> read_ptr prj h' p = Some v"
  by (auto simp: read_ptr_def fetch_extends split: option.splits)

lemma read_ptr_used: "heap_ok h \<Longrightarrow> read_ptr prj h (Some a) = Some v \<Longrightarrow> a < h_next h"
  by (auto simp: read_ptr_def dest: fetch_used)

lemma read_ptr_store: "p \<noteq> Some a \<Longrightarrow> read_ptr prj (store a c h) p = read_ptr prj h p"
  by (cases p) (auto simp: read_ptr_def fetch_store)

lemma read_slice_extends:
  "heap_ok h \<Longrightarrow> extends h h' \<Longrightarrow> read_slice prj h sl = Some v \<Longrightarrow> read_slice prj h' sl = Some v"
  by (cases sl) (auto simp: read_slice_def bind_eq_Some_conv fetch_extends split: if_splits)

lemma read_slice_used: "heap_ok h \<Longrightarrow> read_slice prj h (Some s) = Some v \<Longrightarrow> sl_array s < h_next h"
  by (auto simp: read_slice_def bind_eq_Some_conv dest: fetch_used)

lemma read_slice_store:
  "map_option sl_array sl \<noteq> Some a \<Longrightarrow> read_slice prj (store a c h) sl = read_slice prj h sl"
  by (auto simp: read_slice_def fetch_store split: option.splits)

text \<open>A pointer or slice whose memory was allocated between two states.\<close>

definition fresh_in :: "'c heap \<Rightarrow> 'c heap \<Rightarrow> addr option \<Rightarrow> bool" where
  "fresh_in h h' p \<longleftrightarrow> (\<forall>a. p = Some a \<longrightarrow> h_next h \<le> a \<and> a < h_next h')"

lemma fresh_in_None [simp]: "fresh_in h h' None"
  by (simp add: fresh_in_def)

lemma fresh_in_mono: "fresh_in h1 h2 p \<Longrightarrow> h_next h \<le> h_next h1 \<Longrightarrow> h_next h2 \<le> h_next h' \<Longrightarrow> fresh_in h h' p"
  by (auto simp: fresh_in_def)

lemma those_Some_iff: "those xs = Some ys \<longleftrightarrow> xs = map Some ys"
  by (induction xs arbitrary: ys) (auto split: option.splits)

lemma those_map_mono:
  assumes "those (map f xs) = Some ys" "\<And>x y. x \<in> set xs \<Longrightarrow> f x = Some y \<Longrightarrow> g x = Some y"
  shows "those (map g xs) = Some ys"
  using assms unfolding those_Some_iff by (auto simp: list_eq_iff_nth_eq)

section \<open>Types of cells\<close>

locale cell_type =
  fixes mk :: "'a \<Rightarrow> 'c" and prj :: "'c \<Rightarrow> 'a option"
  assumes prj_mk: "prj (mk x) = Some x"
begin

lemma fetch_alloc: "alloc (mk x) h = (a, h') \<Longrightarrow> fetch prj h' a = Some x"
  by (auto simp: alloc_def fetch_def prj_mk)

lemma fetch_store_same: "fetch prj (store a (mk x) h) a = Some x"
  by (simp add: store_def fetch_def prj_mk)

lemma copy_ptr_ok:
  assumes "heap_ok h" "read_ptr prj h p = Some v"
  obtains q h' where "copy_ptr mk prj p h = Some (q, h')" "extends h h'" "read_ptr prj h' q = Some v"
    "fresh_in h h' q" "q = None \<longleftrightarrow> p = None"
proof (cases p)
  case None
  then show thesis using assms by (intro that [of None h]) (auto simp: copy_ptr_def extends_refl)
next
  case (Some a)
  then obtain x where x: "fetch prj h a = Some x" "v = Some x" using assms by (auto simp: read_ptr_def)
  obtain q h1 where al: "alloc (mk x) h = (q, h1)" by fastforce
  show thesis
    using Some x al extends_alloc [OF assms(1) al] fetch_alloc [OF al]
    by (intro that [of "Some q" h1]) (auto simp: copy_ptr_def read_ptr_def fresh_in_def)
qed

end

locale array_type = cell_type mk prj for mk :: "'a list \<Rightarrow> 'c" and prj
begin

lemma append_nil_ok:
  assumes "heap_ok h" "append_nil mk xs h = (sl, h')"
  shows "extends h h' \<and> read_slice prj h' sl = Some xs \<and> fresh_in h h' (map_option sl_array sl)"
proof (cases "xs = []")
  case True
  then show ?thesis using assms by (auto simp: append_nil_def extends_refl read_slice_def)
next
  case False
  obtain a h1 where al: "alloc (mk xs) h = (a, h1)" by fastforce
  then have "sl = Some \<lparr>sl_array = a, sl_offset = 0, sl_len = length xs\<rparr>" "h' = h1"
    using assms(2) False by (auto simp: append_nil_def)
  then show ?thesis
    using extends_alloc [OF assms(1) al] fetch_alloc [OF al] by (auto simp: read_slice_def fresh_in_def)
qed

lemma copy_slice_ok:
  assumes "heap_ok h" "read_slice prj h sl = Some xs"
  obtains sl' h' where "copy_slice mk prj sl h = Some (sl', h')" "extends h h'" "read_slice prj h' sl' = Some xs"
    "fresh_in h h' (map_option sl_array sl')"
proof (cases sl)
  case None
  then show thesis using assms by (intro that [of None h]) (auto simp: copy_slice_def extends_refl)
next
  case (Some s)
  obtain sl' h' where ap: "append_nil mk xs h = (sl', h')" by fastforce
  show thesis
    using Some assms ap append_nil_ok [OF assms(1) ap] by (intro that [of sl' h']) (auto simp: copy_slice_def)
qed

end

end
