(* ===== verification/Deep_Copy.thy ===== *)
theory Deep_Copy
  imports Go_Heap Core_Types
begin

text \<open>
  The deep copies of \<open>pkg/api/v1alpha1/webhook.go\<close>, over the store of \<open>Go_Heap\<close>: a spec holds
  pointers to its selector, strategy, prune flag and resync period, slices and, inside the
  selector, a map; a status holds two slices. \<open>read_spec\<close> and \<open>read_status\<close> give the value a struct
  stands for, as the rest of the development uses it.
\<close>

section \<open>Structs in the store\<close>

record req_val =
  rv_key :: string
  rv_operator :: string
  rv_values :: "slice option"

record selector_val =
  slv_match_labels :: "addr option"
  slv_match_expressions :: "slice option"

record strategy_val =
  stv_type :: string
  stv_batch_size :: "addr option"

record spec_val =
  sv_source_ref :: object_ref
  sv_namespace_selector :: "addr option"
  sv_data_keys :: "slice option"
  sv_strategy :: "addr option"
  sv_conflict_policy :: string
  sv_prune :: "addr option"
  sv_resync :: "addr option"

record status_val =
  stv_conditions :: "slice option"
  stv_target_count :: int32
  stv_synced_count :: int32
  stv_out_of_sync_count :: int32
  stv_out_of_sync :: "slice option"
  stv_last_sync_time :: string

text \<open>The metadata types belong to apimachinery: \<open>'t\<close>, \<open>'m\<close> and \<open>'l\<close> stand for type, object and list metadata.\<close>

record ('t, 'm) object_val =
  ov_type_meta :: 't
  ov_object_meta :: 'm
  ov_spec :: spec_val
  ov_status :: status_val

record ('t, 'l) list_val =
  lv_type_meta :: 't
  lv_list_meta :: 'l
  lv_items :: "slice option"

datatype ('t, 'm, 'l) cell =
    MapCell "(string, string) fmap"
  | StringsCell "string list"
  | ReqsCell "req_val list"
  | SelectorCell selector_val
  | StrategyCell strategy_val
  | Int32Cell int32
  | BoolCell bool
  | ConditionsCell "condition list"
  | ItemsCell "out_of_sync_item list"
  | ObjectsCell "('t, 'm) object_val list"
  | ListCell "('t, 'l) list_val"

fun the_map where "the_map (MapCell x) = Some x" | "the_map _ = None"
fun the_strings where "the_strings (StringsCell x) = Some x" | "the_strings _ = None"
fun the_reqs where "the_reqs (ReqsCell x) = Some x" | "the_reqs _ = None"
fun the_selector where "the_selector (SelectorCell x) = Some x" | "the_selector _ = None"
fun the_strategy where "the_strategy (StrategyCell x) = Some x" | "the_strategy _ = None"
fun the_int32 where "the_int32 (Int32Cell x) = Some x" | "the_int32 _ = None"
fun the_bool where "the_bool (BoolCell x) = Some x" | "the_bool _ = None"
fun the_conditions where "the_conditions (ConditionsCell x) = Some x" | "the_conditions _ = None"
fun the_items where "the_items (ItemsCell x) = Some x" | "the_items _ = None"
fun the_objects where "the_objects (ObjectsCell x) = Some x" | "the_objects _ = None"
fun the_list where "the_list (ListCell x) = Some x" | "the_list _ = None"

interpretation maps: cell_type MapCell the_map by unfold_locales simp
interpretation selectors: cell_type SelectorCell the_selector by unfold_locales simp
interpretation strategies: cell_type StrategyCell the_strategy by unfold_locales simp
interpretation int32s: cell_type Int32Cell the_int32 by unfold_locales simp
interpretation bools: cell_type BoolCell the_bool by unfold_locales simp
interpretation lists: cell_type ListCell the_list by unfold_locales simp
interpretation strings: array_type StringsCell the_strings by unfold_locales simp
interpretation reqs: array_type ReqsCell the_reqs by unfold_locales simp
interpretation conditions: array_type ConditionsCell the_conditions by unfold_locales simp
interpretation items: array_type ItemsCell the_items by unfold_locales simp
interpretation objects: array_type ObjectsCell the_objects by unfold_locales simp

section \<open>The values they stand for\<close>

type_synonym ('t, 'm, 'l) go_heap = "('t, 'm, 'l) cell heap"

definition read_req :: "('t, 'm, 'l) go_heap \<Rightarrow> req_val \<Rightarrow> label_selector_req option" where
  "read_req h r = do {
     vs \<leftarrow> read_slice the_strings h (rv_values r);
     Some \<lparr>lsr_key = rv_key r, lsr_operator = rv_operator r, lsr_values = vs\<rparr> }"

definition read_selector :: "('t, 'm, 'l) go_heap \<Rightarrow> addr option \<Rightarrow> label_selector option option" where
  "read_selector h p = (case p of None \<Rightarrow> Some None
     | Some a \<Rightarrow> do {
         sel \<leftarrow> fetch the_selector h a;
         labels \<leftarrow> read_ptr the_map h (slv_match_labels sel);
         rs \<leftarrow> read_slice the_reqs h (slv_match_expressions sel);
         es \<leftarrow> those (map (read_req h) rs);
         Some (Some \<lparr>ls_match_labels = labels, ls_match_expressions = es\<rparr>) })"

definition read_strategy :: "('t, 'm, 'l) go_heap \<Rightarrow> addr option \<Rightarrow> update_strategy option option" where
  "read_strategy h p = (case p of None \<Rightarrow> Some None
     | Some a \<Rightarrow> do {
         st \<leftarrow> fetch the_strategy h a;
         b \<leftarrow> read_ptr the_int32 h (stv_batch_size st);
         Some (Some \<lparr>us_type = stv_type st, us_batch_size = b\<rparr>) })"

definition read_spec :: "('t, 'm, 'l) go_heap \<Rightarrow> spec_val \<Rightarrow> config_propagation_spec option" where
  "read_spec h s = do {
     selector \<leftarrow> read_selector h (sv_namespace_selector s);
     keys \<leftarrow> read_slice the_strings h (sv_data_keys s);
     strategy \<leftarrow> read_strategy h (sv_strategy s);
     prune \<leftarrow> read_ptr the_bool h (sv_prune s);
     resync \<leftarrow> read_ptr the_int32 h (sv_resync s);
     Some \<lparr>sp_source_ref = sv_source_ref s, sp_namespace_selector = selector, sp_data_keys = keys,
       sp_strategy = strategy, sp_conflict_policy = sv_conflict_policy s, sp_prune = prune,
       sp_resync_period_seconds = resync\<rparr> }"

definition read_status :: "('t, 'm, 'l) go_heap \<Rightarrow> status_val \<Rightarrow> config_propagation_status option" where
  "read_status h s = do {
     conds \<leftarrow> read_slice the_conditions h (stv_conditions s);
     oos \<leftarrow> read_slice the_items h (stv_out_of_sync s);
     Some \<lparr>sts_conditions = conds, sts_target_count = stv_target_count s, sts_synced_count = stv_synced_count s,
       sts_out_of_sync_count = stv_out_of_sync_count s, sts_out_of_sync = oos,
       sts_last_sync_time = stv_last_sync_time s\<rparr> }"

section \<open>deepCopySpec and deepCopyStatus\<close>

definition zero_spec :: spec_val where
  "zero_spec = \<lparr>sv_source_ref = \<lparr>ref_namespace = [], ref_name = []\<rparr>, sv_namespace_selector = None,
     sv_data_keys = None, sv_strategy = None, sv_conflict_policy = [], sv_prune = None, sv_resync = None\<rparr>"

definition zero_status :: status_val where
  "zero_status = \<lparr>stv_conditions = None, stv_target_count = 0, stv_synced_count = 0,
     stv_out_of_sync_count = 0, stv_out_of_sync = None, stv_last_sync_time = []\<rparr>"

text \<open>A new map, filled by ranging over the old one.\<close>

definition copy_labels :: "addr option \<Rightarrow> ('t, 'm, 'l) go_heap \<Rightarrow> (addr option \<times> ('t, 'm, 'l) go_heap) option" where
  "copy_labels p h = (case p of None \<Rightarrow> Some (None, h)
     | Some a \<Rightarrow> do {
         m \<leftarrow> fetch the_map h a;
         let (q, h1) = alloc (MapCell (put_entries fmempty (go_range (Some m)))) h;
         Some (Some q, h1) })"

definition copy_selector :: "addr option \<Rightarrow> ('t, 'm, 'l) go_heap \<Rightarrow> (addr option \<times> ('t, 'm, 'l) go_heap) option" where
  "copy_selector p h = (case p of None \<Rightarrow> Some (None, h)
     | Some a \<Rightarrow> do {
         sel \<leftarrow> fetch the_selector h a;
         (labels, h1) \<leftarrow> copy_labels (slv_match_labels sel) h;
         (exprs, h2) \<leftarrow> copy_slice ReqsCell the_reqs (slv_match_expressions sel) h1;
         let (q, h3) = alloc (SelectorCell (sel\<lparr>slv_match_labels := labels, slv_match_expressions := exprs\<rparr>)) h2;
         Some (Some q, h3) })"

definition copy_strategy :: "addr option \<Rightarrow> ('t, 'm, 'l) go_heap \<Rightarrow> (addr option \<times> ('t, 'm, 'l) go_heap) option" where
  "copy_strategy p h = (case p of None \<Rightarrow> Some (None, h)
     | Some a \<Rightarrow> do {
         st \<leftarrow> fetch the_strategy h a;
         (batch, h1) \<leftarrow> copy_ptr Int32Cell the_int32 (stv_batch_size st) h;
         let (q, h2) = alloc (StrategyCell (st\<lparr>stv_batch_size := batch\<rparr>)) h1;
         Some (Some q, h2) })"

definition deep_copy_spec :: "spec_val option \<Rightarrow> ('t, 'm, 'l) go_heap \<Rightarrow> (spec_val \<times> ('t, 'm, 'l) go_heap) option" where
  "deep_copy_spec src h = (case src of None \<Rightarrow> Some (zero_spec, h)
     | Some s \<Rightarrow> do {
         (selector, h1) \<leftarrow> copy_selector (sv_namespace_selector s) h;
         (keys, h2) \<leftarrow> copy_slice StringsCell the_strings (sv_data_keys s) h1;
         (strategy, h3) \<leftarrow> copy_strategy (sv_strategy s) h2;
         (prune, h4) \<leftarrow> copy_ptr BoolCell the_bool (sv_prune s) h3;
         (resync, h5) \<leftarrow> copy_ptr Int32Cell the_int32 (sv_resync s) h4;
         Some (s\<lparr>sv_namespace_selector := selector, sv_data_keys := keys, sv_strategy := strategy,
           sv_prune := prune, sv_resync := resync\<rparr>, h5) })"

definition deep_copy_status :: "status_val option \<Rightarrow> ('t, 'm, 'l) go_heap \<Rightarrow> (status_val \<times> ('t, 'm, 'l) go_heap) option" where
  "deep_copy_status src h = (case src of None \<Rightarrow> Some (zero_status, h)
     | Some s \<Rightarrow> do {
         (conds, h1) \<leftarrow> copy_slice ConditionsCell the_conditions (stv_conditions s) h;
         (oos, h2) \<leftarrow> copy_slice ItemsCell the_items (stv_out_of_sync s) h1;
         Some (s\<lparr>stv_conditions := conds, stv_out_of_sync := oos\<rparr>, h2) })"

section \<open>What a struct reaches\<close>

text \<open>
  The memory a spec owns, without the elements of the slices inside its requirements; those
  arrays are \<open>spec_values\<close>.
\<close>

definition slice_addrs :: "slice option \<Rightarrow> addr set" where
  "slice_addrs sl = set_option (map_option sl_array sl)"

definition selector_own :: "('t, 'm, 'l) go_heap \<Rightarrow> addr option \<Rightarrow> addr set" where
  "selector_own h p = (case p of None \<Rightarrow> {}
     | Some a \<Rightarrow> insert a (case fetch the_selector h a of None \<Rightarrow> {}
         | Some sel \<Rightarrow> set_option (slv_match_labels sel) \<union> slice_addrs (slv_match_expressions sel)))"

definition strategy_own :: "('t, 'm, 'l) go_heap \<Rightarrow> addr option \<Rightarrow> addr set" where
  "strategy_own h p = (case p of None \<Rightarrow> {}
     | Some a \<Rightarrow> insert a (case fetch the_strategy h a of None \<Rightarrow> {}
         | Some st \<Rightarrow> set_option (stv_batch_size st)))"

definition spec_own :: "('t, 'm, 'l) go_heap \<Rightarrow> spec_val \<Rightarrow> addr set" where
  "spec_own h s = selector_own h (sv_namespace_selector s) \<union> slice_addrs (sv_data_keys s) \<union>
     strategy_own h (sv_strategy s) \<union> set_option (sv_prune s) \<union> set_option (sv_resync s)"

definition selector_values :: "('t, 'm, 'l) go_heap \<Rightarrow> addr option \<Rightarrow> addr set" where
  "selector_values h p = (case p of None \<Rightarrow> {}
     | Some a \<Rightarrow> (case fetch the_selector h a of None \<Rightarrow> {}
         | Some sel \<Rightarrow> (case read_slice the_reqs h (slv_match_expressions sel) of None \<Rightarrow> {}
             | Some rs \<Rightarrow> (\<Union>r \<in> set rs. slice_addrs (rv_values r)))))"

definition spec_values :: "('t, 'm, 'l) go_heap \<Rightarrow> spec_val \<Rightarrow> addr set" where
  "spec_values h s = selector_values h (sv_namespace_selector s)"

definition status_own :: "status_val \<Rightarrow> addr set" where
  "status_own s = slice_addrs (stv_conditions s) \<union> slice_addrs (stv_out_of_sync s)"

definition new_addrs :: "'c heap \<Rightarrow> 'c heap \<Rightarrow> addr set" where
  "new_addrs h h' = {h_next h ..< h_next h'}"

lemma fresh_in_new: "fresh_in h h' p \<longleftrightarrow> set_option p \<subseteq> new_addrs h h'"
  by (cases p) (auto simp: fresh_in_def new_addrs_def)

lemma new_addrs_mono:
  "X \<subseteq> new_addrs h1 h2 \<Longrightarrow> h_next h \<le> h_next h1 \<Longrightarrow> h_next h2 \<le> h_next h' \<Longrightarrow> X \<subseteq> new_addrs h h'"
  by (auto simp: new_addrs_def)

section \<open>Reading is local\<close>

text \<open>A value that can be read stays when the store grows.\<close>

lemma read_req_extends:
  "heap_ok h \<Longrightarrow> extends h h' \<Longrightarrow> read_req h r = Some v \<Longrightarrow> read_req h' r = Some v"
  by (auto simp: read_req_def bind_eq_Some_conv dest: read_slice_extends)

lemma read_reqs_extends:
  "heap_ok h \<Longrightarrow> extends h h' \<Longrightarrow> those (map (read_req h) rs) = Some vs \<Longrightarrow> those (map (read_req h') rs) = Some vs"
  by (erule those_map_mono) (rule read_req_extends)

lemma read_selector_extends:
  assumes "heap_ok h" "extends h h'" "read_selector h p = Some v"
  shows "read_selector h' p = Some v"
proof (cases p)
  case (Some a)
  then obtain sel labels rs es where
    "fetch the_selector h a = Some sel" "read_ptr the_map h (slv_match_labels sel) = Some labels"
    "read_slice the_reqs h (slv_match_expressions sel) = Some rs" "those (map (read_req h) rs) = Some es"
    "v = Some \<lparr>ls_match_labels = labels, ls_match_expressions = es\<rparr>"
    using assms(3) by (auto simp: read_selector_def bind_eq_Some_conv)
  with Some show ?thesis
    by (simp add: read_selector_def fetch_extends [OF assms(1,2)] read_ptr_extends [OF assms(1,2)]
        read_slice_extends [OF assms(1,2)] read_reqs_extends [OF assms(1,2)])
qed (use assms in \<open>simp add: read_selector_def\<close>)

lemma read_strategy_extends:
  assumes "heap_ok h" "extends h h'" "read_strategy h p = Some v"
  shows "read_strategy h' p = Some v"
  using assms(3)
  by (cases p) (auto simp: read_strategy_def bind_eq_Some_conv fetch_extends [OF assms(1,2)] read_ptr_extends [OF assms(1,2)])

lemma read_spec_parts:
  "read_spec h s = Some v \<longleftrightarrow>
     read_selector h (sv_namespace_selector s) = Some (sp_namespace_selector v) \<and>
     read_slice the_strings h (sv_data_keys s) = Some (sp_data_keys v) \<and>
     read_strategy h (sv_strategy s) = Some (sp_strategy v) \<and>
     read_ptr the_bool h (sv_prune s) = Some (sp_prune v) \<and>
     read_ptr the_int32 h (sv_resync s) = Some (sp_resync_period_seconds v) \<and>
     sp_source_ref v = sv_source_ref s \<and> sp_conflict_policy v = sv_conflict_policy s"
  by (cases v) (auto simp: read_spec_def bind_eq_Some_conv)

lemma read_spec_extends:
  "heap_ok h \<Longrightarrow> extends h h' \<Longrightarrow> read_spec h s = Some v \<Longrightarrow> read_spec h' s = Some v"
  by (simp add: read_spec_parts read_selector_extends read_strategy_extends read_slice_extends read_ptr_extends)

lemma read_status_parts:
  "read_status h s = Some v \<longleftrightarrow>
     read_slice the_conditions h (stv_conditions s) = Some (sts_conditions v) \<and>
     read_slice the_items h (stv_out_of_sync s) = Some (sts_out_of_sync v) \<and>
     sts_target_count v = stv_target_count s \<and> sts_synced_count v = stv_synced_count s \<and>
     sts_out_of_sync_count v = stv_out_of_sync_count s \<and> sts_last_sync_time v = stv_last_sync_time s"
  by (cases v) (auto simp: read_status_def bind_eq_Some_conv)

lemma read_status_extends:
  "heap_ok h \<Longrightarrow> extends h h' \<Longrightarrow> read_status h s = Some v \<Longrightarrow> read_status h' s = Some v"
  by (simp add: read_status_parts read_slice_extends)

text \<open>A write outside what a struct reaches does not change what it stands for.\<close>

lemma read_slice_store_addrs: "a \<notin> slice_addrs sl \<Longrightarrow> read_slice prj (store a c h) sl = read_slice prj h sl"
  by (rule read_slice_store) (auto simp: slice_addrs_def)

lemma read_ptr_store_addrs: "a \<notin> set_option p \<Longrightarrow> read_ptr prj (store a c h) p = read_ptr prj h p"
  by (rule read_ptr_store) auto

lemma read_req_store: "a \<notin> slice_addrs (rv_values r) \<Longrightarrow> read_req (store a c h) r = read_req h r"
  by (simp add: read_req_def read_slice_store_addrs)

lemma read_selector_store:
  assumes "a \<notin> selector_own h p" "a \<notin> selector_values h p"
  shows "read_selector (store a c h) p = read_selector h p"
proof (cases p)
  case (Some b)
  have b: "fetch the_selector (store a c h) b = fetch the_selector h b"
    using assms(1) Some by (intro fetch_store) (auto simp: selector_own_def split: option.splits)
  show ?thesis
  proof (cases "fetch the_selector h b")
    case sel: (Some sel)
    have e: "read_slice the_reqs (store a c h) (slv_match_expressions sel) = read_slice the_reqs h (slv_match_expressions sel)"
      and l: "read_ptr the_map (store a c h) (slv_match_labels sel) = read_ptr the_map h (slv_match_labels sel)"
      using assms(1) Some sel by (auto simp: selector_own_def intro!: read_slice_store_addrs read_ptr_store_addrs)
    have r: "those (map (read_req (store a c h)) rs) = those (map (read_req h) rs)"
      if "read_slice the_reqs h (slv_match_expressions sel) = Some rs" for rs
      using assms(2) Some sel that
      by (intro arg_cong [where f = those] map_cong refl read_req_store) (auto simp: selector_values_def)
    show ?thesis
      using Some sel b e l r by (cases "read_slice the_reqs h (slv_match_expressions sel)") (auto simp: read_selector_def)
  qed (use Some b in \<open>simp add: read_selector_def\<close>)
qed (simp add: read_selector_def)

lemma read_strategy_store:
  assumes "a \<notin> strategy_own h p"
  shows "read_strategy (store a c h) p = read_strategy h p"
proof (cases p)
  case (Some b)
  have b: "fetch the_strategy (store a c h) b = fetch the_strategy h b"
    using assms Some by (intro fetch_store) (auto simp: strategy_own_def split: option.splits)
  show ?thesis
    using Some b assms
    by (cases "fetch the_strategy h b") (auto simp: read_strategy_def strategy_own_def read_ptr_store_addrs)
qed (simp add: read_strategy_def)

lemma read_spec_store:
  assumes "a \<notin> spec_own h s" "a \<notin> spec_values h s"
  shows "read_spec (store a c h) s = read_spec h s"
  using assms
  by (simp add: read_spec_def spec_own_def spec_values_def read_selector_store read_strategy_store
      read_slice_store_addrs read_ptr_store_addrs)

lemma read_status_store: "a \<notin> status_own s \<Longrightarrow> read_status (store a c h) s = read_status h s"
  by (simp add: read_status_def status_own_def read_slice_store_addrs)

text \<open>What a readable struct reaches does not change when the store grows.\<close>

lemma selector_own_extends:
  assumes "heap_ok h" "extends h h'" "read_selector h p = Some v"
  shows "selector_own h' p = selector_own h p" "selector_values h' p = selector_values h p"
  using assms(3)
  by (cases p; auto simp: read_selector_def selector_own_def selector_values_def bind_eq_Some_conv
      fetch_extends [OF assms(1,2)] read_slice_extends [OF assms(1,2)])+

lemma strategy_own_extends:
  assumes "heap_ok h" "extends h h'" "read_strategy h p = Some v"
  shows "strategy_own h' p = strategy_own h p"
  using assms(3)
  by (cases p) (auto simp: read_strategy_def strategy_own_def bind_eq_Some_conv fetch_extends [OF assms(1,2)])

text \<open>What a readable struct reaches is in use.\<close>

lemma read_slice_addrs_used: "heap_ok h \<Longrightarrow> read_slice prj h sl = Some v \<Longrightarrow> slice_addrs sl \<subseteq> {..< h_next h}"
  by (cases sl) (auto simp: slice_addrs_def dest: read_slice_used)

lemma read_ptr_addrs_used: "heap_ok h \<Longrightarrow> read_ptr prj h p = Some v \<Longrightarrow> set_option p \<subseteq> {..< h_next h}"
  by (cases p) (auto dest: read_ptr_used)

lemma selector_used:
  assumes "heap_ok h" "read_selector h p = Some v"
  shows "selector_own h p \<subseteq> {..< h_next h}" "selector_values h p \<subseteq> {..< h_next h}"
proof -
  have "selector_own h p \<subseteq> {..< h_next h} \<and> selector_values h p \<subseteq> {..< h_next h}"
  proof (cases p)
    case (Some a)
    then obtain sel labels rs es where sel: "fetch the_selector h a = Some sel"
      and labels: "read_ptr the_map h (slv_match_labels sel) = Some labels"
      and rs: "read_slice the_reqs h (slv_match_expressions sel) = Some rs" "those (map (read_req h) rs) = Some es"
      using assms(2) by (auto simp: read_selector_def bind_eq_Some_conv)
    have "slice_addrs (rv_values r) \<subseteq> {..< h_next h}" if "r \<in> set rs" for r
    proof -
      have "read_req h r \<in> Some ` set es"
        using imageI [OF that, of "read_req h"] arg_cong [OF rs(2) [unfolded those_Some_iff], of set] by simp
      then obtain e where "read_req h r = Some e" by blast
      then obtain vs where "read_slice the_strings h (rv_values r) = Some vs" by (auto simp: read_req_def bind_eq_Some_conv)
      then show ?thesis by (rule read_slice_addrs_used [OF assms(1)])
    qed
    then show ?thesis
      using Some sel rs(1) fetch_used [OF assms(1) sel] read_ptr_addrs_used [OF assms(1) labels]
        read_slice_addrs_used [OF assms(1) rs(1)]
      by (auto simp: selector_own_def selector_values_def)
  qed (simp add: selector_own_def selector_values_def)
  then show "selector_own h p \<subseteq> {..< h_next h}" "selector_values h p \<subseteq> {..< h_next h}" by simp_all
qed

lemma strategy_used:
  assumes "heap_ok h" "read_strategy h p = Some v"
  shows "strategy_own h p \<subseteq> {..< h_next h}"
proof (cases p)
  case (Some a)
  then obtain st b where "fetch the_strategy h a = Some st" "read_ptr the_int32 h (stv_batch_size st) = Some b"
    using assms(2) by (auto simp: read_strategy_def bind_eq_Some_conv)
  with Some fetch_used [OF assms(1), of the_strategy a st] read_ptr_addrs_used [OF assms(1), of the_int32 "stv_batch_size st" b]
  show ?thesis by (auto simp: strategy_own_def)
qed (simp add: strategy_own_def)

lemma spec_used:
  assumes "heap_ok h" "read_spec h s = Some v"
  shows "spec_own h s \<subseteq> {..< h_next h}" "spec_values h s \<subseteq> {..< h_next h}"
proof -
  note r = assms(2) [unfolded read_spec_parts]
  show "spec_values h s \<subseteq> {..< h_next h}" using r by (simp add: spec_values_def selector_used(2) [OF assms(1)])
  show "spec_own h s \<subseteq> {..< h_next h}"
    unfolding spec_own_def
    using r selector_used(1) [OF assms(1)] strategy_used [OF assms(1)] read_slice_addrs_used [OF assms(1)]
      read_ptr_addrs_used [OF assms(1), of the_bool] read_ptr_addrs_used [OF assms(1), of the_int32]
    by (intro Un_least) blast+
qed

section \<open>The copies are correct\<close>

lemma copy_labels_ptr: "copy_labels = copy_ptr MapCell the_map"
  by (rule ext)+ (simp only: copy_labels_def copy_ptr_def put_entries_range go_entries_simps)

lemma copy_selector_ok:
  assumes ok: "heap_ok h" and r: "read_selector h p = Some v"
  obtains q h' where "copy_selector p h = Some (q, h')" "extends h h'" "read_selector h' q = Some v"
    "selector_own h' q \<subseteq> new_addrs h h'" "selector_values h' q = selector_values h p"
proof (cases p)
  case None
  then show thesis using r ok
    by (intro that [of None h]) (auto simp: copy_selector_def read_selector_def extends_refl selector_own_def selector_values_def)
next
  case (Some a)
  then obtain sel labels rs es where sel: "fetch the_selector h a = Some sel"
    and labels: "read_ptr the_map h (slv_match_labels sel) = Some labels"
    and rs: "read_slice the_reqs h (slv_match_expressions sel) = Some rs"
    and es: "those (map (read_req h) rs) = Some es"
    and v: "v = Some \<lparr>ls_match_labels = labels, ls_match_expressions = es\<rparr>"
    using r by (auto simp: read_selector_def bind_eq_Some_conv)
  obtain lq h1 where l: "copy_ptr MapCell the_map (slv_match_labels sel) h = Some (lq, h1)" "extends h h1"
      "read_ptr the_map h1 lq = Some labels" "fresh_in h h1 lq"
    by (rule maps.copy_ptr_ok [OF ok labels])
  note ok1 = extends_ok [OF l(2)]
  obtain eq h2 where e: "copy_slice ReqsCell the_reqs (slv_match_expressions sel) h1 = Some (eq, h2)" "extends h1 h2"
      "read_slice the_reqs h2 eq = Some rs" "fresh_in h1 h2 (map_option sl_array eq)"
    by (rule reqs.copy_slice_ok [OF ok1 read_slice_extends [OF ok l(2) rs]])
  note ok2 = extends_ok [OF e(2)]
  let ?sel = "sel\<lparr>slv_match_labels := lq, slv_match_expressions := eq\<rparr>"
  obtain q h3 where al: "alloc (SelectorCell ?sel) h2 = (q, h3)" by fastforce
  note x = extends_alloc [OF ok2 al]
  have h3: "extends h2 h3" "extends h1 h3" "extends h h3"
    using x e(2) l(2) extends_trans by blast+
  have fetch: "fetch the_selector h3 q = Some ?sel" by (rule selectors.fetch_alloc [OF al])
  have read: "read_ptr the_map h3 lq = Some labels" "read_slice the_reqs h3 eq = Some rs" "those (map (read_req h3) rs) = Some es"
    using read_ptr_extends [OF ok1 h3(2) l(3)] read_slice_extends [OF ok2 h3(1) e(3)] read_reqs_extends [OF ok h3(3) es]
    by simp_all
  show thesis
  proof (rule that [of "Some q" h3])
    show "copy_selector p h = Some (Some q, h3)"
      using Some sel l(1) e(1) al by (simp add: copy_selector_def copy_labels_ptr)
    show "extends h h3" by (rule h3)
    show "read_selector h3 (Some q) = Some v" using fetch read v by (simp add: read_selector_def)
    show "selector_own h3 (Some q) \<subseteq> new_addrs h h3"
      using fetch x l(2,4) e(2,4) by (auto simp: selector_own_def slice_addrs_def new_addrs_def fresh_in_def extends_def)
    show "selector_values h3 (Some q) = selector_values h p"
      using fetch read(2) sel rs Some by (simp add: selector_values_def)
  qed
qed

lemma copy_strategy_ok:
  assumes ok: "heap_ok h" and r: "read_strategy h p = Some v"
  obtains q h' where "copy_strategy p h = Some (q, h')" "extends h h'" "read_strategy h' q = Some v"
    "strategy_own h' q \<subseteq> new_addrs h h'"
proof (cases p)
  case None
  then show thesis using r ok
    by (intro that [of None h]) (auto simp: copy_strategy_def read_strategy_def extends_refl strategy_own_def)
next
  case (Some a)
  then obtain st b where st: "fetch the_strategy h a = Some st" and b: "read_ptr the_int32 h (stv_batch_size st) = Some b"
    and v: "v = Some \<lparr>us_type = stv_type st, us_batch_size = b\<rparr>"
    using r by (auto simp: read_strategy_def bind_eq_Some_conv)
  obtain bq h1 where c: "copy_ptr Int32Cell the_int32 (stv_batch_size st) h = Some (bq, h1)" "extends h h1"
      "read_ptr the_int32 h1 bq = Some b" "fresh_in h h1 bq"
    by (rule int32s.copy_ptr_ok [OF ok b])
  note ok1 = extends_ok [OF c(2)]
  obtain q h2 where al: "alloc (StrategyCell (st\<lparr>stv_batch_size := bq\<rparr>)) h1 = (q, h2)" by fastforce
  note x = extends_alloc [OF ok1 al] and fetch = strategies.fetch_alloc [OF al]
  show thesis
  proof (rule that [of "Some q" h2])
    show "copy_strategy p h = Some (Some q, h2)" using Some st c(1) al by (simp add: copy_strategy_def)
    show "extends h h2" using extends_trans [OF c(2)] x by blast
    show "read_strategy h2 (Some q) = Some v"
      using fetch read_ptr_extends [OF ok1 conjunct1 [OF x] c(3)] v by (simp add: read_strategy_def)
    show "strategy_own h2 (Some q) \<subseteq> new_addrs h h2"
      using fetch x c(2,4) by (auto simp: strategy_own_def new_addrs_def fresh_in_def extends_def)
  qed
qed

lemma deep_copy_spec_ok:
  assumes ok: "heap_ok h" and r: "read_spec h s = Some v"
  obtains s' h' where "deep_copy_spec (Some s) h = Some (s', h')" "extends h h'" "read_spec h' s' = Some v"
    "spec_own h' s' \<subseteq> new_addrs h h'" "spec_values h' s' = spec_values h s"
proof -
  note parts = r [unfolded read_spec_parts]
  obtain p1 h1 where c1: "copy_selector (sv_namespace_selector s) h = Some (p1, h1)" "extends h h1"
      "read_selector h1 p1 = Some (sp_namespace_selector v)" "selector_own h1 p1 \<subseteq> new_addrs h h1"
      "selector_values h1 p1 = selector_values h (sv_namespace_selector s)"
    using copy_selector_ok [OF ok] parts by blast
  note e1 = c1(2) and ok1 = extends_ok [OF c1(2)]
  have "read_slice the_strings h1 (sv_data_keys s) = Some (sp_data_keys v)"
    using parts by (simp add: read_slice_extends [OF ok e1])
  then obtain p2 h2 where c2: "copy_slice StringsCell the_strings (sv_data_keys s) h1 = Some (p2, h2)" "extends h1 h2"
      "read_slice the_strings h2 p2 = Some (sp_data_keys v)" "fresh_in h1 h2 (map_option sl_array p2)"
    using strings.copy_slice_ok [OF ok1] by blast
  note e2 = extends_trans [OF e1 c2(2)] and ok2 = extends_ok [OF c2(2)]
  have "read_strategy h2 (sv_strategy s) = Some (sp_strategy v)"
    using parts by (simp add: read_strategy_extends [OF ok e2])
  then obtain p3 h3 where c3: "copy_strategy (sv_strategy s) h2 = Some (p3, h3)" "extends h2 h3"
      "read_strategy h3 p3 = Some (sp_strategy v)" "strategy_own h3 p3 \<subseteq> new_addrs h2 h3"
    using copy_strategy_ok [OF ok2] by blast
  note e3 = extends_trans [OF e2 c3(2)] and ok3 = extends_ok [OF c3(2)]
  have "read_ptr the_bool h3 (sv_prune s) = Some (sp_prune v)"
    using parts by (simp add: read_ptr_extends [OF ok e3])
  then obtain p4 h4 where c4: "copy_ptr BoolCell the_bool (sv_prune s) h3 = Some (p4, h4)" "extends h3 h4"
      "read_ptr the_bool h4 p4 = Some (sp_prune v)" "fresh_in h3 h4 p4"
    using bools.copy_ptr_ok [OF ok3] by blast
  note e4 = extends_trans [OF e3 c4(2)] and ok4 = extends_ok [OF c4(2)]
  have "read_ptr the_int32 h4 (sv_resync s) = Some (sp_resync_period_seconds v)"
    using parts by (simp add: read_ptr_extends [OF ok e4])
  then obtain p5 h5 where c5: "copy_ptr Int32Cell the_int32 (sv_resync s) h4 = Some (p5, h5)" "extends h4 h5"
      "read_ptr the_int32 h5 p5 = Some (sp_resync_period_seconds v)" "fresh_in h4 h5 p5"
    using int32s.copy_ptr_ok [OF ok4] by blast
  have to5: "extends h h5" "extends h1 h5" "extends h2 h5" "extends h3 h5" "extends h4 h5"
    using e1 c2(2) c3(2) c4(2) c5(2) extends_trans by blast+
  have le: "h_next h \<le> h_next h1" "h_next h1 \<le> h_next h2" "h_next h2 \<le> h_next h3" "h_next h3 \<le> h_next h4" "h_next h4 \<le> h_next h5"
    using e1 c2(2) c3(2) c4(2) c5(2) by (simp_all add: extends_def)
  have reads: "read_selector h5 p1 = Some (sp_namespace_selector v)" "read_slice the_strings h5 p2 = Some (sp_data_keys v)"
    "read_strategy h5 p3 = Some (sp_strategy v)" "read_ptr the_bool h5 p4 = Some (sp_prune v)"
    by (simp_all add: read_selector_extends [OF ok1 to5(2) c1(3)] read_slice_extends [OF ok2 to5(3) c2(3)]
        read_strategy_extends [OF ok3 to5(4) c3(3)] read_ptr_extends [OF ok4 to5(5) c4(3)])
  have own: "selector_own h5 p1 = selector_own h1 p1" "selector_values h5 p1 = selector_values h (sv_namespace_selector s)"
    "strategy_own h5 p3 = strategy_own h3 p3"
    by (simp_all add: selector_own_extends [OF ok1 to5(2) c1(3)] c1(5) strategy_own_extends [OF ok3 to5(4) c3(3)])
  let ?s = "s\<lparr>sv_namespace_selector := p1, sv_data_keys := p2, sv_strategy := p3, sv_prune := p4, sv_resync := p5\<rparr>"
  show thesis
  proof (rule that [of ?s h5])
    show "deep_copy_spec (Some s) h = Some (?s, h5)"
      by (simp add: deep_copy_spec_def c1(1) c2(1) c3(1) c4(1) c5(1))
    show "extends h h5" by (rule to5)
    show "read_spec h5 ?s = Some v" using reads c5(3) parts by (simp add: read_spec_parts)
    show "spec_own h5 ?s \<subseteq> new_addrs h h5"
      using c1(4) c2(4) c3(4) c4(4) c5(4) le
      by (auto simp: spec_own_def own slice_addrs_def fresh_in_new new_addrs_def)
    show "spec_values h5 ?s = spec_values h s" by (simp add: spec_values_def own)
  qed
qed

lemma deep_copy_status_ok:
  assumes ok: "heap_ok h" and r: "read_status h s = Some v"
  obtains s' h' where "deep_copy_status (Some s) h = Some (s', h')" "extends h h'" "read_status h' s' = Some v"
    "status_own s' \<subseteq> new_addrs h h'"
proof -
  note parts = r [unfolded read_status_parts]
  obtain p1 h1 where c1: "copy_slice ConditionsCell the_conditions (stv_conditions s) h = Some (p1, h1)" "extends h h1"
      "read_slice the_conditions h1 p1 = Some (sts_conditions v)" "fresh_in h h1 (map_option sl_array p1)"
    using conditions.copy_slice_ok [OF ok] parts by blast
  note ok1 = extends_ok [OF c1(2)]
  have "read_slice the_items h1 (stv_out_of_sync s) = Some (sts_out_of_sync v)"
    using parts by (simp add: read_slice_extends [OF ok c1(2)])
  then obtain p2 h2 where c2: "copy_slice ItemsCell the_items (stv_out_of_sync s) h1 = Some (p2, h2)" "extends h1 h2"
      "read_slice the_items h2 p2 = Some (sts_out_of_sync v)" "fresh_in h1 h2 (map_option sl_array p2)"
    using items.copy_slice_ok [OF ok1] by blast
  let ?s = "s\<lparr>stv_conditions := p1, stv_out_of_sync := p2\<rparr>"
  show thesis
  proof (rule that [of ?s h2])
    show "deep_copy_status (Some s) h = Some (?s, h2)" by (simp add: deep_copy_status_def c1(1) c2(1))
    show "extends h h2" by (rule extends_trans [OF c1(2) c2(2)])
    show "read_status h2 ?s = Some v"
      using read_slice_extends [OF ok1 c2(2) c1(3)] c2(3) parts by (simp add: read_status_parts)
    show "status_own ?s \<subseteq> new_addrs h h2"
      using c1(2,4) c2(2,4) by (auto simp: status_own_def slice_addrs_def fresh_in_new new_addrs_def extends_def)
  qed
qed

end
