(* ===== verification/Deep_Copy_Objects.thy ===== *)
theory Deep_Copy_Objects
  imports Deep_Copy
begin

text \<open>
  \<open>DeepCopyInto\<close>, \<open>DeepCopy\<close> and \<open>DeepCopyObject\<close> of the resource and of the list of resources. A
  resource is reached through a place: an array and an index, since \<open>&out.Items[index]\<close> points into
  one; a single resource is an array of length one. The copies of the metadata are functions of
  apimachinery and a parameter, as are the zero values of the metadata types.
\<close>

section \<open>The resource\<close>

type_synonym place = "addr \<times> nat"

record ('t, 'm, 'l) meta_lib =
  zero_type_meta :: 't
  zero_object_meta :: 'm
  zero_list_meta :: 'l
  copy_object_meta :: "'m \<Rightarrow> 'm"
  copy_list_meta :: "'l \<Rightarrow> 'l"

definition read_place :: "('t, 'm, 'l) go_heap \<Rightarrow> place \<Rightarrow> ('t, 'm) object_val option" where
  "read_place h p = do {
     xs \<leftarrow> fetch the_objects h (fst p);
     if snd p < length xs then Some (xs ! snd p) else None }"

definition write_place :: "place \<Rightarrow> ('t, 'm) object_val \<Rightarrow> ('t, 'm, 'l) go_heap \<Rightarrow> ('t, 'm, 'l) go_heap option" where
  "write_place p v h = do {
     xs \<leftarrow> fetch the_objects h (fst p);
     if snd p < length xs then Some (store (fst p) (ObjectsCell (xs[snd p := v])) h) else None }"

definition modify_place :: "place \<Rightarrow> (('t, 'm) object_val \<Rightarrow> ('t, 'm) object_val) \<Rightarrow> ('t, 'm, 'l) go_heap \<Rightarrow>
    ('t, 'm, 'l) go_heap option" where
  "modify_place p f h = do { v \<leftarrow> read_place h p; write_place p (f v) h }"

definition zero_object :: "('t, 'm, 'l) meta_lib \<Rightarrow> ('t, 'm) object_val" where
  "zero_object lib = \<lparr>ov_type_meta = zero_type_meta lib, ov_object_meta = zero_object_meta lib,
     ov_spec = zero_spec, ov_status = zero_status\<rparr>"

text \<open>Every access through the receiver reads the store anew: \<open>out\<close> may be the receiver itself.\<close>

definition deep_copy_into :: "('t, 'm, 'l) meta_lib \<Rightarrow> place option \<Rightarrow> place option \<Rightarrow> ('t, 'm, 'l) go_heap \<Rightarrow>
    ('t, 'm, 'l) go_heap option" where
  "deep_copy_into lib src out h = (case src of None \<Rightarrow> Some h | Some p \<Rightarrow> (case out of None \<Rightarrow> Some h
     | Some q \<Rightarrow> do {
         v \<leftarrow> read_place h p;
         h1 \<leftarrow> write_place q v h;
         v1 \<leftarrow> read_place h1 p;
         h2 \<leftarrow> modify_place q (\<lambda>x. x\<lparr>ov_object_meta := copy_object_meta lib (ov_object_meta v1)\<rparr>) h1;
         v2 \<leftarrow> read_place h2 p;
         (specCopy, h3) \<leftarrow> deep_copy_spec (Some (ov_spec v2)) h2;
         h4 \<leftarrow> modify_place q (\<lambda>x. x\<lparr>ov_spec := specCopy\<rparr>) h3;
         v3 \<leftarrow> read_place h4 p;
         (statusCopy, h5) \<leftarrow> deep_copy_status (Some (ov_status v3)) h4;
         modify_place q (\<lambda>x. x\<lparr>ov_status := statusCopy\<rparr>) h5 }))"

definition deep_copy :: "('t, 'm, 'l) meta_lib \<Rightarrow> place option \<Rightarrow> ('t, 'm, 'l) go_heap \<Rightarrow>
    (place option \<times> ('t, 'm, 'l) go_heap) option" where
  "deep_copy lib src h = (case src of None \<Rightarrow> Some (None, h)
     | Some p \<Rightarrow>
         let (a, h1) = alloc (ObjectsCell [zero_object lib]) h
         in do {
           h2 \<leftarrow> deep_copy_into lib (Some p) (Some (a, 0)) h1;
           Some (Some (a, 0), h2) })"

definition deep_copy_object :: "('t, 'm, 'l) meta_lib \<Rightarrow> place option \<Rightarrow> ('t, 'm, 'l) go_heap \<Rightarrow>
    (place option \<times> ('t, 'm, 'l) go_heap) option" where
  "deep_copy_object lib src h = (case src of None \<Rightarrow> Some (None, h) | Some p \<Rightarrow> deep_copy lib (Some p) h)"

section \<open>The list\<close>

definition modify_list :: "addr \<Rightarrow> (('t, 'l) list_val \<Rightarrow> ('t, 'l) list_val) \<Rightarrow> ('t, 'm, 'l) go_heap \<Rightarrow>
    ('t, 'm, 'l) go_heap option" where
  "modify_list a f h = do { l \<leftarrow> fetch the_list h a; Some (store a (ListCell (f l)) h) }"

text \<open>\<open>&list.Items[index]\<close> of the list at an address.\<close>

definition item_place :: "addr \<Rightarrow> nat \<Rightarrow> ('t, 'm, 'l) go_heap \<Rightarrow> place option" where
  "item_place a i h = do {
     l \<leftarrow> fetch the_list h a;
     s \<leftarrow> lv_items l;
     if i < sl_len s then Some (sl_array s, sl_offset s + i) else None }"

fun copy_items :: "('t, 'm, 'l) meta_lib \<Rightarrow> addr \<Rightarrow> addr \<Rightarrow> nat list \<Rightarrow> ('t, 'm, 'l) go_heap \<Rightarrow>
    ('t, 'm, 'l) go_heap option" where
  "copy_items lib a b [] h = Some h"
| "copy_items lib a b (i # is) h = do {
     p \<leftarrow> item_place a i h;
     q \<leftarrow> item_place b i h;
     h1 \<leftarrow> deep_copy_into lib (Some p) (Some q) h;
     copy_items lib a b is h1 }"

definition items_len :: "('t, 'l) list_val \<Rightarrow> nat" where
  "items_len l = (case lv_items l of None \<Rightarrow> 0 | Some s \<Rightarrow> sl_len s)"

definition list_deep_copy_into :: "('t, 'm, 'l) meta_lib \<Rightarrow> addr option \<Rightarrow> addr option \<Rightarrow> ('t, 'm, 'l) go_heap \<Rightarrow>
    ('t, 'm, 'l) go_heap option" where
  "list_deep_copy_into lib src out h = (case src of None \<Rightarrow> Some h | Some a \<Rightarrow> (case out of None \<Rightarrow> Some h
     | Some b \<Rightarrow> do {
         l \<leftarrow> fetch the_list h a;
         h1 \<leftarrow> modify_list b (\<lambda>_. l) h;
         l1 \<leftarrow> fetch the_list h1 a;
         h2 \<leftarrow> modify_list b (\<lambda>x. x\<lparr>lv_list_meta := copy_list_meta lib (lv_list_meta l1)\<rparr>) h1;
         l2 \<leftarrow> fetch the_list h2 a;
         (if lv_items l2 = None then Some h2
          else
            let (arr, h3) = alloc (ObjectsCell (replicate (items_len l2) (zero_object lib))) h2
            in do {
              h4 \<leftarrow> modify_list b (\<lambda>x. x\<lparr>lv_items :=
                Some \<lparr>sl_array = arr, sl_offset = 0, sl_len = items_len l2\<rparr>\<rparr>) h3;
              l4 \<leftarrow> fetch the_list h4 a;
              copy_items lib a b [0..<items_len l4] h4 }) }))"

definition list_deep_copy :: "('t, 'm, 'l) meta_lib \<Rightarrow> addr option \<Rightarrow> ('t, 'm, 'l) go_heap \<Rightarrow>
    (addr option \<times> ('t, 'm, 'l) go_heap) option" where
  "list_deep_copy lib src h = (case src of None \<Rightarrow> Some (None, h)
     | Some a \<Rightarrow>
         let (b, h1) = alloc (ListCell \<lparr>lv_type_meta = zero_type_meta lib, lv_list_meta = zero_list_meta lib,
               lv_items = None\<rparr>) h
         in do {
           h2 \<leftarrow> list_deep_copy_into lib (Some a) (Some b) h1;
           Some (Some b, h2) })"

definition list_deep_copy_object :: "('t, 'm, 'l) meta_lib \<Rightarrow> addr option \<Rightarrow> ('t, 'm, 'l) go_heap \<Rightarrow>
    (addr option \<times> ('t, 'm, 'l) go_heap) option" where
  "list_deep_copy_object lib src h = (case src of None \<Rightarrow> Some (None, h) | Some a \<Rightarrow> list_deep_copy lib (Some a) h)"

section \<open>Writes to arrays of resources\<close>

text \<open>
  Specs and statuses are read without looking at arrays of resources, so writing into such an
  array changes none of them.
\<close>

lemma fetch_objects_store:
  assumes "fetch the_objects h b = Some ys"
  shows "fetch the_selector (store b (ObjectsCell zs) h) = fetch the_selector h"
    "fetch the_map (store b (ObjectsCell zs) h) = fetch the_map h"
    "fetch the_reqs (store b (ObjectsCell zs) h) = fetch the_reqs h"
    "fetch the_strings (store b (ObjectsCell zs) h) = fetch the_strings h"
    "fetch the_strategy (store b (ObjectsCell zs) h) = fetch the_strategy h"
    "fetch the_int32 (store b (ObjectsCell zs) h) = fetch the_int32 h"
    "fetch the_bool (store b (ObjectsCell zs) h) = fetch the_bool h"
    "fetch the_conditions (store b (ObjectsCell zs) h) = fetch the_conditions h"
    "fetch the_items (store b (ObjectsCell zs) h) = fetch the_items h"
    "fetch the_list (store b (ObjectsCell zs) h) = fetch the_list h"
proof -
  have "\<exists>xs. h_cells h b = Some (ObjectsCell xs)"
    using assms by (auto simp: fetch_def bind_eq_Some_conv elim: the_objects.elims)
  then show "fetch the_selector (store b (ObjectsCell zs) h) = fetch the_selector h"
    "fetch the_map (store b (ObjectsCell zs) h) = fetch the_map h"
    "fetch the_reqs (store b (ObjectsCell zs) h) = fetch the_reqs h"
    "fetch the_strings (store b (ObjectsCell zs) h) = fetch the_strings h"
    "fetch the_strategy (store b (ObjectsCell zs) h) = fetch the_strategy h"
    "fetch the_int32 (store b (ObjectsCell zs) h) = fetch the_int32 h"
    "fetch the_bool (store b (ObjectsCell zs) h) = fetch the_bool h"
    "fetch the_conditions (store b (ObjectsCell zs) h) = fetch the_conditions h"
    "fetch the_items (store b (ObjectsCell zs) h) = fetch the_items h"
    "fetch the_list (store b (ObjectsCell zs) h) = fetch the_list h"
    by (auto simp: fetch_def store_def fun_eq_iff)
qed

lemma read_store_objects:
  assumes "fetch the_objects h b = Some ys"
  shows "read_spec (store b (ObjectsCell zs) h) s = read_spec h s"
    "read_status (store b (ObjectsCell zs) h) t = read_status h t"
    "spec_own (store b (ObjectsCell zs) h) s = spec_own h s"
    "spec_values (store b (ObjectsCell zs) h) s = spec_values h s"
proof -
  note f = fetch_objects_store [OF assms]
  have req: "read_req (store b (ObjectsCell zs) h) = read_req h"
    by (rule ext) (simp only: read_req_def read_slice_def f)
  show "read_spec (store b (ObjectsCell zs) h) s = read_spec h s"
    by (simp only: read_spec_def read_selector_def read_strategy_def read_slice_def read_ptr_def req f)
  show "read_status (store b (ObjectsCell zs) h) t = read_status h t"
    by (simp only: read_status_def read_slice_def f)
  show "spec_own (store b (ObjectsCell zs) h) s = spec_own h s"
    by (simp only: spec_own_def selector_own_def strategy_own_def f)
  show "spec_values (store b (ObjectsCell zs) h) s = spec_values h s"
    by (simp only: spec_values_def selector_values_def read_slice_def f)
qed

text \<open>The store grows, and of the old cells only one array of resources changes.\<close>

definition grows_at :: "addr \<Rightarrow> ('t, 'm, 'l) go_heap \<Rightarrow> ('t, 'm, 'l) go_heap \<Rightarrow> bool" where
  "grows_at b h h' \<longleftrightarrow> heap_ok h' \<and> h_next h \<le> h_next h' \<and>
     (\<forall>a < h_next h. a \<noteq> b \<longrightarrow> h_cells h' a = h_cells h a) \<and>
     (\<exists>xs. h_cells h b = Some (ObjectsCell xs)) \<and> (\<exists>ys. h_cells h' b = Some (ObjectsCell ys))"

lemma fetch_objects_cell: "fetch the_objects h b = Some xs \<longleftrightarrow> h_cells h b = Some (ObjectsCell xs)"
  by (auto simp: fetch_def bind_eq_Some_conv elim: the_objects.elims)

lemma grows_at_reads:
  assumes g: "grows_at b h h'" and ok: "heap_ok h"
  shows "read_spec h s = Some v \<Longrightarrow> read_spec h' s = Some v"
    and "read_status h t = Some w \<Longrightarrow> read_status h' t = Some w"
    and "read_spec h s = Some v \<Longrightarrow> spec_own h' s = spec_own h s \<and> spec_values h' s = spec_values h s"
proof -
  obtain xs ys where cells: "h_cells h b = Some (ObjectsCell xs)" "h_cells h' b = Some (ObjectsCell ys)"
    using g by (auto simp: grows_at_def)
  let ?h = "store b (ObjectsCell xs) h'"
  have used: "b < h_next h" using ok cells(1) by (auto simp: heap_ok_def)
  have ext: "extends h ?h"
    using g cells used by (auto simp: grows_at_def extends_def store_def heap_ok_def)
  have restored: "read_spec ?h s = read_spec h' s" "read_status ?h t = read_status h' t"
    "spec_own ?h s = spec_own h' s" "spec_values ?h s = spec_values h' s" for s t
    using read_store_objects [of h' b ys] cells(2) by (simp_all add: fetch_objects_cell)
  show "read_spec h' s = Some v" if "read_spec h s = Some v"
    using read_spec_extends [OF ok ext that] by (simp add: restored)
  show "read_status h' t = Some w" if "read_status h t = Some w"
    using read_status_extends [OF ok ext that] by (simp add: restored)
  show "spec_own h' s = spec_own h s \<and> spec_values h' s = spec_values h s" if r: "read_spec h s = Some v"
  proof -
    note parts = r [unfolded read_spec_parts]
    have "spec_own ?h s = spec_own h s" "spec_values ?h s = spec_values h s"
      using selector_own_extends [OF ok ext] strategy_own_extends [OF ok ext] parts
      by (simp_all add: spec_own_def spec_values_def)
    then show ?thesis by (simp add: restored)
  qed
qed

lemma grows_at_trans:
  "grows_at b h1 h2 \<Longrightarrow> grows_at b h2 h3 \<Longrightarrow> grows_at b h1 h3"
  by (auto simp: grows_at_def)

lemma grows_at_extends:
  assumes "heap_ok h" "extends h h'" "fetch the_objects h b = Some ys"
  shows "grows_at b h h'" "fetch the_objects h' b = Some ys"
proof -
  show f: "fetch the_objects h' b = Some ys" by (rule fetch_extends [OF assms])
  show "grows_at b h h'" using assms(2,3) f by (auto simp: grows_at_def extends_def fetch_objects_cell)
qed

lemma read_place_extends:
  "heap_ok h \<Longrightarrow> extends h h' \<Longrightarrow> read_place h p = Some v \<Longrightarrow> read_place h' p = Some v"
  by (auto simp: read_place_def bind_eq_Some_conv fetch_extends split: if_splits)

lemma write_place_ok:
  assumes "heap_ok h" "fetch the_objects h b = Some ys" "j < length ys"
  obtains h' where "write_place (b, j) v h = Some h'" "grows_at b h h'" "fetch the_objects h' b = Some (ys[j := v])"
    "h_next h' = h_next h" "\<And>p u. read_place h p = Some u \<Longrightarrow> read_place h' p = Some (if p = (b, j) then v else u)"
proof
  let ?h' = "store b (ObjectsCell (ys[j := v])) h"
  show "write_place (b, j) v h = Some ?h'" using assms by (simp add: write_place_def)
  show "grows_at b h ?h'"
    using assms by (auto simp: grows_at_def heap_ok_def store_def fetch_objects_cell)
  show f: "fetch the_objects ?h' b = Some (ys[j := v])" by (rule objects.fetch_store_same)
  show "h_next ?h' = h_next h" by (simp add: store_def)
  show "read_place ?h' p = Some (if p = (b, j) then v else u)" if "read_place h p = Some u" for p u
    using that assms(2,3) f
    by (cases p; cases "fst p = b") (auto simp: read_place_def bind_eq_Some_conv fetch_store split: if_splits)
qed

lemma write_place_again:
  assumes "heap_ok h" "fetch the_objects h b = Some (ys[j := w])" "j < length ys"
  obtains h' where "write_place (b, j) v h = Some h'" "grows_at b h h'" "fetch the_objects h' b = Some (ys[j := v])"
    "h_next h' = h_next h" "\<And>p u. read_place h p = Some u \<Longrightarrow> read_place h' p = Some (if p = (b, j) then v else u)"
  using write_place_ok [OF assms(1,2), of j v] assms(3) by (metis length_list_update list_update_overwrite)

section \<open>DeepCopyInto\<close>

text \<open>\<open>v'\<close> in the later store is a deep copy of \<open>v\<close> in the earlier one.\<close>

definition copied :: "('t, 'm, 'l) meta_lib \<Rightarrow> ('t, 'm, 'l) go_heap \<Rightarrow> ('t, 'm) object_val \<Rightarrow> ('t, 'm, 'l) go_heap \<Rightarrow>
    ('t, 'm) object_val \<Rightarrow> bool" where
  "copied lib h v h' v' \<longleftrightarrow> ov_type_meta v' = ov_type_meta v \<and>
     ov_object_meta v' = copy_object_meta lib (ov_object_meta v) \<and>
     read_spec h' (ov_spec v') = read_spec h (ov_spec v) \<and>
     read_status h' (ov_status v') = read_status h (ov_status v) \<and>
     spec_own h' (ov_spec v') \<union> status_own (ov_status v') \<subseteq> new_addrs h h' \<and>
     spec_values h' (ov_spec v') = spec_values h (ov_spec v)"

definition readable :: "('t, 'm, 'l) go_heap \<Rightarrow> ('t, 'm) object_val \<Rightarrow> bool" where
  "readable h v \<longleftrightarrow> read_spec h (ov_spec v) \<noteq> None \<and> read_status h (ov_status v) \<noteq> None"

lemma deep_copy_into_ok:
  assumes ok: "heap_ok h" and p: "read_place h p = Some v" and r: "readable h v"
    and b: "fetch the_objects h b = Some ys" "j < length ys"
  obtains h' v' where "deep_copy_into lib (Some p) (Some (b, j)) h = Some h'" "grows_at b h h'"
    "fetch the_objects h' b = Some (ys[j := v'])" "copied lib h v h' v'"
proof -
  obtain sp st where sp: "read_spec h (ov_spec v) = Some sp" and st: "read_status h (ov_status v) = Some st"
    using r by (auto simp: readable_def)
  let ?q = "(b, j)"
  let ?w = "v\<lparr>ov_object_meta := copy_object_meta lib (ov_object_meta v)\<rparr>"
  obtain h1 where h1: "write_place ?q v h = Some h1" "grows_at b h h1" "fetch the_objects h1 b = Some (ys[j := v])"
      "h_next h1 = h_next h" "\<And>p u. read_place h p = Some u \<Longrightarrow> read_place h1 p = Some (if p = ?q then v else u)"
    using write_place_ok [OF ok b] by blast
  have p1: "read_place h1 p = Some v" using h1(5) [OF p] by simp
  have q1: "read_place h1 ?q = Some v" using h1(3) b(2) by (simp add: read_place_def)
  have ok1: "heap_ok h1" using h1(2) by (simp add: grows_at_def)
  obtain h2 where h2: "write_place ?q ?w h1 = Some h2" "grows_at b h1 h2" "fetch the_objects h2 b = Some (ys[j := ?w])"
      "h_next h2 = h_next h1" "\<And>p u. read_place h1 p = Some u \<Longrightarrow> read_place h2 p = Some (if p = ?q then ?w else u)"
    using write_place_again [OF ok1 h1(3) b(2)] by blast
  have p2: "read_place h2 p = Some (if p = ?q then ?w else v)" by (rule h2(5) [OF p1])
  have g2: "grows_at b h h2" by (rule grows_at_trans [OF h1(2) h2(2)])
  have ok2: "heap_ok h2" using h2(2) by (simp add: grows_at_def)
  obtain s' h3 where h3: "deep_copy_spec (Some (ov_spec v)) h2 = Some (s', h3)" "extends h2 h3" "read_spec h3 s' = Some sp"
      "spec_own h3 s' \<subseteq> new_addrs h2 h3" "spec_values h3 s' = spec_values h2 (ov_spec v)"
    using deep_copy_spec_ok [OF ok2 grows_at_reads(1) [OF g2 ok sp]] by blast
  note g3 = grows_at_extends [OF ok2 h3(2) h2(3)] and ok3 = extends_ok [OF h3(2)]
  have p3: "read_place h3 p = Some (if p = ?q then ?w else v)" by (rule read_place_extends [OF ok2 h3(2) p2])
  have q3: "read_place h3 ?q = Some ?w" using g3(2) b(2) by (simp add: read_place_def)
  obtain h4 where h4: "write_place ?q (?w\<lparr>ov_spec := s'\<rparr>) h3 = Some h4" "grows_at b h3 h4"
      "fetch the_objects h4 b = Some (ys[j := ?w\<lparr>ov_spec := s'\<rparr>])"
      "h_next h4 = h_next h3" "\<And>p u. read_place h3 p = Some u \<Longrightarrow> read_place h4 p = Some (if p = ?q then ?w\<lparr>ov_spec := s'\<rparr> else u)"
    using write_place_again [OF ok3 g3(2) b(2)] by blast
  have p4: "read_place h4 p = Some (if p = ?q then ?w\<lparr>ov_spec := s'\<rparr> else if p = ?q then ?w else v)"
    by (rule h4(5) [OF p3])
  have ok4: "heap_ok h4" using h4(2) by (simp add: grows_at_def)
  have g4: "grows_at b h h4" by (rule grows_at_trans [OF g2 grows_at_trans [OF g3(1) h4(2)]])
  obtain t' h5 where h5: "deep_copy_status (Some (ov_status v)) h4 = Some (t', h5)" "extends h4 h5"
      "read_status h5 t' = Some st" "status_own t' \<subseteq> new_addrs h4 h5"
    using deep_copy_status_ok [OF ok4 grows_at_reads(2) [OF g4 ok st]] by blast
  note g5 = grows_at_extends [OF ok4 h5(2) h4(3)] and ok5 = extends_ok [OF h5(2)]
  let ?v' = "?w\<lparr>ov_spec := s', ov_status := t'\<rparr>"
  have q5: "read_place h5 ?q = Some (?w\<lparr>ov_spec := s'\<rparr>)" using g5(2) b(2) by (simp add: read_place_def)
  obtain h6 where h6: "write_place ?q ?v' h5 = Some h6" "grows_at b h5 h6" "fetch the_objects h6 b = Some (ys[j := ?v'])"
      "h_next h6 = h_next h5"
    using write_place_again [OF ok5 g5(2) b(2)] by blast
  have run: "deep_copy_into lib (Some p) (Some ?q) h = Some h6"
    using p h1(1) p1 q1 h2(1) p2 h3(1) q3 h4(1) p4 h5(1) q5 h6(1)
    by (simp add: deep_copy_into_def modify_place_def split: if_splits)
  have g36: "grows_at b h3 h6" by (rule grows_at_trans [OF h4(2) grows_at_trans [OF g5(1) h6(2)]])
  have g6: "grows_at b h h6" by (rule grows_at_trans [OF g2 grows_at_trans [OF g3(1) g36]])
  have le: "h_next h \<le> h_next h2" "h_next h2 \<le> h_next h3" "h_next h3 = h_next h4" "h_next h4 \<le> h_next h5" "h_next h5 = h_next h6"
    using h1(4) h2(4) h3(2) h4(4) h5(2) h6(4) by (simp_all add: extends_def)
  have "copied lib h v h6 ?v'"
    using grows_at_reads [OF g36 ok3] grows_at_reads(3) [OF g2 ok sp] grows_at_reads(2) [OF h6(2) ok5 h5(3)] h3(3,4,5) h5(4) sp st le
    by (auto simp: copied_def new_addrs_def)
  with run g6 h6(3) show thesis by (rule that)
qed

lemma copied_before:
  assumes "copied lib h1 v h' v'" "h_next h \<le> h_next h1"
    "read_spec h1 (ov_spec v) = read_spec h (ov_spec v)" "read_status h1 (ov_status v) = read_status h (ov_status v)"
    "spec_values h1 (ov_spec v) = spec_values h (ov_spec v)"
  shows "copied lib h v h' v'"
  using assms by (auto simp: copied_def new_addrs_def)

lemma copied_after:
  assumes "copied lib h v h1 v'" "readable h v" "grows_at b h1 h'" "heap_ok h1"
  shows "copied lib h v h' v'"
proof -
  obtain sp st where r: "read_spec h1 (ov_spec v') = Some sp" "read_status h1 (ov_status v') = Some st"
    using assms(1,2) by (auto simp: copied_def readable_def)
  from assms(1) r grows_at_reads(1,3) [OF assms(3,4) r(1)] grows_at_reads(2) [OF assms(3,4) r(2)] assms(3)
  show ?thesis by (auto simp: copied_def new_addrs_def grows_at_def)
qed

lemma readable_extends:
  assumes "heap_ok h" "extends h h'" "readable h v"
  shows "read_spec h' (ov_spec v) = read_spec h (ov_spec v)" "read_status h' (ov_status v) = read_status h (ov_status v)"
    "spec_values h' (ov_spec v) = spec_values h (ov_spec v)" "readable h' v"
proof -
  obtain sp st where r: "read_spec h (ov_spec v) = Some sp" "read_status h (ov_status v) = Some st"
    using assms(3) by (auto simp: readable_def)
  note e = read_spec_extends [OF assms(1,2) r(1)] read_status_extends [OF assms(1,2) r(2)]
  show "read_spec h' (ov_spec v) = read_spec h (ov_spec v)" "read_status h' (ov_status v) = read_status h (ov_status v)"
    "readable h' v" using r e by (simp_all add: readable_def)
  show "spec_values h' (ov_spec v) = spec_values h (ov_spec v)"
    using r(1) selector_own_extends(2) [OF assms(1,2)] by (simp add: spec_values_def read_spec_parts)
qed

lemma readable_grows:
  assumes "heap_ok h" "grows_at b h h'" "readable h v"
  shows "read_spec h' (ov_spec v) = read_spec h (ov_spec v)" "read_status h' (ov_status v) = read_status h (ov_status v)"
    "spec_values h' (ov_spec v) = spec_values h (ov_spec v)" "readable h' v"
proof -
  obtain sp st where r: "read_spec h (ov_spec v) = Some sp" "read_status h (ov_status v) = Some st"
    using assms(3) by (auto simp: readable_def)
  from r grows_at_reads(1,3) [OF assms(2,1) r(1)] grows_at_reads(2) [OF assms(2,1) r(2)]
  show "read_spec h' (ov_spec v) = read_spec h (ov_spec v)" "read_status h' (ov_status v) = read_status h (ov_status v)"
    "spec_values h' (ov_spec v) = spec_values h (ov_spec v)" "readable h' v"
    by (simp_all add: readable_def)
qed

lemma deep_copy_ok:
  assumes ok: "heap_ok h" and p: "read_place h p = Some v" and r: "readable h v"
  obtains h' v' where "deep_copy lib (Some p) h = Some (Some (h_next h, 0), h')" "extends h h'"
    "read_place h' (h_next h, 0) = Some v'" "copied lib h v h' v'"
proof -
  obtain a h1 where al: "alloc (ObjectsCell [zero_object lib]) h = (a, h1)" by fastforce
  note x = extends_alloc [OF ok al]
  have e: "extends h h1" and a: "a = h_next h" and n: "h_next h1 = Suc a" using x by auto
  note ok1 = extends_ok [OF e] and keep = readable_extends [OF ok e r]
  obtain h' v' where run: "deep_copy_into lib (Some p) (Some (a, 0)) h1 = Some h'" "grows_at a h1 h'"
      "fetch the_objects h' a = Some ([zero_object lib][0 := v'])" "copied lib h1 v h' v'"
    using deep_copy_into_ok [OF ok1 read_place_extends [OF ok e p] keep(4) objects.fetch_alloc [OF al], of 0] by auto
  show thesis
  proof (rule that [of h' v'])
    show "deep_copy lib (Some p) h = Some (Some (h_next h, 0), h')"
      using al run(1) a by (simp add: deep_copy_def)
    show "extends h h'" using e run(2) a n by (auto simp: extends_def grows_at_def)
    show "read_place h' (h_next h, 0) = Some v'" using run(3) a by (simp add: read_place_def)
    show "copied lib h v h' v'" by (rule copied_before [OF run(4) _ keep(1-3)]) (use a n in simp)
  qed
qed

section \<open>Lists\<close>

lemma fetch_list_grows: "grows_at b h h' \<Longrightarrow> heap_ok h \<Longrightarrow> fetch the_list h a = Some l \<Longrightarrow> fetch the_list h' a = Some l"
  using fetch_used [of h the_list a l] by (cases "a = b") (auto simp: grows_at_def fetch_def)

lemma fetch_objects_grows:
  "grows_at b h h' \<Longrightarrow> heap_ok h \<Longrightarrow> a \<noteq> b \<Longrightarrow> fetch the_objects h a = Some xs \<Longrightarrow> fetch the_objects h' a = Some xs"
  using fetch_used [of h the_objects a xs] by (auto simp: grows_at_def fetch_def)

lemma copy_items_ok:
  assumes "heap_ok h" "fetch the_list h a = Some la" "lv_items la = Some sa" "sl_len sa = n"
    "fetch the_list h b = Some lb" "lv_items lb = Some \<lparr>sl_array = arr, sl_offset = 0, sl_len = n\<rparr>"
    "fetch the_objects h (sl_array sa) = Some xs" "sl_offset sa + n \<le> length xs" "sl_array sa \<noteq> arr"
    "fetch the_objects h arr = Some ys" "length ys = n" "k \<le> n"
    "\<And>i. k \<le> i \<Longrightarrow> i < n \<Longrightarrow> readable h (xs ! (sl_offset sa + i))"
  shows "\<exists>h' ys'. copy_items lib a b [k..<n] h = Some h' \<and> (k = n \<and> h' = h \<or> grows_at arr h h') \<and>
    fetch the_objects h' arr = Some ys' \<and> length ys' = n \<and> (\<forall>i < k. ys' ! i = ys ! i) \<and>
    (\<forall>i. k \<le> i \<and> i < n \<longrightarrow> copied lib h (xs ! (sl_offset sa + i)) h' (ys' ! i))"
  using assms
proof (induction "n - k" arbitrary: h k ys)
  case 0
  then have "k = n" by simp
  with "0.prems"(10,11) show ?case by (intro exI [of _ h] exI [of _ ys]) auto
next
  case (Suc m)
  let ?v = "xs ! (sl_offset sa + k)"
  have k: "k < n" using Suc.hyps(2) by simp
  have places: "item_place a k h = Some (sl_array sa, sl_offset sa + k)" "item_place b k h = Some (arr, k)"
    using Suc.prems k by (simp_all add: item_place_def)
  have p: "read_place h (sl_array sa, sl_offset sa + k) = Some ?v" using Suc.prems k by (simp add: read_place_def)
  have r: "readable h ?v" using Suc.prems(13) k by simp
  obtain h1 v' where one: "deep_copy_into lib (Some (sl_array sa, sl_offset sa + k)) (Some (arr, k)) h = Some h1"
      "grows_at arr h h1" "fetch the_objects h1 arr = Some (ys[k := v'])" "copied lib h ?v h1 v'"
    using deep_copy_into_ok [OF Suc.prems(1) p r Suc.prems(10), of k lib] Suc.prems(11) k by blast
  have ok1: "heap_ok h1" using one(2) by (simp add: grows_at_def)
  note keep = readable_grows [OF Suc.prems(1) one(2)]
  have "\<exists>h' ys'. copy_items lib a b [Suc k..<n] h1 = Some h' \<and> (Suc k = n \<and> h' = h1 \<or> grows_at arr h1 h') \<and>
    fetch the_objects h' arr = Some ys' \<and> length ys' = n \<and> (\<forall>i < Suc k. ys' ! i = ys[k := v'] ! i) \<and>
    (\<forall>i. Suc k \<le> i \<and> i < n \<longrightarrow> copied lib h1 (xs ! (sl_offset sa + i)) h' (ys' ! i))"
  proof (rule Suc.hyps(1))
    show "m = n - Suc k" using Suc.hyps(2) by simp
    show "fetch the_list h1 a = Some la" "fetch the_list h1 b = Some lb"
      using fetch_list_grows [OF one(2) Suc.prems(1)] Suc.prems(2,5) by simp_all
    show "fetch the_objects h1 (sl_array sa) = Some xs"
      by (rule fetch_objects_grows [OF one(2) Suc.prems(1,9,7)])
    show "readable h1 (xs ! (sl_offset sa + i))" if "Suc k \<le> i" "i < n" for i
      using keep(4) Suc.prems(13) that by simp
  qed (use Suc.prems ok1 one(3) k in simp_all)
  then obtain h' ys' where rest: "copy_items lib a b [Suc k..<n] h1 = Some h'"
      "Suc k = n \<and> h' = h1 \<or> grows_at arr h1 h'"
      "fetch the_objects h' arr = Some ys'" "length ys' = n" "\<forall>i < Suc k. ys' ! i = ys[k := v'] ! i"
      "\<forall>i. Suc k \<le> i \<and> i < n \<longrightarrow> copied lib h1 (xs ! (sl_offset sa + i)) h' (ys' ! i)"
    by blast
  have "copied lib h (xs ! (sl_offset sa + i)) h' (ys' ! i)" if i: "k \<le> i" "i < n" for i
  proof (cases "i = k")
    case True
    have "ys' ! k = v'" using rest(5) Suc.prems(11) k by simp
    moreover have "copied lib h ?v h' v'" using rest(2) one(4) copied_after [OF one(4) r _ ok1] by auto
    ultimately show ?thesis using True by simp
  next
    case False
    then have "copied lib h1 (xs ! (sl_offset sa + i)) h' (ys' ! i)" using rest(6) i by simp
    moreover have "readable h (xs ! (sl_offset sa + i))" using Suc.prems(13) i by simp
    ultimately show ?thesis
      using copied_before [OF _ _ keep(1-3)] one(2) by (simp add: grows_at_def)
  qed
  moreover have "grows_at arr h h'" using rest(2) one(2) grows_at_trans by blast
  moreover have "copy_items lib a b [k..<n] h = Some h'"
    using places one(1) rest(1) k by (simp add: upt_conv_Cons)
  moreover have "\<forall>i < k. ys' ! i = ys ! i" using rest(5) by simp
  ultimately show ?case using rest(3,4) by blast
qed

text \<open>A store into a cell that is not in use before, seen from the cells that are.\<close>

lemma extends_store:
  assumes "heap_ok h" "extends h h1" "h_next h \<le> b" "b < h_next h1"
  shows "extends h (store b c h1)"
  using assms by (auto simp: extends_def store_def heap_ok_def)

lemma extends_grows_new:
  assumes "extends h h1" "grows_at b h1 h2" "h_next h \<le> b"
  shows "extends h h2"
  using assms by (auto simp: extends_def grows_at_def)

lemma h_next_store [simp]: "h_next (store b c h) = h_next h"
  by (simp add: store_def)

lemma list_deep_copy_ok:
  assumes ok: "heap_ok h" and l: "fetch the_list h a = Some l" "lv_items l = Some s"
    and vs: "read_slice the_objects h (Some s) = Some vs" and r: "\<And>v. v \<in> set vs \<Longrightarrow> readable h v"
  obtains b arr h' vs' where "list_deep_copy lib (Some a) h = Some (Some b, h')" "extends h h'"
    "fetch the_list h' b = Some (l\<lparr>lv_list_meta := copy_list_meta lib (lv_list_meta l),
       lv_items := Some \<lparr>sl_array = arr, sl_offset = 0, sl_len = length vs\<rparr>\<rparr>)"
    "fetch the_objects h' arr = Some vs'" "list_all2 (\<lambda>v v'. copied lib h v h' v') vs vs'"
    "h_next h \<le> b" "h_next h \<le> arr"
proof -
  obtain xs where xs: "fetch the_objects h (sl_array s) = Some xs" "sl_offset s + sl_len s \<le> length xs"
      "vs = take (sl_len s) (drop (sl_offset s) xs)"
    using vs by (auto simp: read_slice_def bind_eq_Some_conv split: if_splits)
  have len: "length vs = sl_len s" and nth: "\<And>i. i < sl_len s \<Longrightarrow> vs ! i = xs ! (sl_offset s + i)"
    using xs(2,3) by auto
  let ?n = "sl_len s"
  obtain b h1 where al: "alloc (ListCell \<lparr>lv_type_meta = zero_type_meta lib, lv_list_meta = zero_list_meta lib,
      lv_items = None\<rparr>) h = (b, h1)" by fastforce
  note x1 = extends_alloc [OF ok al]
  have ab: "a \<noteq> b" "b = h_next h" "h_next h1 = Suc b" using x1 fetch_used [OF ok l(1)] by auto
  let ?l1 = "l\<lparr>lv_list_meta := copy_list_meta lib (lv_list_meta l)\<rparr>"
  let ?h2 = "store b (ListCell l) h1" and ?h3 = "store b (ListCell ?l1) (store b (ListCell l) h1)"
  have e3: "extends h ?h3"
    using x1 ab by (intro extends_store [OF ok]) simp_all
  have e2: "extends h ?h2" using x1 ab by (intro extends_store [OF ok]) simp_all
  obtain arr h4 where al4: "alloc (ObjectsCell (replicate ?n (zero_object lib))) ?h3 = (arr, h4)" by fastforce
  note x4 = extends_alloc [OF extends_ok [OF e3] al4]
  have arr: "arr = Suc b" "h_next h4 = Suc arr" using x4 ab by auto
  let ?l2 = "?l1\<lparr>lv_items := Some \<lparr>sl_array = arr, sl_offset = 0, sl_len = ?n\<rparr>\<rparr>"
  let ?h5 = "store b (ListCell ?l2) h4"
  have e4: "extends h h4" using extends_trans [OF e3] x4 by blast
  have e5: "extends h ?h5" using e4 ab arr by (intro extends_store [OF ok]) simp_all
  have lb: "fetch the_list h1 b = Some \<lparr>lv_type_meta = zero_type_meta lib, lv_list_meta = zero_list_meta lib, lv_items = None\<rparr>"
    by (rule lists.fetch_alloc [OF al])
  have lb3: "fetch the_list ?h3 b = Some ?l1" "fetch the_list ?h2 b = Some l" "fetch the_list ?h5 b = Some ?l2"
    by (rule lists.fetch_store_same)+
  have lb4: "fetch the_list h4 b = Some ?l1" by (rule fetch_extends [OF extends_ok [OF e3] conjunct1 [OF x4] lb3(1)])
  have la: "fetch the_list h1 a = Some l" "fetch the_list ?h2 a = Some l" "fetch the_list ?h3 a = Some l"
    "fetch the_list ?h5 a = Some l"
    using fetch_extends [OF ok _ l(1)] x1 e2 e3 e5 by blast+
  have zeros: "fetch the_objects ?h5 arr = Some (replicate ?n (zero_object lib))"
    using objects.fetch_alloc [OF al4] arr by (simp add: fetch_store)
  have arr_s: "sl_array s \<noteq> arr" using fetch_used [OF ok xs(1)] ab arr by simp
  have read5: "readable ?h5 (xs ! (sl_offset s + i))" if "i < ?n" for i
    using readable_extends(4) [OF ok e5] r nth [OF that] len that by (metis nth_mem)
  obtain h' vs' where run: "copy_items lib a b [0..<?n] ?h5 = Some h'" "0 = ?n \<and> h' = ?h5 \<or> grows_at arr ?h5 h'"
      "fetch the_objects h' arr = Some vs'" "length vs' = ?n"
      "\<forall>i < ?n. copied lib ?h5 (xs ! (sl_offset s + i)) h' (vs' ! i)"
    using copy_items_ok [OF extends_ok [OF e5] la(4) l(2) refl lb3(3) _ fetch_extends [OF ok e5 xs(1)] xs(2) arr_s zeros, of 0 lib] read5
    by auto
  have e': "extends h h'" using run(2) e5 extends_grows_new [OF e5] ab arr by auto
  have ok5: "heap_ok ?h5" by (rule extends_ok [OF e5])
  show thesis
  proof (rule that [of b h' arr vs'])
    show "list_deep_copy lib (Some a) h = Some (Some b, h')"
      using al la lb lb3 lb4 l(2) al4 run(1)
      by (simp add: list_deep_copy_def list_deep_copy_into_def modify_list_def items_len_def)
    show "extends h h'" by (rule e')
    show "fetch the_list h' b = Some (l\<lparr>lv_list_meta := copy_list_meta lib (lv_list_meta l),
       lv_items := Some \<lparr>sl_array = arr, sl_offset = 0, sl_len = length vs\<rparr>\<rparr>)"
      using run(2) lb3(3) fetch_list_grows [OF _ ok5 lb3(3)] len by auto
    show "fetch the_objects h' arr = Some vs'" by (rule run(3))
    show "list_all2 (\<lambda>v v'. copied lib h v h' v') vs vs'"
    proof (rule list_all2_all_nthI)
      show "length vs = length vs'" using len run(4) by simp
      fix i assume "i < length vs"
      then have i: "i < ?n" "readable h (vs ! i)" using len r by simp_all
      note keep = readable_extends [OF ok e5 i(2)]
      have "copied lib ?h5 (vs ! i) h' (vs' ! i)" using run(5) i(1) nth [OF i(1)] by simp
      then show "copied lib h (vs ! i) h' (vs' ! i)"
        by (rule copied_before [OF _ _ keep(1-3)]) (use ab arr in simp)
    qed
    show "h_next h \<le> b" "h_next h \<le> arr" using ab arr by simp_all
  qed
qed

section \<open>Properties\<close>

lemma status_used:
  assumes "heap_ok h" "read_status h s = Some v"
  shows "status_own s \<subseteq> {..< h_next h}"
  using assms(2) unfolding read_status_parts status_own_def
  by (auto dest!: read_slice_addrs_used [OF assms(1)])

text \<open>A resource whose selector has one requirement, with the values in an array of their own.\<close>

definition ex_meta :: "(string, string, string) meta_lib" where
  "ex_meta = \<lparr>zero_type_meta = [], zero_object_meta = [], zero_list_meta = [],
     copy_object_meta = (\<lambda>m. m), copy_list_meta = (\<lambda>m. m)\<rparr>"

definition ex_object :: "(string, string) object_val" where
  "ex_object = \<lparr>ov_type_meta = ''ConfigPropagation'', ov_object_meta = ''cp'',
     ov_spec = zero_spec\<lparr>sv_namespace_selector := Some 1\<rparr>, ov_status = zero_status\<rparr>"

definition ex_store :: "(string, string, string) go_heap" where
  "ex_store = \<lparr>h_cells = [0 \<mapsto> ObjectsCell [ex_object],
     1 \<mapsto> SelectorCell \<lparr>slv_match_labels = None, slv_match_expressions = Some \<lparr>sl_array = 2, sl_offset = 0, sl_len = 1\<rparr>\<rparr>,
     2 \<mapsto> ReqsCell [\<lparr>rv_key = ''env'', rv_operator = ''In'', rv_values = Some \<lparr>sl_array = 3, sl_offset = 0, sl_len = 1\<rparr>\<rparr>],
     3 \<mapsto> StringsCell [''prod''],
     4 \<mapsto> ListCell \<lparr>lv_type_meta = ''List'', lv_list_meta = ''rv'', lv_items = Some \<lparr>sl_array = 0, sl_offset = 0, sl_len = 1\<rparr>\<rparr>],
     h_next = 5\<rparr>"

lemma ex_store_ok: "heap_ok ex_store"
  by (auto simp: heap_ok_def ex_store_def split: if_splits)

lemma ex_store_read:
  "read_place ex_store (0, 0) = Some ex_object"
  "read_spec ex_store (ov_spec ex_object) = Some \<lparr>sp_source_ref = \<lparr>ref_namespace = [], ref_name = []\<rparr>,
     sp_namespace_selector = Some \<lparr>ls_match_labels = None,
       ls_match_expressions = [\<lparr>lsr_key = ''env'', lsr_operator = ''In'', lsr_values = [''prod'']\<rparr>]\<rparr>,
     sp_data_keys = [], sp_strategy = None, sp_conflict_policy = [], sp_prune = None, sp_resync_period_seconds = None\<rparr>"
  "readable ex_store ex_object"
  by (simp_all add: ex_store_def ex_object_def readable_def read_place_def fetch_def read_spec_def read_status_def
      read_selector_def read_strategy_def read_ptr_def read_slice_def read_req_def zero_spec_def zero_status_def)

text \<open>C27. A deep copy is a fresh resource with the same type, spec and status: DeepCopy of a resource
  whose memory is intact returns, it changes no cell in use before, the copy is at a new address,
  its type is the original's, reading its spec and its status gives what reading the original's
  gave, and its metadata is whatever apimachinery's ObjectMeta.DeepCopyInto, a parameter of the
  model, makes of the original's.\<close>

theorem deep_copy_same_value:
  assumes "heap_ok h" and "read_place h p = Some v" and "readable h v"
  shows "\<exists>q h' v'. deep_copy lib (Some p) h = Some (Some q, h') \<and> h_next h \<le> fst q \<and> read_place h' q = Some v' \<and>
    ov_type_meta v' = ov_type_meta v \<and> ov_object_meta v' = copy_object_meta lib (ov_object_meta v) \<and>
    read_spec h' (ov_spec v') = read_spec h (ov_spec v) \<and>
    read_status h' (ov_status v') = read_status h (ov_status v) \<and>
    (\<forall>a. a < h_next h \<longrightarrow> h_cells h' a = h_cells h a)"
proof -
  obtain h' v' where "deep_copy lib (Some p) h = Some (Some (h_next h, 0), h')" "extends h h'"
    "read_place h' (h_next h, 0) = Some v'" "copied lib h v h' v'"
    using deep_copy_ok [OF assms] by blast
  then show ?thesis
    by (intro exI [of _ "(h_next h, 0)"] exI [of _ h'] exI [of _ v']) (simp add: copied_def extends_def)
qed

theorem deep_copy_same_value_witness:
  "\<exists>q h' v'. deep_copy ex_meta (Some (0, 0)) ex_store = Some (Some q, h') \<and> 5 \<le> fst q \<and> read_place h' q = Some v' \<and>
     ov_object_meta v' = ''cp'' \<and> read_spec h' (ov_spec v') = read_spec ex_store (ov_spec ex_object)"
  using deep_copy_same_value [OF ex_store_ok ex_store_read(1,3), of ex_meta]
  by (auto simp: ex_store_def ex_meta_def ex_object_def)

text \<open>C28. The copy and the original do not share memory, except for the elements of the values of
  the selector's requirements: a write to any cell that the copy owns leaves the value of the
  original as it was, and a write to a cell of the original other than such an array leaves the
  value of the copy as it was.\<close>

theorem deep_copy_isolated:
  assumes "heap_ok h" and "read_place h p = Some v" and "readable h v"
    and "deep_copy lib (Some p) h = Some (Some q, h')" and "read_place h' q = Some v'"
  shows "(x \<in> insert (fst q) (spec_own h' (ov_spec v') \<union> status_own (ov_status v')) \<longrightarrow>
      read_place (store x c h') p = Some v \<and>
      read_spec (store x c h') (ov_spec v) = read_spec h (ov_spec v) \<and>
      read_status (store x c h') (ov_status v) = read_status h (ov_status v)) \<and>
    (x \<in> spec_own h (ov_spec v) \<union> status_own (ov_status v) - spec_values h (ov_spec v) \<longrightarrow>
      read_place (store x c h') q = Some v' \<and>
      read_spec (store x c h') (ov_spec v') = read_spec h (ov_spec v) \<and>
      read_status (store x c h') (ov_status v') = read_status h (ov_status v))"
proof -
  obtain h1 v1 where "deep_copy lib (Some p) h = Some (Some (h_next h, 0), h1)" "extends h h1"
    "read_place h1 (h_next h, 0) = Some v1" "copied lib h v h1 v1"
    using deep_copy_ok [OF assms(1-3)] by blast
  with assms(4,5) have q: "fst q = h_next h" and e: "extends h h'" and cp: "copied lib h v h' v'" by auto
  obtain sp st where r: "read_spec h (ov_spec v) = Some sp" "read_status h (ov_status v) = Some st"
    using assms(3) by (auto simp: readable_def)
  note keep = readable_extends [OF assms(1) e assms(3)]
  note used = spec_used [OF assms(1) r(1)] status_used [OF assms(1) r(2)]
  have own: "spec_own h' (ov_spec v) = spec_own h (ov_spec v)"
    using r(1) selector_own_extends(1) [OF assms(1) e] strategy_own_extends [OF assms(1) e]
    by (simp add: spec_own_def read_spec_parts)
  have fstp: "fst p < h_next h" using assms(1,2) by (auto simp: read_place_def bind_eq_Some_conv dest: fetch_used)
  have p': "read_place h' p = Some v" by (rule read_place_extends [OF assms(1) e assms(2)])
  have new: "read_place (store x c h') p = Some v \<and> read_spec (store x c h') (ov_spec v) = read_spec h (ov_spec v) \<and>
      read_status (store x c h') (ov_status v) = read_status h (ov_status v)" if "h_next h \<le> x"
  proof -
    have "x \<notin> spec_own h' (ov_spec v)" "x \<notin> spec_values h' (ov_spec v)" "x \<notin> status_own (ov_status v)"
      using that used by (auto simp: own keep(3))
    then show ?thesis
      using that fstp p' keep(1,2) by (simp add: read_spec_store read_status_store read_place_def fetch_store)
  qed
  have old: "read_place (store x c h') q = Some v' \<and> read_spec (store x c h') (ov_spec v') = read_spec h (ov_spec v) \<and>
      read_status (store x c h') (ov_status v') = read_status h (ov_status v)"
    if "x < h_next h" "x \<notin> spec_values h (ov_spec v)"
  proof -
    have "x \<notin> spec_own h' (ov_spec v')" "x \<notin> spec_values h' (ov_spec v')" "x \<notin> status_own (ov_status v')"
      using that cp by (auto simp: copied_def new_addrs_def)
    then show ?thesis
      using that q assms(5) cp by (simp add: read_spec_store read_status_store read_place_def fetch_store copied_def)
  qed
  show ?thesis
  proof (intro conjI impI)
    assume "x \<in> insert (fst q) (spec_own h' (ov_spec v') \<union> status_own (ov_status v'))"
    then have "h_next h \<le> x" using q cp by (auto simp: copied_def new_addrs_def)
    from new [OF this] show "read_place (store x c h') p = Some v" "read_spec (store x c h') (ov_spec v) = read_spec h (ov_spec v)"
      "read_status (store x c h') (ov_status v) = read_status h (ov_status v)" by simp_all
  next
    assume "x \<in> spec_own h (ov_spec v) \<union> status_own (ov_status v) - spec_values h (ov_spec v)"
    then have "x < h_next h" "x \<notin> spec_values h (ov_spec v)" using used by auto
    from old [OF this] show "read_place (store x c h') q = Some v'" "read_spec (store x c h') (ov_spec v') = read_spec h (ov_spec v)"
      "read_status (store x c h') (ov_status v') = read_status h (ov_status v)" by simp_all
  qed
qed

theorem deep_copy_isolated_witness:
  "\<exists>q h'. deep_copy ex_meta (Some (0, 0)) ex_store = Some (Some q, h') \<and>
     read_spec (store (fst q) (StringsCell []) h') (ov_spec ex_object) = read_spec ex_store (ov_spec ex_object)"
proof -
  obtain h' v' where copy: "deep_copy ex_meta (Some (0, 0)) ex_store = Some (Some (h_next ex_store, 0), h')"
      "read_place h' (h_next ex_store, 0) = Some v'"
    using deep_copy_ok [OF ex_store_ok ex_store_read(1,3)] by blast
  from deep_copy_isolated [OF ex_store_ok ex_store_read(1,3) copy, of "h_next ex_store" "StringsCell []"] copy(1)
  show ?thesis by (intro exI [of _ "(h_next ex_store, 0)"] exI [of _ h']) simp
qed

text \<open>C39. The exception is real: the requirements of the selector are copied with their slice headers,
  so the arrays of their values are the original's. There are a resource and its deep copy such
  that replacing the elements of a values slice reached from the copy changes the value of the
  original.\<close>

theorem deep_copy_shares_values:
  "\<exists>(h :: (string, string, string) go_heap) p v q h' v' a.
     heap_ok h \<and> read_place h p = Some v \<and> readable h v \<and>
     deep_copy ex_meta (Some p) h = Some (Some q, h') \<and> read_place h' q = Some v' \<and>
     a \<in> spec_values h' (ov_spec v') \<and>
     read_spec (store a (StringsCell [''dev'']) h') (ov_spec v) \<noteq> read_spec h (ov_spec v)"
proof -
  obtain h' v' where copy: "deep_copy ex_meta (Some (0, 0)) ex_store = Some (Some (h_next ex_store, 0), h')"
      "extends ex_store h'" "read_place h' (h_next ex_store, 0) = Some v'" "copied ex_meta ex_store ex_object h' v'"
    using deep_copy_ok [OF ex_store_ok ex_store_read(1,3)] by blast
  have "spec_values ex_store (ov_spec ex_object) = {3}"
    by (simp add: spec_values_def selector_values_def ex_object_def ex_store_def fetch_def read_slice_def slice_addrs_def)
  then have shared: "3 \<in> spec_values h' (ov_spec v')" using copy(4) by (simp add: copied_def)
  have cells: "h_cells h' 1 = h_cells ex_store 1" "h_cells h' 2 = h_cells ex_store 2"
    using copy(2) by (simp_all add: extends_def ex_store_def)
  have "read_spec (store 3 (StringsCell [''dev'']) h') (ov_spec ex_object) \<noteq> read_spec ex_store (ov_spec ex_object)"
    unfolding ex_store_read(2) using cells
    by (simp add: read_spec_def ex_object_def zero_spec_def read_selector_def fetch_def store_def ex_store_def
        read_ptr_def read_slice_def read_req_def read_strategy_def)
  with copy(1,3) shared ex_store_ok ex_store_read(1,3) show ?thesis by blast
qed

text \<open>C38. DeepCopy of a list copies every item: the copy is a list at a new address with the type and
  the copied metadata of the original, its items are in a new array, as many and in the same
  order, each of them a deep copy of its original, and no cell in use before is changed.\<close>

theorem list_deep_copy_items:
  assumes "heap_ok h" and "fetch the_list h a = Some l" and "lv_items l = Some s"
    and "read_slice the_objects h (Some s) = Some vs" and "\<And>v. v \<in> set vs \<Longrightarrow> readable h v"
  shows "\<exists>b arr h' vs'. list_deep_copy lib (Some a) h = Some (Some b, h') \<and>
    fetch the_list h' b = Some (l\<lparr>lv_list_meta := copy_list_meta lib (lv_list_meta l),
       lv_items := Some \<lparr>sl_array = arr, sl_offset = 0, sl_len = length vs\<rparr>\<rparr>) \<and>
    fetch the_objects h' arr = Some vs' \<and>
    list_all2 (\<lambda>v v'. copied lib h v h' v') vs vs' \<and>
    h_next h \<le> b \<and> h_next h \<le> arr \<and> (\<forall>x. x < h_next h \<longrightarrow> h_cells h' x = h_cells h x)"
proof (rule list_deep_copy_ok [OF assms])
  fix b arr h' vs'
  assume copy: "list_deep_copy lib (Some a) h = Some (Some b, h')" "extends h h'"
    "fetch the_list h' b = Some (l\<lparr>lv_list_meta := copy_list_meta lib (lv_list_meta l),
       lv_items := Some \<lparr>sl_array = arr, sl_offset = 0, sl_len = length vs\<rparr>\<rparr>)"
    "fetch the_objects h' arr = Some vs'" "list_all2 (\<lambda>v v'. copied lib h v h' v') vs vs'"
    "h_next h \<le> b" "h_next h \<le> arr"
  from copy(2) have "\<forall>x. x < h_next h \<longrightarrow> h_cells h' x = h_cells h x" by (simp add: extends_def)
  with copy(1,3-7) show ?thesis by (intro exI [of _ b] exI [of _ arr] exI [of _ h'] exI [of _ vs'] conjI)
qed

theorem list_deep_copy_items_witness:
  "\<exists>b arr h' v'. list_deep_copy ex_meta (Some 4) ex_store = Some (Some b, h') \<and>
     fetch the_objects h' arr = Some [v'] \<and> copied ex_meta ex_store ex_object h' v' \<and> 5 \<le> arr"
proof -
  have "fetch the_list ex_store 4 = Some \<lparr>lv_type_meta = ''List'', lv_list_meta = ''rv'',
      lv_items = Some \<lparr>sl_array = 0, sl_offset = 0, sl_len = 1\<rparr>\<rparr>"
    "read_slice the_objects ex_store (Some \<lparr>sl_array = 0, sl_offset = 0, sl_len = 1\<rparr>) = Some [ex_object]"
    by (simp_all add: fetch_def read_slice_def ex_store_def)
  from list_deep_copy_items [OF ex_store_ok this(1) _ this(2), of ex_meta, simplified]
  have "\<exists>b arr h' vs'. list_deep_copy ex_meta (Some 4) ex_store = Some (Some b, h') \<and>
      fetch the_objects h' arr = Some vs' \<and> list_all2 (\<lambda>v v'. copied ex_meta ex_store v h' v') [ex_object] vs' \<and>
      h_next ex_store \<le> arr"
    using ex_store_read(3) by blast
  then obtain b arr h' vs' where copy: "list_deep_copy ex_meta (Some 4) ex_store = Some (Some b, h')"
      "fetch the_objects h' arr = Some vs'" "list_all2 (\<lambda>v v'. copied ex_meta ex_store v h' v') [ex_object] vs'"
      "h_next ex_store \<le> arr" by blast
  obtain v' where "vs' = [v']" "copied ex_meta ex_store ex_object h' v'"
    using copy(3) unfolding list_all2_Cons1 list_all2_Nil by blast
  moreover have "h_next ex_store = 5" by (simp add: ex_store_def)
  ultimately show ?thesis using copy(1,2,4) by metis
qed

end
