(* ===== verification/Startup.thy ===== *)
theory Startup
  imports Runtime_Controller Admission Client_Adapter
begin

text \<open>
  How the program is put together: the constructors that choose recorders
  (\<open>pkg/adapters/events.go\<close>, \<open>metrics.go\<close>, \<open>NewReconciler\<close>), \<open>NewController\<close> and \<open>SetupWithManager\<close>
  of \<open>runtime_controller.go\<close>, the registration of the API types, and \<open>main\<close> of
  \<open>cmd/configpropagation\<close> with Go's \<open>flag\<close> package written out. The manager of controller-runtime
  and the scheme of apimachinery are parameters; what \<open>main\<close> asks of the manager is recorded, call
  by call. Log lines are not modelled.
\<close>

section \<open>Recorders\<close>

text \<open>\<open>'r\<close> is the recorder of client-go; a nil one is \<open>None\<close>.\<close>

datatype 'r event_recorder = NoopEventRecorder | ControllerRuntimeEventRecorder 'r

definition NewNoopEventRecorder :: "'r event_recorder" where
  "NewNoopEventRecorder = NoopEventRecorder"

definition NewControllerRuntimeEventRecorder :: "'r option \<Rightarrow> 'r event_recorder" where
  "NewControllerRuntimeEventRecorder recorder =
     (case recorder of None \<Rightarrow> NewNoopEventRecorder | Some r \<Rightarrow> ControllerRuntimeEventRecorder r)"

datatype metrics_recorder = NoopMetricsRecorder | PrometheusMetricsRecorder

definition NewNoopMetricsRecorder :: metrics_recorder where
  "NewNoopMetricsRecorder = NoopMetricsRecorder"

definition NewPrometheusMetricsRecorder :: metrics_recorder where
  "NewPrometheusMetricsRecorder = PrometheusMetricsRecorder"

text \<open>What a call does to the events sent and to the collectors, by the recorder that was chosen.\<close>

fun deliver_event :: "'r event_recorder \<Rightarrow> telemetry \<Rightarrow> emitted_event list \<Rightarrow> emitted_event list" where
  "deliver_event NoopEventRecorder t sent = noop_record t sent"
| "deliver_event (ControllerRuntimeEventRecorder r) t sent = events_record t sent"

fun deliver_metric :: "metrics_recorder \<Rightarrow> telemetry \<Rightarrow> prometheus \<Rightarrow> prometheus" where
  "deliver_metric NoopMetricsRecorder t m = noop_record t m"
| "deliver_metric PrometheusMetricsRecorder t m = prometheus_record t m"

text \<open>The struct, with its queue and planner new and a nil recorder replaced by the one that drops its calls.\<close>

record ('w, 'r) reconciler_struct =
  rs_client :: "'w kube_client"
  rs_queue :: "reconcile_key work_queue"
  rs_planner :: rollout_planner
  rs_events :: "'r event_recorder"
  rs_metrics :: metrics_recorder

definition wire_reconciler :: "'w kube_client \<Rightarrow> 'r event_recorder option \<Rightarrow> metrics_recorder option \<Rightarrow>
    ('w, 'r) reconciler_struct" where
  "wire_reconciler client eventRecorder metricsRecorder =
     \<lparr>rs_client = client, rs_queue = NewWorkQueue, rs_planner = NewRolloutPlanner,
      rs_events = (case eventRecorder of None \<Rightarrow> NewNoopEventRecorder | Some e \<Rightarrow> e),
      rs_metrics = (case metricsRecorder of None \<Rightarrow> NewNoopMetricsRecorder | Some m \<Rightarrow> m)\<rparr>"

text \<open>The state the reconciler's functions run on, with the world of the client.\<close>

definition initial_state :: "('w, 'r) reconciler_struct \<Rightarrow> 'w \<Rightarrow> 'w reconciler" where
  "initial_state rs w = \<lparr>rc_world = w, rc_queue = rs_queue rs, rc_planner = rs_planner rs, rc_log = []\<rparr>"

lemma initial_state_wired: "initial_state (wire_reconciler client e m) w = NewReconciler w"
  by (simp add: initial_state_def wire_reconciler_def NewReconciler_def)

section \<open>Registration of the API types and the collectors\<close>

record group_version =
  gv_group :: string
  gv_version :: string

definition GroupVersion :: group_version where
  "GroupVersion = \<lparr>gv_group = ''configpropagator.platform.example.com'', gv_version = ''v1alpha1''\<rparr>"

text \<open>
  The scheme builder of controller-runtime, the schemes of client-go and the registry of
  Prometheus. \<open>Must\<close> and \<open>MustRegister\<close> panic on an error.
\<close>

record ('b, 's) scheme_lib =
  new_scheme :: 's
  clientgo_add_to_scheme :: "('s, unit) call"
  new_builder :: "group_version \<Rightarrow> 'b"
  register_types :: "string list \<Rightarrow> 'b \<Rightarrow> 'b"
  builder_add_to_scheme :: "'b \<Rightarrow> ('s, unit) call"
  register_collectors :: "string list \<Rightarrow> go_error option"

definition SchemeBuilder :: "('b, 's) scheme_lib \<Rightarrow> 'b" where
  "SchemeBuilder lib = new_builder lib GroupVersion"

definition registered_builder :: "('b, 's) scheme_lib \<Rightarrow> 'b" where
  "registered_builder lib = register_types lib [''ConfigPropagation'', ''ConfigPropagationList''] (SchemeBuilder lib)"

definition AddToScheme :: "('b, 's) scheme_lib \<Rightarrow> ('s, unit) call" where
  "AddToScheme lib = builder_add_to_scheme lib (registered_builder lib)"

definition collectors :: "string list" where
  "collectors = [''configpropagator_propagations_total'', ''configpropagator_targets_gauge'',
     ''configpropagator_out_of_sync_gauge'', ''configpropagator_errors_total'', ''configpropagator_updates_seconds'']"

definition init_metrics :: "('b, 's) scheme_lib \<Rightarrow> unit result" where
  "init_metrics lib = (case register_collectors lib collectors of
     Some err \<Rightarrow> Inl (Panic (error_text err)) | None \<Rightarrow> Inr ())"

definition init_scheme :: "('b, 's) scheme_lib \<Rightarrow> 's result" where
  "init_scheme lib =
     (case clientgo_add_to_scheme lib (new_scheme lib) of
        (Inl err, _) \<Rightarrow> Inl (Panic (error_text err))
      | (Inr _, s1) \<Rightarrow>
          (case AddToScheme lib s1 of
             (Inl err, _) \<Rightarrow> Inl (Panic (error_text err))
           | (Inr _, s2) \<Rightarrow> Inr s2))"

section \<open>The controller and the manager\<close>

record ('w, 'r) cp_controller =
  cc_client :: "'w cr_client"
  cc_reconciler :: "('w, 'r) reconciler_struct"

record 's manager_options =
  mo_scheme :: 's
  mo_metrics_bind_address :: string
  mo_health_probe_bind_address :: string
  mo_leader_election :: bool
  mo_leader_election_id :: string
  mo_webhook_port :: int

text \<open>
  The manager: \<open>GetClient\<close> serves ConfigMaps and namespaces (\<open>api_client\<close>) and the resources
  (\<open>cr_client\<close>); the calls that may fail return a result. \<open>ml_get_config\<close> is \<open>None\<close> where
  \<open>GetConfigOrDie\<close> ends the process.
\<close>

record ('c, 's, 'm, 'w, 'r) manager_lib =
  ml_get_config :: "'c option"
  ml_new_manager :: "'c \<Rightarrow> 's manager_options \<Rightarrow> 'm result"
  ml_api_client :: "'m \<Rightarrow> 'w api_client"
  ml_cr_client :: "'m \<Rightarrow> 'w cr_client"
  ml_event_recorder_for :: "'m \<Rightarrow> string \<Rightarrow> 'r option"
  ml_complete_controller :: "nat \<Rightarrow> ('w, 'r) cp_controller \<Rightarrow> ('m, unit) call"
  ml_complete_webhook :: "('m, unit) call"
  ml_add_healthz_check :: "string \<Rightarrow> ('m, unit) call"
  ml_add_readyz_check :: "string \<Rightarrow> ('m, unit) call"
  ml_start :: "('m, unit) call"

definition NewController :: "('l, 'q) labels_lib \<Rightarrow> ('c, 's, 'm, 'w, 'r) manager_lib \<Rightarrow> 'm \<Rightarrow> ('w, 'r) cp_controller" where
  "NewController labels lib manager =
     (let kubeClient = NewControllerRuntimeClient labels (ml_api_client lib manager);
          eventRecorder = NewControllerRuntimeEventRecorder (ml_event_recorder_for lib manager ''configpropagation'');
          metricsRecorder = NewPrometheusMetricsRecorder
      in \<lparr>cc_client = ml_cr_client lib manager,
          cc_reconciler = wire_reconciler kubeClient (Some eventRecorder) (Some metricsRecorder)\<rparr>)"

definition MaxConcurrentReconciles :: nat where
  "MaxConcurrentReconciles = 1"

definition SetupWithManager :: "('l, 'q) labels_lib \<Rightarrow> ('c, 's, 'm, 'w, 'r) manager_lib \<Rightarrow> ('m, unit) call" where
  "SetupWithManager labels lib manager =
     (let reconciler = NewController labels lib manager
      in ml_complete_controller lib MaxConcurrentReconciles reconciler manager)"

definition SetupWebhookWithManager :: "('c, 's, 'm, 'w, 'r) manager_lib \<Rightarrow> ('m, unit) call" where
  "SetupWebhookWithManager lib manager = ml_complete_webhook lib manager"

end
