(* ===== verification/Call_History.thy ===== *)
theory Call_History
  imports Reconciler_Guarantees
begin

text \<open>
  What a run of the reconciler asks of its KubeClient. \<open>recorded client\<close> is the client with a
  list of the calls made of it and the error of each that failed, and a run on it is the run on the
  client itself. \<open>deeds\<close> reads off such a list what happened to the copies. Every function of the
  reconciler leaves the list and its own log in the relation \<open>accounted\<close>: the log tells exactly
  the deeds, in order, and the function fails exactly when its last call did.
\<close>

section \<open>The calls of a run\<close>

text \<open>The requests, by the methods of the interface; a lookup carries whether it found a ConfigMap.\<close>

datatype request =
    Read_source string string
  | List_selected
  | Look_up string string bool
  | Upsert string string
  | List_managed
  | Remove string string
  | Relabel string string

type_synonym call_record = "request \<times> go_error option"

definition failure :: "'a result \<Rightarrow> go_error option" where
  "failure r = (case r of Inl err \<Rightarrow> Some err | Inr _ \<Rightarrow> None)"

lemma failure_simps [simp]: "failure (Inl err) = Some err" "failure (Inr x) = None"
  by (simp_all add: failure_def)

definition record_call :: "('a result \<Rightarrow> request) \<Rightarrow> ('w, 'a) call \<Rightarrow> ('w \<times> call_record list, 'a) call" where
  "record_call req f wh = (case f (fst wh) of (r, w') \<Rightarrow> (r, (w', snd wh @ [(req r, failure r)])))"

definition recorded :: "'w kube_client \<Rightarrow> ('w \<times> call_record list) kube_client" where
  "recorded client =
     \<lparr>GetSourceConfigMap = (\<lambda>ns n. record_call (\<lambda>_. Read_source ns n) (GetSourceConfigMap client ns n)),
      ListNamespacesBySelector = (\<lambda>ml reqs. record_call (\<lambda>_. List_selected) (ListNamespacesBySelector client ml reqs)),
      UpsertConfigMap = (\<lambda>ns n d l a. record_call (\<lambda>_. Upsert ns n) (UpsertConfigMap client ns n d l a)),
      GetTargetConfigMap = (\<lambda>ns n. record_call
        (\<lambda>r. Look_up ns n (case r of Inr (Some _) \<Rightarrow> True | _ \<Rightarrow> False)) (GetTargetConfigMap client ns n)),
      ListManagedTargetNamespaces = (\<lambda>source n. record_call (\<lambda>_. List_managed) (ListManagedTargetNamespaces client source n)),
      DeleteConfigMap = (\<lambda>ns n. record_call (\<lambda>_. Remove ns n) (DeleteConfigMap client ns n)),
      UpdateConfigMapMetadata = (\<lambda>ns n l a. record_call (\<lambda>_. Relabel ns n) (UpdateConfigMapMetadata client ns n l a))\<rparr>"

text \<open>A state of the reconciler with a history of calls beside the world.\<close>

definition with_history :: "'w reconciler \<Rightarrow> call_record list \<Rightarrow> ('w \<times> call_record list) reconciler" where
  "with_history s h = \<lparr>rc_world = (rc_world s, h), rc_queue = rc_queue s, rc_planner = rc_planner s, rc_log = rc_log s\<rparr>"

lemma emit_with_history [simp]: "emit t (with_history s h) = with_history (emit t s) h"
  by (simp add: emit_def with_history_def)

lemma records_with_history [simp]:
  "record_create key ns n (with_history s h) = with_history (record_create key ns n s) h"
  "record_update key ns n (with_history s h) = with_history (record_update key ns n s) h"
  "record_skip key ns n why (with_history s h) = with_history (record_skip key ns n why s) h"
  "record_prune key ns n (with_history s h) = with_history (record_prune key ns n s) h"
  by (simp_all only: record_defs emit_with_history)

lemma error_with_history [simp]:
  "error_logged key stage msg err (with_history s h) = with_history (error_logged key stage msg err s) h"
  by (simp only: error_logged_def emit_with_history)

lemma rc_planner_with_history [simp]:
  "rc_planner (with_history s h) = rc_planner s" "(with_history s h)\<lparr>rc_planner := p\<rparr> = with_history (s\<lparr>rc_planner := p\<rparr>) h"
  by (simp_all add: with_history_def)

lemma run_record_call:
  "run_call f s = (r, s1) \<Longrightarrow> run_call (record_call req f) (with_history s h) = (r, with_history s1 (h @ [(req r, failure r)]))"
  by (auto simp: run_call_def record_call_def with_history_def split: prod.splits)

lemmas recorded_methods = recorded_def kube_client.select_convs

section \<open>Deeds\<close>

datatype deed =
    Created string string
  | Updated string string
  | Kept string string
  | Released string string
  | Pruned string string
  | Failed request go_error

text \<open>
  A lookup waits for what follows it: a write of the looked up ConfigMap, or nothing, which
  leaves one that exists as it is.
\<close>

type_synonym lookup = "string \<times> string \<times> bool"

fun settle :: "lookup option \<Rightarrow> deed list" where
  "settle (Some (ns, n, True)) = [Kept ns n]"
| "settle _ = []"

fun deeds :: "lookup option \<Rightarrow> call_record list \<Rightarrow> deed list" where
  "deeds p [] = settle p"
| "deeds p ((Upsert ns n, None) # calls) =
     (if p = Some (ns, n, True) then Updated ns n else Created ns n) # deeds None calls"
| "deeds p ((Upsert ns n, Some err) # calls) = Failed (Upsert ns n) err # deeds None calls"
| "deeds p ((Relabel ns n, None) # calls) = Released ns n # deeds None calls"
| "deeds p ((Relabel ns n, Some err) # calls) = Failed (Relabel ns n) err # deeds None calls"
| "deeds p ((Remove ns n, None) # calls) = settle p @ Pruned ns n # deeds None calls"
| "deeds p ((Look_up ns n found, None) # calls) = settle p @ deeds (Some (ns, n, found)) calls"
| "deeds p ((req, Some err) # calls) = settle p @ Failed req err # deeds None calls"
| "deeds p ((req, None) # calls) = settle p @ deeds None calls"

text \<open>A list of calls that does not begin in the middle of what a lookup started.\<close>

fun opens :: "call_record list \<Rightarrow> bool" where
  "opens ((Upsert _ _, _) # _) = False"
| "opens ((Relabel _ _, _) # _) = False"
| "opens _ = True"

lemma deeds_opens: "opens calls \<Longrightarrow> deeds p calls = settle p @ deeds None calls"
  by (cases "(p, calls)" rule: deeds.cases) auto

lemma deeds_append: "opens later \<Longrightarrow> deeds p (calls @ later) = deeds p calls @ deeds None later"
proof (induction p calls rule: deeds.induct)
  case (1 p)
  then show ?case using deeds_opens [of later p] by simp
qed simp_all

lemma opens_append: "opens calls \<Longrightarrow> opens later \<Longrightarrow> opens (calls @ later)"
  by (cases calls rule: opens.cases) auto

section \<open>What the log tells\<close>

text \<open>The stage and the message under which the source reports that a request failed.\<close>

fun stage_of :: "request \<Rightarrow> string" where
  "stage_of (Read_source _ _) = ''source_fetch''"
| "stage_of List_selected = ''namespace_list''"
| "stage_of (Look_up _ _ _) = ''target_lookup''"
| "stage_of (Upsert _ _) = ''upsert''"
| "stage_of List_managed = ''list_managed''"
| "stage_of (Remove _ _) = ''prune''"
| "stage_of (Relabel _ _) = ''detach''"

fun doing :: "request \<Rightarrow> string" where
  "doing (Read_source ns n) = ''get source '' @ ns @ ''/'' @ n"
| "doing List_selected = ''list namespaces''"
| "doing (Look_up ns n _) = ''get target '' @ ns @ ''/'' @ n"
| "doing (Upsert ns n) = ''upsert '' @ ns @ ''/'' @ n"
| "doing List_managed = ''list managed targets''"
| "doing (Remove ns n) = ''delete '' @ ns @ ''/'' @ n"
| "doing (Relabel ns n) = ''detach '' @ ns @ ''/'' @ n"

text \<open>The calls to the recorders that tell one deed.\<close>

definition counted :: "reconcile_key \<Rightarrow> string \<Rightarrow> string \<Rightarrow> string \<Rightarrow> telemetry list" where
  "counted key action reason msg = [AddPropagations action 1, Normalf (namespaced_name_of key) reason msg]"

definition warned :: "reconcile_key \<Rightarrow> request \<Rightarrow> go_error \<Rightarrow> telemetry list" where
  "warned key req err = [IncError (stage_of req),
     Warningf (namespaced_name_of key) eventReasonConfigError (doing req @ '': '' @ error_text err)]"

definition skip_text :: "string \<Rightarrow> string \<Rightarrow> string \<Rightarrow> string" where
  "skip_text ns n why = ''Skipped ConfigMap '' @ ns @ ''/'' @ n @ '': '' @ why"

fun tells :: "reconcile_key \<Rightarrow> deed \<Rightarrow> telemetry list \<Rightarrow> bool" where
  "tells key (Created ns n) ts \<longleftrightarrow>
     ts = counted key MetricsActionCreate eventReasonConfigCreated (''Created ConfigMap '' @ ns @ ''/'' @ n)"
| "tells key (Updated ns n) ts \<longleftrightarrow>
     ts = counted key MetricsActionUpdate eventReasonConfigUpdated (''Updated ConfigMap '' @ ns @ ''/'' @ n)"
| "tells key (Kept ns n) ts \<longleftrightarrow> (\<exists>why \<in> {reason_unmanaged, reason_up_to_date}.
     ts = counted key MetricsActionSkip eventReasonConfigSkipped (skip_text ns n why))"
| "tells key (Released ns n) ts \<longleftrightarrow>
     ts = counted key MetricsActionSkip eventReasonConfigSkipped (skip_text ns n reason_detached)"
| "tells key (Pruned ns n) ts \<longleftrightarrow>
     ts = counted key MetricsActionPrune eventReasonConfigPruned (''Pruned ConfigMap '' @ ns @ ''/'' @ n)"
| "tells key (Failed req err) ts \<longleftrightarrow> ts = warned key req err"

definition told :: "reconcile_key \<Rightarrow> deed list \<Rightarrow> telemetry list \<Rightarrow> bool" where
  "told key ds ts \<longleftrightarrow> (\<exists>tss. list_all2 (tells key) ds tss \<and> ts = concat tss)"

lemma told_Nil [simp]: "told key [] ts \<longleftrightarrow> ts = []"
  by (auto simp: told_def)

lemma told_single: "told key [d] ts \<longleftrightarrow> tells key d ts"
  by (auto simp: told_def list_all2_Cons1)

lemma told_Cons: "told key (d # ds) ts \<longleftrightarrow> (\<exists>us vs. ts = us @ vs \<and> tells key d us \<and> told key ds vs)"
proof
  assume "told key (d # ds) ts"
  then show "\<exists>us vs. ts = us @ vs \<and> tells key d us \<and> told key ds vs"
    by (auto simp: told_def list_all2_Cons1) blast
next
  assume "\<exists>us vs. ts = us @ vs \<and> tells key d us \<and> told key ds vs"
  then obtain us tss where "ts = us @ concat tss" "tells key d us" "list_all2 (tells key) ds tss"
    by (auto simp: told_def)
  then show "told key (d # ds) ts" unfolding told_def by (intro exI [of _ "us # tss"]) simp
qed

lemma told_append: "told key ds ts \<Longrightarrow> told key es us \<Longrightarrow> told key (ds @ es) (ts @ us)"
  unfolding told_def by (metis concat_append list_all2_appendI)

lemma record_tells:
  "\<exists>ts. rc_log (record_create key ns n s) = rc_log s @ ts \<and> tells key (Created ns n) ts"
  "\<exists>ts. rc_log (record_update key ns n s) = rc_log s @ ts \<and> tells key (Updated ns n) ts"
  "why \<in> {reason_unmanaged, reason_up_to_date} \<Longrightarrow>
     \<exists>ts. rc_log (record_skip key ns n why s) = rc_log s @ ts \<and> tells key (Kept ns n) ts"
  "\<exists>ts. rc_log (record_skip key ns n reason_detached s) = rc_log s @ ts \<and> tells key (Released ns n) ts"
  "\<exists>ts. rc_log (record_prune key ns n s) = rc_log s @ ts \<and> tells key (Pruned ns n) ts"
  unfolding record_defs emit_simps tells.simps counted_def skip_text_def append_assoc append.simps by blast+

section \<open>Every function accounts for its calls\<close>

definition all_answered :: "call_record list \<Rightarrow> bool" where
  "all_answered calls \<longleftrightarrow> list_all (\<lambda>(req, err). err = None) calls"

lemma all_answered_simps [simp]:
  "all_answered []" "all_answered (c # calls) \<longleftrightarrow> snd c = None \<and> all_answered calls"
  "all_answered (calls @ later) \<longleftrightarrow> all_answered calls \<and> all_answered later"
  by (auto simp: all_answered_def)

text \<open>An error is that of the last call, under the message of its request, and of no other.\<close>

definition ends_with :: "call_record list \<Rightarrow> go_error option \<Rightarrow> bool" where
  "ends_with calls e \<longleftrightarrow>
     (case e of
        None \<Rightarrow> all_answered calls
      | Some x \<Rightarrow> \<exists>before req cause. calls = before @ [(req, Some cause)] \<and> all_answered before \<and>
          x = Wrapped (doing req) cause)"

definition accounted :: "reconcile_key \<Rightarrow> 'w reconciler \<Rightarrow> call_record list \<Rightarrow> go_error option \<Rightarrow>
    'w reconciler \<Rightarrow> bool" where
  "accounted key s calls e s' \<longleftrightarrow> opens calls \<and> ends_with calls e \<and>
     (\<exists>ts. rc_log s' = rc_log s @ ts \<and> told key (deeds None calls) ts)"

lemma accounted_trans:
  assumes "accounted key s calls None s1" "accounted key s1 later e s2"
  shows "accounted key s (calls @ later) e s2"
proof -
  obtain ts us where "rc_log s1 = rc_log s @ ts" "told key (deeds None calls) ts"
    "rc_log s2 = rc_log s1 @ us" "told key (deeds None later) us"
    using assms by (auto simp: accounted_def)
  then have "rc_log s2 = rc_log s @ ts @ us" "told key (deeds None (calls @ later)) (ts @ us)"
    using assms by (simp_all add: accounted_def deeds_append told_append)
  moreover have "ends_with (calls @ later) e"
    using assms by (cases e) (auto simp: accounted_def ends_with_def intro: append_assoc [symmetric])
  ultimately show ?thesis
    using assms opens_append unfolding accounted_def by blast
qed

lemma accounted_nothing:
  "opens calls \<Longrightarrow> all_answered calls \<Longrightarrow> deeds None calls = [] \<Longrightarrow> rc_log s' = rc_log s \<Longrightarrow>
     accounted key s calls None s'"
  by (simp add: accounted_def ends_with_def)

lemma accounted_deed:
  "opens calls \<Longrightarrow> all_answered calls \<Longrightarrow> deeds None calls = [d] \<Longrightarrow>
     \<exists>ts. rc_log s' = rc_log s1 @ ts \<and> tells key d ts \<Longrightarrow> rc_log s1 = rc_log s \<Longrightarrow>
     accounted key s calls None s'"
  by (simp add: accounted_def ends_with_def told_single)

lemma accounted_failure:
  "opens (before @ [(req, Some cause)]) \<Longrightarrow> all_answered before \<Longrightarrow>
     deeds None (before @ [(req, Some cause)]) = [Failed req cause] \<Longrightarrow> rc_log s1 = rc_log s \<Longrightarrow>
     accounted key s (before @ [(req, Some cause)]) (Some (Wrapped (doing req) cause))
       (error_logged key (stage_of req) (doing req) cause s1)"
  by (simp add: accounted_def ends_with_def told_single warned_def)

text \<open>The same log under a state that differs elsewhere.\<close>

lemma accounted_cong:
  "rc_log s1 = rc_log s \<Longrightarrow> rc_log s2 = rc_log s' \<Longrightarrow> accounted key s1 calls e s2 \<longleftrightarrow> accounted key s calls e s'"
  by (simp add: accounted_def)

lemma run_recorded:
  "run_call (GetSourceConfigMap client ns n) s = (r1, s1) \<Longrightarrow>
     run_call (GetSourceConfigMap (recorded client) ns n) (with_history s hist) =
       (r1, with_history s1 (hist @ [(Read_source ns n, failure r1)]))"
  "run_call (ListNamespacesBySelector client ml reqs) s = (r2, s2) \<Longrightarrow>
     run_call (ListNamespacesBySelector (recorded client) ml reqs) (with_history s hist) =
       (r2, with_history s2 (hist @ [(List_selected, failure r2)]))"
  "run_call (UpsertConfigMap client ns n d l a) s = (r3, s3) \<Longrightarrow>
     run_call (UpsertConfigMap (recorded client) ns n d l a) (with_history s hist) =
       (r3, with_history s3 (hist @ [(Upsert ns n, failure r3)]))"
  "run_call (GetTargetConfigMap client ns n) s = (r4, s4) \<Longrightarrow>
     run_call (GetTargetConfigMap (recorded client) ns n) (with_history s hist) =
       (r4, with_history s4 (hist @ [(Look_up ns n (case r4 of Inr (Some _) \<Rightarrow> True | _ \<Rightarrow> False), failure r4)]))"
  "run_call (ListManagedTargetNamespaces client source n) s = (r5, s5) \<Longrightarrow>
     run_call (ListManagedTargetNamespaces (recorded client) source n) (with_history s hist) =
       (r5, with_history s5 (hist @ [(List_managed, failure r5)]))"
  "run_call (DeleteConfigMap client ns n) s = (r6, s6) \<Longrightarrow>
     run_call (DeleteConfigMap (recorded client) ns n) (with_history s hist) =
       (r6, with_history s6 (hist @ [(Remove ns n, failure r6)]))"
  "run_call (UpdateConfigMapMetadata client ns n l a) s = (r7, s7) \<Longrightarrow>
     run_call (UpdateConfigMapMetadata (recorded client) ns n l a) (with_history s hist) =
       (r7, with_history s7 (hist @ [(Relabel ns n, failure r7)]))"
  by (simp_all only: recorded_methods run_record_call)

subsection \<open>The loop over the planned namespaces\<close>

text \<open>The failing ends of the functions, for any client.\<close>

definition fail_request :: "reconcile_key \<Rightarrow> request \<Rightarrow> go_error \<Rightarrow> 'w reconciler \<Rightarrow> 'w reconciler" where
  "fail_request key req err s = error_logged key (stage_of req) (doing req) err s"

lemma fail_with_history [simp]:
  "fail_request key req err (with_history s hist) = with_history (fail_request key req err s) hist"
  by (simp only: fail_request_def error_with_history)

lemma write_target_fails:
  "write_target key ns n out target (Inl err) s =
     ((out, Some (Wrapped (doing (Upsert ns n)) err)), fail_request key (Upsert ns n) err s)"
  unfolding write_target_def sum.case record_error_logged prod.case doing.simps stage_of.simps fail_request_def ..

lemma sync_target_fails:
  "run_call (GetTargetConfigMap client ns n) s = (Inl err, s1) \<Longrightarrow>
     sync_target client key n eff h source policy ns out s =
       ((out, Some (Wrapped (doing (Look_up ns n False)) err)), fail_request key (Look_up ns n False) err s1)"
  unfolding sync_target_def fail_request_def
  by (simp only: prod.case sum.case record_error_logged doing.simps stage_of.simps)

lemma write_target_accounted:
  assumes "rc_log s2 = rc_log s" "write_target key ns n out target r s2 = ((out', e), s')"
  shows "write_target key ns n out target r (with_history s2 hist) = ((out', e), with_history s' hist) \<and>
    accounted key s [(Look_up ns n (target \<noteq> None), None), (Upsert ns n, failure r)] e s'"
proof (cases r)
  case (Inl err)
  have "accounted key s ([(Look_up ns n (target \<noteq> None), None)] @ [(Upsert ns n, Some err)])
      (Some (Wrapped (doing (Upsert ns n)) err)) (fail_request key (Upsert ns n) err s2)"
    unfolding fail_request_def by (rule accounted_failure) (simp_all add: assms(1))
  then show ?thesis using assms(2) unfolding Inl write_target_fails by (auto simp del: doing.simps)
next
  case (Inr x)
  let ?calls = "[(Look_up ns n (target \<noteq> None), None), (Upsert ns n, None)]"
  show ?thesis
  proof (cases target)
    case None
    have "accounted key s ?calls None (record_create key ns n s2)"
      by (rule accounted_deed [OF _ _ _ record_tells(1) assms(1)]) (simp_all add: None)
    with assms(2) Inr None show ?thesis by (auto simp: write_target_def)
  next
    case (Some t)
    have "accounted key s ?calls None (record_update key ns n s2)"
      by (rule accounted_deed [OF _ _ _ record_tells(2) assms(1)]) (simp_all add: Some)
    with assms(2) Inr Some show ?thesis by (auto simp: write_target_def)
  qed
qed

lemma kept_accounted:
  assumes "rc_log s1 = rc_log s" "why \<in> {reason_unmanaged, reason_up_to_date}"
  shows "accounted key s [(Look_up ns n True, None)] None (record_skip key ns n why s1)"
  by (rule accounted_deed [OF _ _ _ record_tells(3) [OF assms(2)] assms(1)]) simp_all

lemma sync_target_accounted:
  assumes run: "sync_target client key n eff h source policy ns out s = ((out', e), s')"
  shows "\<exists>calls. sync_target (recorded client) key n eff h source policy ns out (with_history s hist) =
      ((out', e), with_history s' (hist @ calls)) \<and> accounted key s calls e s'"
proof -
  obtain r s1 where get: "run_call (GetTargetConfigMap client ns n) s = (r, s1)" by fastforce
  note log1 = run_callD(4) [OF get] and get' = run_recorded(4) [OF get, of hist]
  show ?thesis
  proof (cases r)
    case (Inl err)
    have "accounted key s ([] @ [(Look_up ns n False, Some err)]) (Some (Wrapped (doing (Look_up ns n False)) err))
        (fail_request key (Look_up ns n False) err s1)"
      unfolding fail_request_def by (rule accounted_failure) (simp_all add: log1)
    with run sync_target_fails [OF get [unfolded Inl]] sync_target_fails [OF get' [unfolded Inl]]
    show ?thesis by (intro exI [of _ "[(Look_up ns n False, Some err)]"]) (simp del: doing.simps)
  next
    case (Inr target)
    let ?hist = "hist @ [(Look_up ns n (target \<noteq> None), None)]"
    have get1: "run_call (GetTargetConfigMap (recorded client) ns n) (with_history s hist) =
        (Inr target, with_history s1 ?hist)"
      using get' by (cases target) (simp_all add: Inr)
    obtain r2 s2 where up: "run_call (UpsertConfigMap client ns n eff managed_labels
        (managed_annotations source h)) s1 = (r2, s2)" by fastforce
    have log2: "rc_log s2 = rc_log s" using run_callD(4) [OF up] log1 by simp
    note up1 = run_recorded(3) [OF up, of ?hist]
    have wr: ?thesis if "sync_target client key n eff h source policy ns out s = write_target key ns n out target r2 s2"
      "sync_target (recorded client) key n eff h source policy ns out (with_history s hist) =
        write_target key ns n out target r2 (with_history s2 (?hist @ [(Upsert ns n, failure r2)]))"
      using write_target_accounted [OF log2 that(1) [symmetric, unfolded run], of "?hist @ [(Upsert ns n, failure r2)]"] that(2)
      by (intro exI [of _ "[(Look_up ns n (target \<noteq> None), None), (Upsert ns n, failure r2)]"]) simp
    show ?thesis
    proof (cases target)
      case None
      show ?thesis
        by (rule wr) (use sync_target_absent [OF get [unfolded Inr None] up]
            sync_target_absent [OF get1 [unfolded None] up1 [unfolded None]] None in simp_all)
    next
      case (Some t)
      obtain d l a where t: "t = (d, l, a)" by (metis surj_pair)
      note eq = sync_target_present [OF get [unfolded Inr Some t] up]
        and eq1 = sync_target_present [OF get1 [unfolded Some t] up1 [unfolded Some t]]
      show ?thesis
      proof (cases "\<not> target_managed source l a \<and> policy = ConflictSkip \<or>
          target_managed source l a \<and> go_get a HashAnnotation = h")
        case True
        with run kept_accounted [OF log1, of reason_unmanaged key ns n] kept_accounted [OF log1, of reason_up_to_date key ns n]
        show ?thesis
          by (intro exI [of _ "[(Look_up ns n True, None)]"]) (auto simp: eq eq1)
      next
        case False
        then show ?thesis by (intro wr) (auto simp: eq eq1 Some t)
      qed
    qed
  qed
qed

lemma sync_loop_accounted:
  assumes "sync_loop client key n eff h source policy nss out s = ((out', e), s')"
  shows "\<exists>calls. sync_loop (recorded client) key n eff h source policy nss out (with_history s hist) =
      ((out', e), with_history s' (hist @ calls)) \<and> accounted key s calls e s'"
  using assms
proof (induction nss arbitrary: out s hist)
  case Nil
  then show ?case by (intro exI [of _ "[]"]) (simp add: accounted_nothing)
next
  case (Cons ns nss)
  obtain o1 e1 s1 where t: "sync_target client key n eff h source policy ns out s = ((o1, e1), s1)"
    by (metis surj_pair)
  from sync_target_accounted [OF t, of hist] obtain calls where c: "accounted key s calls e1 s1"
    "sync_target (recorded client) key n eff h source policy ns out (with_history s hist) =
       ((o1, e1), with_history s1 (hist @ calls))" by blast
  show ?case
  proof (cases e1)
    case None
    with Cons.prems t have "sync_loop client key n eff h source policy nss o1 s1 = ((out', e), s')" by simp
    from Cons.IH [OF this, of "hist @ calls"] obtain later where l: "accounted key s1 later e s'"
      "sync_loop (recorded client) key n eff h source policy nss o1 (with_history s1 (hist @ calls)) =
         ((out', e), with_history s' (hist @ calls @ later))" by auto
    from c(2) l(2) accounted_trans [OF c(1) [unfolded None] l(1)] show ?thesis
      by (intro exI [of _ "calls @ later"]) (simp add: None)
  next
    case (Some x)
    with Cons.prems t c show ?thesis by (intro exI [of _ calls]) auto
  qed
qed

subsection \<open>The cleanup\<close>

lemma cleanup_target_fails:
  "run_call (DeleteConfigMap client ns n) s = (Inl err, s1) \<Longrightarrow>
     cleanup_target client key n True ns s =
       (Some (Wrapped (doing (Remove ns n)) err), fail_request key (Remove ns n) err s1)"
  "run_call (GetTargetConfigMap client ns n) s = (Inl err, s2) \<Longrightarrow>
     cleanup_target client key n False ns s =
       (Some (Wrapped (doing (Look_up ns n False)) err), fail_request key (Look_up ns n False) err s2)"
  "run_call (GetTargetConfigMap client ns n) s = (Inr (Some (d, l, a)), s3) \<Longrightarrow>
   run_call (UpdateConfigMapMetadata client ns n (go_delete l ManagedLabel)
     (go_delete (go_delete a SourceAnnotation) HashAnnotation)) s3 = (Inl err, s4) \<Longrightarrow>
     cleanup_target client key n False ns s =
       (Some (Wrapped (doing (Relabel ns n)) err), fail_request key (Relabel ns n) err s4)"
  unfolding cleanup_target_def fail_request_def Let_def
  by (simp_all only: if_True if_False prod.case sum.case option.case record_error_logged doing.simps stage_of.simps)

lemma cleanup_target_does:
  "run_call (DeleteConfigMap client ns n) s = (Inr u, s1) \<Longrightarrow>
     cleanup_target client key n True ns s = (None, record_prune key ns n s1)"
  "run_call (GetTargetConfigMap client ns n) s = (Inr None, s2) \<Longrightarrow> cleanup_target client key n False ns s = (None, s2)"
  "run_call (GetTargetConfigMap client ns n) s = (Inr (Some (d, l, a)), s3) \<Longrightarrow>
   run_call (UpdateConfigMapMetadata client ns n (go_delete l ManagedLabel)
     (go_delete (go_delete a SourceAnnotation) HashAnnotation)) s3 = (Inr v, s4) \<Longrightarrow>
     cleanup_target client key n False ns s = (None, record_skip key ns n reason_detached s4)"
  unfolding cleanup_target_def Let_def
  by (simp_all only: if_True if_False prod.case sum.case option.case)

lemma cleanup_target_accounted:
  assumes run: "cleanup_target client key n prune ns s = (e, s')"
  shows "\<exists>calls. cleanup_target (recorded client) key n prune ns (with_history s hist) =
      (e, with_history s' (hist @ calls)) \<and> accounted key s calls e s'"
proof (cases prune)
  case True
  obtain r s1 where del: "run_call (DeleteConfigMap client ns n) s = (r, s1)" by fastforce
  note log1 = run_callD(4) [OF del] and del' = run_recorded(6) [OF del, of hist]
  show ?thesis
  proof (cases r)
    case (Inl err)
    have "accounted key s ([] @ [(Remove ns n, Some err)]) (Some (Wrapped (doing (Remove ns n)) err))
        (fail_request key (Remove ns n) err s1)"
      unfolding fail_request_def by (rule accounted_failure) (simp_all add: log1)
    with run True cleanup_target_fails(1) [OF del [unfolded Inl], of key]
      cleanup_target_fails(1) [OF del' [unfolded Inl], of key]
    show ?thesis by (intro exI [of _ "[(Remove ns n, Some err)]"]) (simp del: doing.simps)
  next
    case (Inr u)
    have "accounted key s [(Remove ns n, None)] None (record_prune key ns n s1)"
      by (rule accounted_deed [OF _ _ _ record_tells(5) log1]) simp_all
    with run True cleanup_target_does(1) [OF del [unfolded Inr], of key]
      cleanup_target_does(1) [OF del' [unfolded Inr], of key]
    show ?thesis by (intro exI [of _ "[(Remove ns n, None)]"]) simp
  qed
next
  case False
  obtain r s1 where get: "run_call (GetTargetConfigMap client ns n) s = (r, s1)" by fastforce
  note log1 = run_callD(4) [OF get] and get' = run_recorded(4) [OF get, of hist]
  show ?thesis
  proof (cases r)
    case (Inl err)
    have "accounted key s ([] @ [(Look_up ns n False, Some err)]) (Some (Wrapped (doing (Look_up ns n False)) err))
        (fail_request key (Look_up ns n False) err s1)"
      unfolding fail_request_def by (rule accounted_failure) (simp_all add: log1)
    with run False cleanup_target_fails(2) [OF get [unfolded Inl], of key]
      cleanup_target_fails(2) [OF get' [unfolded Inl], of key]
    show ?thesis by (intro exI [of _ "[(Look_up ns n False, Some err)]"]) (simp del: doing.simps)
  next
    case found: (Inr target)
    show ?thesis
    proof (cases target)
      case None
      have "accounted key s [(Look_up ns n False, None)] None s1"
        by (rule accounted_nothing) (simp_all add: log1)
      with run False cleanup_target_does(2) [OF get [unfolded found None], of key]
        cleanup_target_does(2) [OF get' [unfolded found None], of key]
      show ?thesis by (intro exI [of _ "[(Look_up ns n False, None)]"]) simp
    next
      case (Some t)
      obtain d l a where t: "t = (d, l, a)" by (metis surj_pair)
      note get = get [unfolded found Some t]
      let ?l = "go_delete l ManagedLabel" and ?a = "go_delete (go_delete a SourceAnnotation) HashAnnotation"
      let ?hist = "hist @ [(Look_up ns n True, None)]"
      have get1: "run_call (GetTargetConfigMap (recorded client) ns n) (with_history s hist) =
          (Inr (Some (d, l, a)), with_history s1 ?hist)"
        using get' by (simp add: found Some t)
      obtain r2 s2 where upd: "run_call (UpdateConfigMapMetadata client ns n ?l ?a) s1 = (r2, s2)" by fastforce
      note upd' = run_recorded(7) [OF upd, of ?hist]
      have log2: "rc_log s2 = rc_log s" using run_callD(4) [OF upd] log1 by simp
      show ?thesis
      proof (cases r2)
        case (Inl err)
        have "accounted key s ([(Look_up ns n True, None)] @ [(Relabel ns n, Some err)])
            (Some (Wrapped (doing (Relabel ns n)) err)) (fail_request key (Relabel ns n) err s2)"
          unfolding fail_request_def by (rule accounted_failure) (simp_all add: log2)
        with run False cleanup_target_fails(3) [OF get upd [unfolded Inl], of key]
          cleanup_target_fails(3) [OF get1 upd' [unfolded Inl], of key]
        show ?thesis
          by (intro exI [of _ "[(Look_up ns n True, None), (Relabel ns n, Some err)]"]) (simp del: doing.simps)
      next
        case (Inr v)
        have "accounted key s [(Look_up ns n True, None), (Relabel ns n, None)] None
            (record_skip key ns n reason_detached s2)"
          by (rule accounted_deed [OF _ _ _ record_tells(4) log2]) simp_all
        with run False cleanup_target_does(3) [OF get upd [unfolded Inr], of key]
          cleanup_target_does(3) [OF get1 upd' [unfolded Inr], of key]
        show ?thesis by (intro exI [of _ "[(Look_up ns n True, None), (Relabel ns n, None)]"]) simp
      qed
    qed
  qed
qed

lemma cleanup_loop_accounted:
  assumes "cleanup_loop client key n prune sel nss s = (e, s')"
  shows "\<exists>calls. cleanup_loop (recorded client) key n prune sel nss (with_history s hist) =
      (e, with_history s' (hist @ calls)) \<and> accounted key s calls e s'"
  using assms
proof (induction nss arbitrary: s hist)
  case Nil
  then show ?case by (intro exI [of _ "[]"]) (simp add: accounted_nothing)
next
  case (Cons ns nss)
  show ?case
  proof (cases "ns \<in> sel")
    case True
    with Cons show ?thesis by simp
  next
    case False
    obtain e1 s1 where t: "cleanup_target client key n prune ns s = (e1, s1)" by fastforce
    from cleanup_target_accounted [OF t, of hist] obtain calls where c: "accounted key s calls e1 s1"
      "cleanup_target (recorded client) key n prune ns (with_history s hist) = (e1, with_history s1 (hist @ calls))"
      by blast
    show ?thesis
    proof (cases e1)
      case None
      with Cons.prems False t have "cleanup_loop client key n prune sel nss s1 = (e, s')" by simp
      from Cons.IH [OF this, of "hist @ calls"] obtain later where l: "accounted key s1 later e s'"
        "cleanup_loop (recorded client) key n prune sel nss (with_history s1 (hist @ calls)) =
           (e, with_history s' (hist @ calls @ later))" by auto
      from c(2) l(2) accounted_trans [OF c(1) [unfolded None] l(1)] show ?thesis
        by (intro exI [of _ "calls @ later"]) (simp add: None False)
    next
      case (Some x)
      with Cons.prems False t c show ?thesis by (intro exI [of _ calls]) auto
    qed
  qed
qed

lemma cleanup_deselected_fails:
  "run_call (ListManagedTargetNamespaces client (source_id (ref_namespace (sp_source_ref spec))
       (ref_name (sp_source_ref spec))) (ref_name (sp_source_ref spec))) s = (Inl err, s1) \<Longrightarrow>
     cleanup_deselected client key spec sel s =
       (Some (Wrapped (doing List_managed) err), fail_request key List_managed err s1)"
  unfolding cleanup_deselected_def fail_request_def Let_def
  by (simp only: prod.case sum.case record_error_logged doing.simps stage_of.simps)

lemma cleanup_deselected_accounted:
  assumes run: "cleanup_deselected client key spec sel s = (e, s')"
  shows "\<exists>calls. cleanup_deselected (recorded client) key spec sel (with_history s hist) =
      (e, with_history s' (hist @ calls)) \<and> accounted key s calls e s'"
proof -
  obtain r s1 where lst: "run_call (ListManagedTargetNamespaces client
      (source_id (ref_namespace (sp_source_ref spec)) (ref_name (sp_source_ref spec)))
      (ref_name (sp_source_ref spec))) s = (r, s1)" by fastforce
  note log1 = run_callD(4) [OF lst] and lst' = run_recorded(5) [OF lst, of hist]
  show ?thesis
  proof (cases r)
    case (Inl err)
    have "accounted key s ([] @ [(List_managed, Some err)]) (Some (Wrapped (doing List_managed) err))
        (fail_request key List_managed err s1)"
      unfolding fail_request_def by (rule accounted_failure) (simp_all add: log1)
    with run cleanup_deselected_fails [OF lst [unfolded Inl], of key sel]
      cleanup_deselected_fails [OF lst' [unfolded Inl], of key sel]
    show ?thesis by (intro exI [of _ "[(List_managed, Some err)]"]) (simp del: doing.simps)
  next
    case (Inr nss)
    let ?loop = "\<lambda>c. cleanup_loop c key (ref_name (sp_source_ref spec))
      (case sp_prune spec of None \<Rightarrow> True | Some b \<Rightarrow> b) (set sel) nss"
    have step: "accounted key s [(List_managed, None)] None s1"
      by (rule accounted_nothing) (simp_all add: log1)
    from run lst Inr have "cleanup_loop client key (ref_name (sp_source_ref spec))
        (case sp_prune spec of None \<Rightarrow> True | Some b \<Rightarrow> b) (set sel) nss s1 = (e, s')"
      by (simp add: cleanup_deselected_def Let_def)
    from cleanup_loop_accounted [OF this, of "hist @ [(List_managed, None)]"] obtain calls
      where "accounted key s1 calls e s'" and loop: "cleanup_loop (recorded client) key (ref_name (sp_source_ref spec))
        (case sp_prune spec of None \<Rightarrow> True | Some b \<Rightarrow> b) (set sel) nss (with_history s1 (hist @ [(List_managed, None)])) =
          (e, with_history s' ((hist @ [(List_managed, None)]) @ calls))" by blast
    from accounted_trans [OF step this(1)] loop lst' Inr show ?thesis
      by (intro exI [of _ "[(List_managed, None)] @ calls"]) (simp add: cleanup_deselected_def Let_def)
  qed
qed

section \<open>The whole run\<close>

lemma plan_targets_with_history:
  "plan_targets key h ts strategy b s = (r, s') \<Longrightarrow>
     plan_targets key h ts strategy b (with_history s hist) = (r, with_history s' hist)"
  by (auto simp: plan_targets_def split: prod.splits)

lemma account_targets_with_history:
  "account_targets key strategy h ts summary s = (r, s') \<Longrightarrow>
     account_targets key strategy h ts summary (with_history s hist) = (r, with_history s' hist)"
  by (auto simp: account_targets_def Let_def split: prod.splits if_splits)

lemma list_targets_recorded:
  assumes "list_targets client selector s = (r, s1)"
  shows "rc_log s1 = rc_log s" and "list_targets (recorded client) selector (with_history s hist) =
    (r, with_history s1 (hist @ [(List_selected, failure r)]))"
  using run_callD(4) run_recorded(2) assms unfolding list_targets_def by blast+

lemma reconcile_impl_source_fails:
  "run_call (GetSourceConfigMap client (ref_namespace (sp_source_ref spec)) (ref_name (sp_source_ref spec))) s =
     (Inl err, s1) \<Longrightarrow> reconcile_impl client key spec s =
     (Inl (Wrapped (doing (Read_source (ref_namespace (sp_source_ref spec)) (ref_name (sp_source_ref spec)))) err),
      fail_request key (Read_source (ref_namespace (sp_source_ref spec)) (ref_name (sp_source_ref spec))) err s1)"
  unfolding reconcile_impl_def fail_request_def Let_def
  by (simp only: prod.case sum.case record_error_logged doing.simps stage_of.simps)

lemma reconcile_impl_listing_fails:
  "run_call (GetSourceConfigMap client (ref_namespace (sp_source_ref spec)) (ref_name (sp_source_ref spec))) s =
     (Inr data, s1) \<Longrightarrow> sp_namespace_selector spec = Some selector \<Longrightarrow> list_targets client selector s1 = (Inl err, s2) \<Longrightarrow>
   reconcile_impl client key spec s = (Inl (Wrapped (doing List_selected) err), fail_request key List_selected err s2)"
  unfolding reconcile_impl_def fail_request_def Let_def
  by (simp only: prod.case sum.case option.case record_error_logged doing.simps stage_of.simps)

text \<open>The rest of \<open>reconcileImpl\<close>, once the source is read and the namespaces are listed.\<close>

definition reconcile_listed :: "'w kube_client \<Rightarrow> reconcile_key \<Rightarrow> config_propagation_spec \<Rightarrow> update_strategy \<Rightarrow>
    go_map \<Rightarrow> string list \<Rightarrow> 'w reconciler \<Rightarrow> rollout_result result \<times> 'w reconciler" where
  "reconcile_listed client key spec st effective targets s2 =
     (case plan_targets key (HashData effective) targets (us_type st)
         (case us_batch_size st of None \<Rightarrow> 5 | Some b \<Rightarrow> b) s2 of
        ((planned, _), s3) \<Rightarrow>
     (case sync_targets client key planned (ref_name (sp_source_ref spec)) effective (HashData effective)
         (ref_namespace (sp_source_ref spec)) (sp_conflict_policy spec) s3 of
        ((_, Some e), s4) \<Rightarrow> (Inl e, s4)
      | ((summary, None), s4) \<Rightarrow>
     (case account_targets key (us_type st) (HashData effective) targets summary s4 of
        ((completedCount, outOfSync), s5) \<Rightarrow>
     (case cleanup_deselected client key spec targets s5 of
        (Some e, s6) \<Rightarrow> (Inl e, s6)
      | (None, s6) \<Rightarrow>
          (Inr \<lparr>rr_planned = planned, rr_total_targets = length targets,
             rr_completed_count = completedCount, rr_out_of_sync = outOfSync\<rparr>, s6)))))"

lemma reconcile_impl_listed:
  "run_call (GetSourceConfigMap client (ref_namespace (sp_source_ref spec)) (ref_name (sp_source_ref spec))) s =
     (Inr data, s1) \<Longrightarrow> sp_namespace_selector spec = Some selector \<Longrightarrow> sp_strategy spec = Some st \<Longrightarrow>
   list_targets client selector s1 = (Inr listed, s2) \<Longrightarrow>
   reconcile_impl client key spec s =
     reconcile_listed client key spec st (compute_effective data (sp_data_keys spec)) (sort listed) s2"
  unfolding reconcile_impl_def reconcile_listed_def Let_def by (simp only: prod.case sum.case option.case)

lemma reconcile_listed_accounted:
  assumes run: "reconcile_listed client key spec st eff targets s = (res, s')"
  shows "\<exists>calls. reconcile_listed (recorded client) key spec st eff targets (with_history s hist) =
      (res, with_history s' (hist @ calls)) \<and> accounted key s calls (failure res) s'"
proof -
  let ?n = "ref_name (sp_source_ref spec)" and ?ns = "ref_namespace (sp_source_ref spec)" and ?h = "HashData eff"
  let ?b = "case us_batch_size st of None \<Rightarrow> 5 | Some b \<Rightarrow> b"
  obtain planned k s3 where pl: "plan_targets key ?h targets (us_type st) ?b s = ((planned, k), s3)"
    by (metis surj_pair)
  obtain summary oe s4 where sy: "sync_targets client key planned ?n eff ?h ?ns (sp_conflict_policy spec) s3 =
      ((summary, oe), s4)" by (metis surj_pair)
  from sync_loop_accounted [OF sy [unfolded sync_targets_def], of hist] obtain calls
    where c: "accounted key s3 calls oe s4" and
      sy': "sync_targets (recorded client) key planned ?n eff ?h ?ns (sp_conflict_policy spec) (with_history s3 hist) =
        ((summary, oe), with_history s4 (hist @ calls))" unfolding sync_targets_def by blast
  have c: "accounted key s calls oe s4" using c plan_targets_log [OF pl] by (simp add: accounted_def)
  note pl' = plan_targets_with_history [OF pl, of hist]
  show ?thesis
  proof (cases oe)
    case (Some e)
    with run pl pl' sy sy' c show ?thesis by (intro exI [of _ calls]) (auto simp: reconcile_listed_def)
  next
    case None
    obtain cnt oos s5 where ac: "account_targets key (us_type st) ?h targets summary s4 = ((cnt, oos), s5)"
      by (metis surj_pair)
    obtain ce s6 where cl: "cleanup_deselected client key spec targets s5 = (ce, s6)" by fastforce
    from cleanup_deselected_accounted [OF cl, of "hist @ calls"] obtain later
      where l: "accounted key s5 later ce s6" and cl': "cleanup_deselected (recorded client) key spec targets
        (with_history s5 (hist @ calls)) = (ce, with_history s6 ((hist @ calls) @ later))" by blast
    have "accounted key s4 later ce s6" using l account_targets_log [OF ac] by (simp add: accounted_def)
    note all = accounted_trans [OF c [unfolded None] this]
    note ac' = account_targets_with_history [OF ac, of "hist @ calls"]
    from run pl pl' sy sy' ac ac' cl cl' None all show ?thesis
      by (intro exI [of _ "calls @ later"]) (auto simp: reconcile_listed_def split: option.splits)
  qed
qed

lemma reconcile_impl_accounted:
  assumes run: "reconcile_impl client key spec s = (res, s')" and cs: "complete_spec spec"
  shows "\<exists>calls. reconcile_impl (recorded client) key spec (with_history s hist) =
      (res, with_history s' (hist @ calls)) \<and> accounted key s calls (failure res) s'"
proof -
  obtain selector st where sp: "sp_namespace_selector spec = Some selector" "sp_strategy spec = Some st"
    using cs by (auto simp: complete_spec_def)
  let ?src = "Read_source (ref_namespace (sp_source_ref spec)) (ref_name (sp_source_ref spec))"
  obtain r s1 where src: "run_call (GetSourceConfigMap client (ref_namespace (sp_source_ref spec))
      (ref_name (sp_source_ref spec))) s = (r, s1)" by fastforce
  note log1 = run_callD(4) [OF src] and src' = run_recorded(1) [OF src, of hist]
  show ?thesis
  proof (cases r)
    case (Inl err)
    have "accounted key s ([] @ [(?src, Some err)]) (Some (Wrapped (doing ?src) err)) (fail_request key ?src err s1)"
      unfolding fail_request_def by (rule accounted_failure) (simp_all add: log1)
    with run reconcile_impl_source_fails [OF src [unfolded Inl], of key]
      reconcile_impl_source_fails [OF src' [unfolded Inl], of key]
    show ?thesis by (intro exI [of _ "[(?src, Some err)]"]) (auto simp del: doing.simps)
  next
    case data: (Inr data)
    note src = src [unfolded data] and src' = src' [unfolded data failure_simps]
    obtain rl s2 where lst: "list_targets client selector s1 = (rl, s2)" by fastforce
    note lst' = list_targets_recorded(2) [OF lst, of "hist @ [(?src, None)]"]
    have log2: "rc_log s2 = rc_log s" using list_targets_recorded(1) [OF lst] log1 by simp
    show ?thesis
    proof (cases rl)
      case (Inl err)
      have "accounted key s ([(?src, None)] @ [(List_selected, Some err)]) (Some (Wrapped (doing List_selected) err))
          (fail_request key List_selected err s2)"
        unfolding fail_request_def by (rule accounted_failure) (simp_all add: log2)
      with run reconcile_impl_listing_fails [OF src sp(1) lst [unfolded Inl], of key]
        reconcile_impl_listing_fails [OF src' sp(1) lst' [unfolded Inl], of key]
      show ?thesis by (intro exI [of _ "[(?src, None), (List_selected, Some err)]"]) (auto simp del: doing.simps)
    next
      case listed: (Inr listed)
      note lst = lst [unfolded listed] and lst' = lst' [unfolded listed failure_simps]
      have start: "accounted key s [(?src, None), (List_selected, None)] None s2"
        by (rule accounted_nothing) (simp_all add: log2)
      note eq = reconcile_impl_listed [OF src sp lst, of key] and eq' = reconcile_impl_listed [OF src' sp lst', of key]
      from reconcile_listed_accounted [OF run [unfolded eq]] obtain calls where c: "accounted key s2 calls (failure res) s'"
        "reconcile_listed (recorded client) key spec st (compute_effective data (sp_data_keys spec)) (sort listed)
          (with_history s2 ((hist @ [(?src, None)]) @ [(List_selected, None)])) =
          (res, with_history s' (((hist @ [(?src, None)]) @ [(List_selected, None)]) @ calls))" by blast
      from accounted_trans [OF start c(1)] c(2) show ?thesis
        unfolding eq' by (intro exI [of _ "[(?src, None), (List_selected, None)] @ calls"]) simp
    qed
  qed
qed

lemma Reconcile_recorded:
  assumes "Reconcile env client elapsed key (Some spec) s = ((res, sp'), s')"
  obtains (rejected) err where "ValidateSpec (Some (DefaultSpec env spec)) = Some err" "res = Inl err" "s' = s"
      "sp' = Some (DefaultSpec env spec)"
      "Reconcile env (recorded client) elapsed key (Some spec) (with_history s []) = ((res, sp'), with_history s' [])"
  | (ran) calls s1 where "ValidateSpec (Some (DefaultSpec env spec)) = None" "sp' = Some (DefaultSpec env spec)"
      "accounted key s calls (failure res) s1"
      "rc_log s' = rc_log s1 @ (case res of
         Inr r \<Rightarrow> [ObserveTargets (rr_total_targets r) (length (rr_out_of_sync r))] | Inl _ \<Rightarrow> []) @
         [ObserveReconcileDuration elapsed]"
      "Reconcile env (recorded client) elapsed key (Some spec) (with_history s []) = ((res, sp'), with_history s' calls)"
  using assms
proof (cases rule: ReconcileE)
  case (rejected err)
  then show thesis by (intro that(1)) (simp_all add: Reconcile_def)
next
  case (failed err s1)
  from reconcile_impl_accounted [OF failed(2) DefaultSpec_complete [OF failed(1)], of "[]"] obtain calls
    where "reconcile_impl (recorded client) key (DefaultSpec env spec) (with_history s []) = (Inl err, with_history s1 calls)"
      "accounted key s calls (failure (Inl err :: rollout_result result)) s1" by auto
  with failed show thesis by (intro that(2) [of calls s1]) (simp_all add: Reconcile_def)
next
  case (reconciled r s1)
  from reconcile_impl_accounted [OF reconciled(2) DefaultSpec_complete [OF reconciled(1)], of "[]"] obtain calls
    where "reconcile_impl (recorded client) key (DefaultSpec env spec) (with_history s []) = (Inr r, with_history s1 calls)"
      "accounted key s calls (failure (Inr r)) s1" by auto
  with reconciled show thesis by (intro that(2) [of calls s1]) (simp_all add: Reconcile_def)
qed

section \<open>Counting\<close>

fun action_of :: "deed \<Rightarrow> string option" where
  "action_of (Created _ _) = Some MetricsActionCreate"
| "action_of (Updated _ _) = Some MetricsActionUpdate"
| "action_of (Kept _ _) = Some MetricsActionSkip"
| "action_of (Released _ _) = Some MetricsActionSkip"
| "action_of (Pruned _ _) = Some MetricsActionPrune"
| "action_of (Failed _ _) = None"

lemma tells_error_count: "tells key d ts \<Longrightarrow> error_count ts = (if action_of d = None then 1 else 0)"
  by (cases d) (auto simp: counted_def warned_def)

lemma told_error_count: "told key ds ts \<Longrightarrow> error_count ts = length (filter (\<lambda>d. action_of d = None) ds)"
  by (induction ds arbitrary: ts) (auto simp: told_Cons tells_error_count)

lemma settle_no_failure [simp]: "filter (\<lambda>d. action_of d = None) (settle p) = []"
  by (cases p rule: settle.cases) simp_all

lemma deeds_failures:
  "length (filter (\<lambda>d. action_of d = None) (deeds p calls)) = length (filter (\<lambda>c. snd c \<noteq> None) calls)"
  by (induction p calls rule: deeds.induct) simp_all

lemma deeds_failed_last: "\<exists>ds. deeds p (before @ [(req, Some cause)]) = ds @ [Failed req cause]"
proof (induction p before rule: deeds.induct)
  case (1 p)
  show ?case by (cases req) auto
qed auto

lemma all_answered_filter: "all_answered calls \<Longrightarrow> length (filter (\<lambda>c. snd c \<noteq> None) calls) = 0"
  by (induction calls) auto

lemma told_last:
  "told key (ds @ [d]) ts \<Longrightarrow> \<exists>us vs. ts = us @ vs \<and> told key ds us \<and> tells key d vs"
proof (induction ds arbitrary: ts)
  case Nil
  then show ?case by (simp add: told_single)
next
  case (Cons c ds)
  from Cons.prems obtain us vs where 1: "ts = us @ vs" "tells key c us" "told key (ds @ [d]) vs"
    by (auto simp: told_Cons)
  from Cons.IH [OF 1(3)] obtain us' vs' where "vs = us' @ vs'" "told key ds us'" "tells key d vs'" by blast
  with 1 show ?case by (intro exI [of _ "us @ us'"] exI [of _ vs']) (auto simp: told_Cons)
qed

lemma accounted_errors:
  assumes "accounted key s calls e s'"
  shows "\<exists>ts. rc_log s' = rc_log s @ ts \<and>
    (case e of
       None \<Rightarrow> all_answered calls \<and> error_count ts = 0
     | Some x \<Rightarrow> \<exists>before req cause us. calls = before @ [(req, Some cause)] \<and> all_answered before \<and>
         x = Wrapped (doing req) cause \<and> error_count ts = 1 \<and> ts = us @ warned key req cause)"
proof -
  from assms obtain ts where log: "rc_log s' = rc_log s @ ts" and ts: "told key (deeds None calls) ts"
    and ends: "ends_with calls e" by (auto simp: accounted_def)
  have count: "error_count ts = length (filter (\<lambda>c. snd c \<noteq> None) calls)"
    using told_error_count [OF ts] deeds_failures by simp
  show ?thesis
  proof (cases e)
    case None
    then have "all_answered calls" using ends by (simp add: ends_with_def)
    with None log count all_answered_filter [OF this] show ?thesis by (simp del: length_0_conv)
  next
    case (Some x)
    with ends obtain before req cause where c: "calls = before @ [(req, Some cause)]" "all_answered before"
      "x = Wrapped (doing req) cause" by (auto simp: ends_with_def)
    obtain ds where "deeds None calls = ds @ [Failed req cause]" using deeds_failed_last c(1) by blast
    with told_last [of key ds "Failed req cause" ts] ts obtain us where "ts = us @ warned key req cause" by auto
    moreover have "error_count ts = 1" using count all_answered_filter [OF c(2)] c(1) by (simp del: length_0_conv)
    ultimately show ?thesis using log c Some by auto
  qed
qed

section \<open>Property\<close>

text \<open>C13. Errors are counted once and never lost. Take the calls a reconcile of a given spec makes
  of its client. If the spec does not pass validation there are none and nothing changes. Otherwise
  the reconcile ends in a result exactly when every call succeeded, with no error counted and the
  totals observed; as soon as a call fails it makes no further one and returns that call's error,
  wrapped in the message for the request, having counted exactly one error: the last things it
  records are that error, under the stage of the request, and the warning with this message and the
  cause. In both cases its duration is observed after that.\<close>

theorem reconcile_counts_errors_once:
  assumes "Reconcile env client elapsed key (Some spec) s = ((res, sp'), s')"
  shows "\<exists>calls. Reconcile env (recorded client) elapsed key (Some spec) (with_history s []) =
      ((res, sp'), with_history s' calls) \<and> sp' = Some (DefaultSpec env spec) \<and>
    (case ValidateSpec (Some (DefaultSpec env spec)) of
       Some err \<Rightarrow> res = Inl err \<and> s' = s \<and> calls = []
     | None \<Rightarrow> \<exists>ts. rc_log s' = rc_log s @ ts @ [ObserveReconcileDuration elapsed] \<and>
         (case res of
            Inr r \<Rightarrow> all_answered calls \<and> error_count ts = 0 \<and>
              last ts = ObserveTargets (rr_total_targets r) (length (rr_out_of_sync r))
          | Inl err \<Rightarrow> \<exists>before req cause us. calls = before @ [(req, Some cause)] \<and> all_answered before \<and>
              err = Wrapped (doing req) cause \<and> error_count ts = 1 \<and>
              ts = us @ [IncError (stage_of req), Warningf (namespaced_name_of key) eventReasonConfigError
                (doing req @ '': '' @ error_text cause)]))"
  using assms
proof (cases rule: Reconcile_recorded)
  case (rejected err)
  then show ?thesis by (intro exI [of _ "[]"]) simp
next
  case (ran calls s1)
  from accounted_errors [OF ran(3)] obtain ts where ts: "rc_log s1 = rc_log s @ ts"
    "case failure res of None \<Rightarrow> all_answered calls \<and> error_count ts = 0
     | Some x \<Rightarrow> \<exists>before req cause us. calls = before @ [(req, Some cause)] \<and> all_answered before \<and>
         x = Wrapped (doing req) cause \<and> error_count ts = 1 \<and> ts = us @ warned key req cause" by blast
  show ?thesis
  proof (cases res)
    case (Inl err)
    with ran ts show ?thesis
      by (intro exI [of _ calls] conjI, simp_all only: option.case sum.case failure_simps warned_def)
        (intro exI [of _ ts], simp only: append_Nil append_assoc simp_thms)
  next
    case (Inr r)
    with ran ts show ?thesis
      by (intro exI [of _ calls] conjI, simp_all only: option.case sum.case failure_simps)
        (intro exI [of _ "ts @ [ObserveTargets (rr_total_targets r) (length (rr_out_of_sync r))]"], simp)
  qed
qed

text \<open>The run of the example, where the cluster refuses to delete the stale copy.\<close>

definition ex_refusing :: mem_world where
  "ex_refusing = ex_world\<lparr>mw_faults := [None, None, None, None, None, None, None, Some ''down'']\<rparr>"

lemma ex_run_refused:
  "\<exists>s'. reconcile_impl mem_client ex_key (ex_immediate ConflictSkip True) (NewReconciler ex_refusing) =
     (Inl (Wrapped ''delete old/cfg'' (Api_Error (OtherReason ''InternalError'') ''down'')), s')"
  by (simp add: reconcile_impl_def run_eval record_eval ex_defs ex_refusing_def record_error_def)

theorem reconcile_counts_errors_once_witness:
  "\<exists>s' before req cause us. Reconcile ex_env (recorded mem_client) 3 ex_key (Some (ex_immediate ConflictSkip True))
       (with_history (NewReconciler ex_refusing) []) =
     ((Inl (Wrapped (doing req) cause), Some (ex_immediate ConflictSkip True)),
      with_history s' (before @ [(req, Some cause)])) \<and>
     doing req = ''delete old/cfg'' \<and> all_answered before \<and>
     rc_log s' = us @ [IncError (stage_of req), Warningf (namespaced_name_of ex_key) eventReasonConfigError
       (doing req @ '': '' @ error_text cause), ObserveReconcileDuration 3] \<and> error_count us = 0"
proof -
  let ?err = "Wrapped ''delete old/cfg'' (Api_Error (OtherReason ''InternalError'') ''down'')"
  have valid: "DefaultSpec ex_env (ex_immediate ConflictSkip True) = ex_immediate ConflictSkip True"
    "ValidateSpec (Some (ex_immediate ConflictSkip True)) = None"
    by (simp_all add: ex_immediate_complete)
  obtain s1 where impl: "reconcile_impl mem_client ex_key (ex_immediate ConflictSkip True) (NewReconciler ex_refusing) =
      (Inl ?err, s1)" using ex_run_refused by blast
  have run: "Reconcile ex_env mem_client 3 ex_key (Some (ex_immediate ConflictSkip True)) (NewReconciler ex_refusing) =
      ((Inl ?err, Some (ex_immediate ConflictSkip True)), emit (ObserveReconcileDuration 3) s1)"
    unfolding Reconcile_def Let_def option.case valid impl prod.case sum.case ..
  have log: "rc_log (NewReconciler ex_refusing) = []" by (simp add: NewReconciler_def)
  from reconcile_counts_errors_once [OF run] obtain calls ts before req cause us
    where same: "Reconcile ex_env (recorded mem_client) 3 ex_key (Some (ex_immediate ConflictSkip True))
        (with_history (NewReconciler ex_refusing) []) =
        ((Inl ?err, Some (ex_immediate ConflictSkip True)), with_history (emit (ObserveReconcileDuration 3) s1) calls)"
      and calls: "calls = before @ [(req, Some cause)]" and ok: "all_answered before"
      and err: "?err = Wrapped (doing req) cause"
      and ts: "rc_log (emit (ObserveReconcileDuration 3) s1) = ts @ [ObserveReconcileDuration 3]" "error_count ts = 1"
        "ts = us @ [IncError (stage_of req), Warningf (namespaced_name_of ex_key) eventReasonConfigError
           (doing req @ '': '' @ error_text cause)]"
    unfolding valid option.case sum.case log append_Nil by blast
  from err have "doing req = ''delete old/cfg''" by (simp only: go_error.inject)
  moreover have "error_count us = 0" using ts(2) unfolding ts(3) error_count_append error_count.simps by linarith
  moreover have "rc_log (emit (ObserveReconcileDuration 3) s1) = us @ [IncError (stage_of req),
      Warningf (namespaced_name_of ex_key) eventReasonConfigError (doing req @ '': '' @ error_text cause),
      ObserveReconcileDuration 3]"
    using ts(1) unfolding ts(3) by (simp only: append_assoc append_Cons append_Nil)
  ultimately show ?thesis using same [unfolded calls err] ok by blast
qed

end
