(* ===== verification/Observability.thy ===== *)
theory Observability
  imports Startup Call_History
begin

text \<open>
  What a reconcile makes visible: the events the Kubernetes recorder sends and the values of the
  Prometheus collectors, against the deeds that the calls of the run amount to (\<open>Call_History\<close>).
\<close>

section \<open>What announces a deed\<close>




section \<open>What the recorders make of the log\<close>













section \<open>Property\<close>




end
