(* ===== verification/Command.thy ===== *)
theory Command
  imports Startup Mem_System
begin

text \<open>
  The command, \<open>cmd/configpropagation/main.go\<close>: the flags with Go's \<open>flag\<close> package (and
  \<open>strconv.ParseInt\<close> with base 0) written out, and \<open>main\<close> as the sequence of its calls to the
  manager. An outcome is the exit code and the calls made so far; a call that fails ends the
  process. A panic while packages are initialized ends it with code 2 before \<open>main\<close>.
\<close>

section \<open>strconv.ParseInt with base 0\<close>








section \<open>Flags\<close>










section \<open>main\<close>







section \<open>The order of startup\<close>
















end
